theory Spec2Isabelle
  imports Main "HOL-Library.List_Lexorder" "HOL-Library.Char_ord" "HOL-Library.AList"
begin

section \<open>The response normalizer and error classifier of uapi-json (AirParser.js)\<close>

text \<open>
  A shallow embedding of the parts of \<^verbatim>\<open>src/Services/Air/AirParser.js\<close> that the
  specification talks about. JavaScript values are typed: a string is a \<open>string\<close> (a list
  of code units below 256), \<^verbatim>\<open>undefined\<close>/\<^verbatim>\<open>null\<close> is \<open>None\<close>, an object used as a
  dictionary is an association list in the order \<^verbatim>\<open>Object.keys\<close> enumerates it, and a
  \<^verbatim>\<open>throw\<close> is the \<open>Inl\<close> of a sum.
\<close>

subsection \<open>Histogram of passenger-type codes\<close>

text \<open>
  The values \<^verbatim>\<open>countHistogram\<close> stores are numbers; \<^verbatim>\<open>undefined + 1\<close> would be
  \<^verbatim>\<open>NaN\<close>.
\<close>

datatype count = Count nat | NaN

text \<open>
  The argument of \<^verbatim>\<open>countHistogram\<close>: something that is not an array, an array of
  passenger-type codes, or an array of objects, each given by its \<^verbatim>\<open>Code\<close> field.
\<close>

datatype hist_arg = NotArray | CodeArray "string list" | ObjectArray "string list"

datatype parsing_error =
    HistogramTypeInvalid
  | ReservationsMissing
  | ReservationProviderInfoMissing

text \<open>
  The loop of \<^verbatim>\<open>countHistogram\<close> (lines 73-80): \<open>a\<close> is the object being filled,
  \<open>prev\<close> the previous element (\<^verbatim>\<open>null\<close> at the start).
\<close>

fun countRuns :: "('a \<rightharpoonup> count) \<Rightarrow> 'a option \<Rightarrow> 'a list \<Rightarrow> ('a \<rightharpoonup> count)" where
  "countRuns a prev [] = a"
| "countRuns a prev (x # xs) =
     countRuns
       (if Some x \<noteq> prev then a(x \<mapsto> Count 1)
        else a(x \<mapsto> (case a x of Some (Count n) \<Rightarrow> Count (n + 1) | _ \<Rightarrow> NaN)))
       (Some x) xs"

text \<open>
  \<^verbatim>\<open>countHistogram\<close> (lines 60-83). \<^verbatim>\<open>arr.sort()\<close> sorts in place, by the code units
  of the elements' strings, and is stable; \<open>sort\<close> on \<open>string\<close> is that order. The result is
  the histogram together with the caller's array as the call leaves it: an array of codes
  is the array that was sorted, an array of objects was first replaced (in the local
  variable only) by the fresh array \<^verbatim>\<open>arr.map((elem) => elem.Code)\<close>.
\<close>

definition countHistogram :: "hist_arg \<Rightarrow> parsing_error + ((string \<rightharpoonup> count) \<times> hist_arg)" where
  "countHistogram arr =
     (case arr of
        NotArray \<Rightarrow> Inl HistogramTypeInvalid
      | CodeArray xs \<Rightarrow> Inr (countRuns Map.empty None (sort xs), CodeArray (sort xs))
      | ObjectArray cs \<Rightarrow> Inr (countRuns Map.empty None (sort cs), ObjectArray cs))"

subsection \<open>Strings and the regular expressions of the parser\<close>

text \<open>
  Character classes of JavaScript regular expressions on code units below 256:
  \<^verbatim>\<open>\s\<close> is tab, line feed, vertical tab, form feed, carriage return, space and the
  no-break space; \<^verbatim>\<open>\d\<close> is a decimal digit; \<^verbatim>\<open>[a-z]\<close> under the \<^verbatim>\<open>i\<close> flag is an
  ASCII letter. Under the \<^verbatim>\<open>i\<close> flag two code units match when their canonical forms
  are equal; \<open>canonicalize\<close> is that form for the comparison with the ASCII characters
  of the patterns: an ASCII letter becomes its capital, and no other code unit becomes
  an ASCII character.
\<close>

definition isSpace :: "char \<Rightarrow> bool" where
  "isSpace c = (of_char c \<in> {9, 10, 11, 12, 13, 32, 160 :: nat})"

definition isDigit :: "char \<Rightarrow> bool" where
  "isDigit c = (CHR ''0'' \<le> c \<and> c \<le> CHR ''9'')"

definition isLetter :: "char \<Rightarrow> bool" where
  "isLetter c = ((CHR ''a'' \<le> c \<and> c \<le> CHR ''z'') \<or> (CHR ''A'' \<le> c \<and> c \<le> CHR ''Z''))"

definition canonicalize :: "char \<Rightarrow> char" where
  "canonicalize c =
     (case map_of (zip ''abcdefghijklmnopqrstuvwxyz'' ''ABCDEFGHIJKLMNOPQRSTUVWXYZ'') c of
        Some u \<Rightarrow> u | None \<Rightarrow> c)"

definition startsWith :: "string \<Rightarrow> string \<Rightarrow> bool" where
  "startsWith p s = (take (length p) s = p)"

text \<open>\<^verbatim>\<open>/p/.test(s)\<close> for a pattern \<open>p\<close> of literal characters: \<open>p\<close> occurs in \<open>s\<close>.\<close>

fun regexTest :: "string \<Rightarrow> string \<Rightarrow> bool" where
  "regexTest p [] = (p = [])"
| "regexTest p (c # cs) = (startsWith p (c # cs) \<or> regexTest p cs)"

text \<open>\<^verbatim>\<open>/p/i.test(s)\<close> for a pattern of literal characters.\<close>

definition regexTestI :: "string \<Rightarrow> string \<Rightarrow> bool" where
  "regexTestI p s = regexTest (map canonicalize p) (map canonicalize s)"

text \<open>A JavaScript value is truthy unless it is \<^verbatim>\<open>undefined\<close> or the empty string.\<close>

definition truthy :: "string option \<Rightarrow> bool" where
  "truthy v = (case v of None \<Rightarrow> False | Some s \<Rightarrow> s \<noteq> [])"

definition noAgreementPattern :: "string \<Rightarrow> bool" where
  "noAgreementPattern = regexTestI ''NO AGENCY AGREEMENT''"

definition unableToRetreivePattern :: "string \<Rightarrow> bool" where
  "unableToRetreivePattern = regexTestI ''UNABLE TO RETRIEVE''"

definition ticketRetrieveErrorPattern :: "string \<Rightarrow> bool" where
  "ticketRetrieveErrorPattern = regexTestI ''HOST ERROR DURING TICKET RETRIEVE''"

definition accessedByAnotherTransactionPattern :: "string \<Rightarrow> bool" where
  "accessedByAnotherTransactionPattern = regexTestI ''ACCESSED BY ANOTHER TRANSACTION''"

subsection \<open>Fare-calculation lines\<close>

text \<open>
  \<^verbatim>\<open>fareCalculationPattern = /^([\s\S]+)END($|\s)/\<close>. \<open>matchEND\<close> is what must follow
  the group: the letters \<^verbatim>\<open>END\<close>, then the end of the input or a white-space character.
  The group is greedy: \<open>lastMatch\<close> tries the longest prefix first and gives up
  characters one by one, down to a single character.
\<close>

definition matchEND :: "string \<Rightarrow> bool" where
  "matchEND s = (startsWith ''END'' s \<and> (case drop 3 s of [] \<Rightarrow> True | c # _ \<Rightarrow> isSpace c))"

fun lastMatch :: "nat \<Rightarrow> string \<Rightarrow> string option" where
  "lastMatch 0 s = None"
| "lastMatch (Suc i) s =
     (if matchEND (drop (Suc i) s) then Some (take (Suc i) s) else lastMatch i s)"

definition fareCalculationPattern :: "string \<Rightarrow> string option" where
  "fareCalculationPattern s = lastMatch (length s) s"

text \<open>
  \<^verbatim>\<open>firstOriginPattern = /^(?:s-)?(?:\d{2}[a-z]{3}\d{2}\s+)?([a-z]{3})/i\<close>. Both optional
  groups are greedy: the match with the group is tried first, the one without it second.
  After the date the white space is taken as far as it goes; a shorter run would leave a
  white-space character where a letter must stand.
\<close>

definition orElse :: "'a option \<Rightarrow> 'a option \<Rightarrow> 'a option" where
  "orElse a b = (case a of Some x \<Rightarrow> Some x | None \<Rightarrow> b)"

definition matchOrigin :: "string \<Rightarrow> string option" where
  "matchOrigin s =
     (if length (take 3 s) = 3 \<and> list_all isLetter (take 3 s) then Some (take 3 s) else None)"

definition matchDate :: "string \<Rightarrow> string option" where
  "matchDate s =
     (if length (take 8 s) = 8
         \<and> list_all isDigit (take 2 s)
         \<and> list_all isLetter (take 3 (drop 2 s))
         \<and> list_all isDigit (take 2 (drop 5 s))
         \<and> list_all isSpace (take 1 (drop 7 s))
      then Some (dropWhile isSpace (drop 8 s)) else None)"

definition matchDateOrigin :: "string \<Rightarrow> string option" where
  "matchDateOrigin s =
     orElse (case matchDate s of Some rest \<Rightarrow> matchOrigin rest | None \<Rightarrow> None) (matchOrigin s)"

definition firstOriginPattern :: "string \<Rightarrow> string option" where
  "firstOriginPattern s =
     orElse
       (case s of
          a # b # rest \<Rightarrow>
            if canonicalize a = CHR ''S'' \<and> b = CHR ''-'' then matchDateOrigin rest else None
        | _ \<Rightarrow> None)
       (matchDateOrigin s)"

text \<open>
  \<^verbatim>\<open>/ROE((?:\d+\.)?\d+)/\<close>: the leftmost \<^verbatim>\<open>ROE\<close> that a number follows. The number is
  a run of digits, with a point and a second run of digits when both follow.
\<close>

definition matchRoeNumber :: "string \<Rightarrow> string option" where
  "matchRoeNumber s =
     (let d1 = takeWhile isDigit s;
          r1 = dropWhile isDigit s;
          d2 = takeWhile isDigit (drop 1 r1)
      in if d1 = [] then None
         else if take 1 r1 = ''.'' \<and> d2 \<noteq> [] then Some (d1 @ ''.'' @ d2)
         else Some d1)"

fun roePattern :: "string \<Rightarrow> string option" where
  "roePattern [] = None"
| "roePattern (c # cs) =
     (if startsWith ''ROE'' (c # cs)
      then orElse (matchRoeNumber (drop 3 (c # cs))) (roePattern cs)
      else roePattern cs)"

text \<open>
  \<^verbatim>\<open>fareCalculation.replace(/\s*\(/, '.')\<close>: the pattern has no \<^verbatim>\<open>g\<close> flag, so only
  the leftmost match is replaced. \<open>matchSpacesParen\<close> matches the pattern at the start of
  a string and returns what follows the match.
\<close>

fun matchSpacesParen :: "string \<Rightarrow> string option" where
  "matchSpacesParen [] = None"
| "matchSpacesParen (c # cs) =
     (if isSpace c then matchSpacesParen cs
      else if c = CHR ''('' then Some cs else None)"

fun replaceSpacesParen :: "string \<Rightarrow> string" where
  "replaceSpacesParen [] = []"
| "replaceSpacesParen (c # cs) =
     (case matchSpacesParen (c # cs) of
        Some rest \<Rightarrow> CHR ''.'' # rest
      | None \<Rightarrow> c # replaceSpacesParen cs)"

record fare_calc =
  fareCalculation :: string
  firstOrigin :: "string option"
  roe :: "string option"

text \<open>
  \<^verbatim>\<open>parseFareCalculation\<close> (lines 26-39). \<^verbatim>\<open>str.match(fareCalculationPattern)[1]\<close>
  reads index 1 of \<^verbatim>\<open>null\<close> when the line does not match: a \<^verbatim>\<open>TypeError\<close>, here
  \<open>None\<close>.
\<close>

definition parseFareCalculation :: "string \<Rightarrow> fare_calc option" where
  "parseFareCalculation str =
     (case fareCalculationPattern str of
        None \<Rightarrow> None
      | Some content \<Rightarrow>
          Some \<lparr>fareCalculation = replaceSpacesParen content,
                firstOrigin = firstOriginPattern str,
                roe = roePattern str\<rparr>)"

text \<open>
  Two notions for stating what \<^verbatim>\<open>parseFareCalculation\<close> returns: a string without its
  trailing white space, and a decimal number (digits, or digits, a point and digits).
\<close>

definition trimEnd :: "string \<Rightarrow> string" where
  "trimEnd s = rev (dropWhile isSpace (rev s))"

definition isNumber :: "string \<Rightarrow> bool" where
  "isNumber r = (r \<noteq> [] \<and> (\<forall>c\<in>set r. isDigit c) \<or>
     (\<exists>d1 d2. r = d1 @ ''.'' @ d2 \<and> d1 \<noteq> [] \<and> d2 \<noteq> [] \<and> (\<forall>c\<in>set (d1 @ d2). isDigit c)))"

subsection \<open>Raw documents of the ticket and fault responses\<close>

text \<open>
  A raw document is a record of the fields the parser reads; a field that may be absent
  is an \<open>option\<close>. \<^verbatim>\<open>Code\<close> of a response message is compared with a string in one
  place and with a number in another, so it is kept as a scalar of either kind.
\<close>

datatype scalar = JString string | JNumber int

record response_message =
  rm_text :: "string option"
  rm_Type :: "string option"
  rm_Code :: "scalar option"

record failure_info =
  fi_Code :: "string option"
  fi_Message :: "string option"

record error_info =
  ei_Code :: "string option"
  ei_Description :: "string option"
  ei_AirSegmentError :: "string option list option"

record detail =
  ErrorInfo :: "error_info option"
  AvailabilityErrorInfo :: "error_info option"

text \<open>
  A coupon and a ticket of an electronic ticket record. \<^verbatim>\<open>air:Coupon\<close> and
  \<^verbatim>\<open>air:Ticket\<close> are objects: lists of key and value in the order of
  \<^verbatim>\<open>Object.keys\<close>.
\<close>

record coupon =
  CouponNumber :: "string option"
  Origin :: "string option"
  Destination :: "string option"
  DepartureTime :: "string option"
  Status :: "string option"
  BookingClass :: "string option"
  StopoverCode :: "string option"

record ticket =
  TicketNumber :: "string option"
  Coupon :: "(string \<times> coupon) list"
  ExchangedTicketInfo :: "string option list option"

record etr =
  ProviderLocatorCode :: "string option"
  AirReservationLocatorCode :: "string option"
  FareCalc :: "string option"
  AirPricingInfo :: "(string \<times> string option) list option"
  Ticket :: "(string \<times> ticket) list"

text \<open>
  Of \<^verbatim>\<open>air:AirPricingInfo\<close> of an ETR the record keeps, per pricing info, its
  \<^verbatim>\<open>air:FareCalc\<close>. \<^verbatim>\<open>air:ETR\<close> is one record, or an object of several.
\<close>

datatype etr_node = SingleETR etr | MultipleETR "(string \<times> etr) list"

record document =
  faultcode :: "string option"
  faultstring :: "string option"
  fault_detail :: "detail option"
  ResponseMessage :: "response_message list option"
  DocumentFailureInfo :: "failure_info option"
  ETR :: "etr_node option"
  UniversalRecordLocatorCode :: "string option"

subsection \<open>Errors\<close>

text \<open>
  What an error carries: the document it was made from, an ETR, a PCC, a screen, a list
  of response messages, or nothing.
\<close>

datatype 'doc payload =
    Source 'doc
  | EtrData etr_node
  | Pcc "string option"
  | Screen "string option"
  | Messages "response_message list"
  | NoPayload

datatype air_error =
    Generic
  | NoSeatsAvailable
  | NoAgreement
  | UnableToRetrieve
  | UnableToRetrieveTicket
  | AccessedByAnotherTransaction
  | NoResidualValue
  | TicketsNotIssued
  | NoReservationToImport
  | InvalidRequestData
  | TicketInfoIncomplete
  | SegmentWaitlisted
  | SegmentBookingFailed
  | NoResultsFound
  | DuplicateTicketFound
  | NoValidFare
  | UniversalRecordDataCouldBeStale
  | TravelersListError

text \<open>
  \<open>AirRuntimeError Generic\<close> is the base class \<^verbatim>\<open>AirRuntimeError\<close> itself;
  \<open>UnhandledError e\<close> is \<^verbatim>\<open>new RequestRuntimeError.UnhandledError(null, e)\<close>;
  \<open>TypeError\<close> is the error the JavaScript runtime throws on reading a property of
  \<^verbatim>\<open>undefined\<close> or \<^verbatim>\<open>null\<close>.
\<close>

datatype 'doc error =
    AirParsingError parsing_error
  | AirRuntimeError air_error "'doc payload"
  | UAPIServiceError "'doc payload"
  | UnhandledError "'doc error"
  | TypeError

subsection \<open>The error classifier\<close>

definition getResponseMessages :: "document \<Rightarrow> response_message list" where
  "getResponseMessages source = (case ResponseMessage source of Some ms \<Rightarrow> ms | None \<Rightarrow> [])"

definition fallbackMessage :: string where
  "fallbackMessage = ''UAPI Service resulted in an error''"

text \<open>\<^verbatim>\<open>getUAPIErrorMessage\<close> (lines 434-459); \<open>None\<close> is \<^verbatim>\<open>null\<close>.\<close>

definition getUAPIErrorMessage :: "document \<Rightarrow> string option" where
  "getUAPIErrorMessage source =
     (if truthy (faultstring source) then faultstring source
      else (case getResponseMessages source of
              responseMessage # _ \<Rightarrow>
                (case rm_text responseMessage of
                   Some message \<Rightarrow> Some message | None \<Rightarrow> Some fallbackMessage)
            | [] \<Rightarrow>
                (case DocumentFailureInfo source of
                   Some documentFailureInfo \<Rightarrow>
                     (case fi_Message documentFailureInfo of
                        Some message \<Rightarrow> Some message | None \<Rightarrow> Some fallbackMessage)
                 | None \<Rightarrow> None)))"

text \<open>
  \<^verbatim>\<open>processUAPIError\<close> (lines 461-486) always throws; the function returns the error
  thrown. \<^verbatim>\<open>utils.getErrorPcc\<close> is not among the sources and is a parameter: it takes
  the message (or \<^verbatim>\<open>undefined\<close>) and returns the PCC or \<^verbatim>\<open>null\<close>. The method
  \<^verbatim>\<open>toUpperCase\<close> of strings is a parameter too: the upper case of a code unit
  outside ASCII may be two code units or a code unit above 255.
\<close>

definition processUAPIError ::
  "(string option \<Rightarrow> string option) \<Rightarrow> (string \<Rightarrow> string) \<Rightarrow> document \<Rightarrow> document error" where
  "processUAPIError getErrorPcc toUpperCase source =
     (case getUAPIErrorMessage source of
        None \<Rightarrow> UnhandledError (AirRuntimeError Generic (Source source))
      | Some uapiErrorMessage \<Rightarrow>
          if uapiErrorMessage = [] then UnhandledError (AirRuntimeError Generic (Source source))
          else
            let pcc = getErrorPcc (Some uapiErrorMessage);
                sourceWithFaultString = source\<lparr>faultstring := Some (toUpperCase uapiErrorMessage)\<rparr>
            in
              if noAgreementPattern uapiErrorMessage then AirRuntimeError NoAgreement (Pcc pcc)
              else if unableToRetreivePattern uapiErrorMessage
                then AirRuntimeError UnableToRetrieve (Source sourceWithFaultString)
              else if ticketRetrieveErrorPattern uapiErrorMessage
                then AirRuntimeError UnableToRetrieveTicket (Source sourceWithFaultString)
              else if accessedByAnotherTransactionPattern uapiErrorMessage
                then AirRuntimeError AccessedByAnotherTransaction (Source sourceWithFaultString)
              else UAPIServiceError (Source sourceWithFaultString))"

text \<open>
  The \<^verbatim>\<open>try\<close> block shared by \<^verbatim>\<open>AirErrorHandler\<close> and
  \<^verbatim>\<open>airGetTicketsErrorHandler\<close>: \<open>None\<close> when it throws (no \<^verbatim>\<open>detail\<close>, or neither
  error-info block in it), the error info otherwise.
\<close>

definition errorInfoOf :: "document \<Rightarrow> error_info option" where
  "errorInfoOf rsp =
     (case fault_detail rsp of
        None \<Rightarrow> None
      | Some d \<Rightarrow> (case ErrorInfo d of Some e \<Rightarrow> Some e | None \<Rightarrow> AvailabilityErrorInfo d))"

definition ticketInfoIncompletePhrase :: string where
  "ticketInfoIncompletePhrase =
     ''At least one valid locator code or ticket number or tcr number or service fee info should have been specified''"

definition waitlistedPhrase :: string where
  "waitlistedPhrase = ''Booking is not complete due to waitlisted segment''"

text \<open>\<^verbatim>\<open>AirErrorHandler\<close> (lines 488-544) always throws; the result is the error thrown.\<close>

definition AirErrorHandler ::
  "(string option \<Rightarrow> string option) \<Rightarrow> (string \<Rightarrow> string) \<Rightarrow> document \<Rightarrow> document error" where
  "AirErrorHandler getErrorPcc toUpperCase rsp =
     (case errorInfoOf rsp of
        None \<Rightarrow> processUAPIError getErrorPcc toUpperCase rsp
      | Some errorInfo \<Rightarrow>
          let code = ei_Code errorInfo;
              screen = ei_Description errorInfo;
              pcc = getErrorPcc (faultstring rsp)
          in
            if code = Some ''20'' then AirRuntimeError NoSeatsAvailable (Source rsp)
            else if code = Some ''345'' \<or> code = Some ''1512'' then
              (if pcc \<noteq> None then AirRuntimeError NoAgreement (Pcc pcc)
               else AirRuntimeError UnableToRetrieve (Source rsp))
            else if code = Some ''6207'' \<or> code = Some ''6119'' then UAPIServiceError (Screen screen)
            else if code = Some ''4454'' then AirRuntimeError NoResidualValue (Source rsp)
            else if code = Some ''12009'' then AirRuntimeError TicketsNotIssued (Source rsp)
            else if code = Some ''13003'' then AirRuntimeError NoReservationToImport (Source rsp)
            else if code = Some ''3003'' then AirRuntimeError InvalidRequestData (Source rsp)
            else if code = Some ''3000'' then
              (if faultstring rsp = Some ticketInfoIncompletePhrase
               then AirRuntimeError TicketInfoIncomplete (Source rsp)
               else
                 let messages = (case ei_AirSegmentError errorInfo of Some es \<Rightarrow> es | None \<Rightarrow> [])
                 in if Some waitlistedPhrase \<in> set messages
                    then AirRuntimeError SegmentWaitlisted (Source rsp)
                    else AirRuntimeError SegmentBookingFailed (Source rsp))
            else if code = Some ''2602'' \<or> code = Some ''3037''
              then AirRuntimeError NoResultsFound (Source rsp)
            else processUAPIError getErrorPcc toUpperCase rsp)"

text \<open>\<^verbatim>\<open>responseHasNoTickets\<close> (lines 777-781).\<close>

definition responseHasNoTickets :: "document \<Rightarrow> bool" where
  "responseHasNoTickets rsp =
     (faultcode rsp \<noteq> None \<and>
      (case faultstring rsp of None \<Rightarrow> False | Some s \<Rightarrow> regexTest ''has no tickets'' s))"

text \<open>
  \<^verbatim>\<open>airGetTicketsErrorHandler\<close> (lines 783-809): it returns the response (\<open>Inr\<close>) or
  throws (\<open>Inl\<close>).
\<close>

definition airGetTicketsErrorHandler ::
  "(string option \<Rightarrow> string option) \<Rightarrow> (string \<Rightarrow> string) \<Rightarrow> document \<Rightarrow> document error + document" where
  "airGetTicketsErrorHandler getErrorPcc toUpperCase rsp =
     (case errorInfoOf rsp of
        None \<Rightarrow> Inl (processUAPIError getErrorPcc toUpperCase rsp)
      | Some errorInfo \<Rightarrow>
          let code = ei_Code errorInfo in
            if code = Some ''3000'' \<and> responseHasNoTickets rsp then Inr rsp
            else if code = Some ''345''
              then Inl (AirRuntimeError NoAgreement (Pcc (getErrorPcc (faultstring rsp))))
            else Inl (processUAPIError getErrorPcc toUpperCase rsp))"

subsection \<open>Tickets\<close>

text \<open>
  An element of \<^verbatim>\<open>allCoupons\<close>, and of the \<^verbatim>\<open>coupons\<close> of a returned ticket. The
  fields \<^verbatim>\<open>airline\<close>, \<^verbatim>\<open>flightNumber\<close>, \<^verbatim>\<open>fareBasisCode\<close>, \<^verbatim>\<open>notValidBefore\<close>,
  \<^verbatim>\<open>notValidAfter\<close> and \<^verbatim>\<open>serviceClass\<close> are copied or looked up without influence
  on the others and are left out.
\<close>

record coupon_info =
  c_key :: string
  c_ticketNumber :: "string option"
  c_couponNumber :: "string option"
  c_from :: "string option"
  c_to :: "string option"
  c_departure :: "string option"
  c_status :: "string option"
  c_bookingClass :: "string option"
  c_stopover :: bool

record ticket_info =
  t_ticketNumber :: "string option"
  t_coupons :: "coupon_info list"

text \<open>
  What \<^verbatim>\<open>getTicketFromEtr\<close> returns, without the fields on passengers, prices, taxes,
  commission and form of payment.
\<close>

record ticket_data =
  uapi_ur_locator :: "string option"
  uapi_reservation_locator :: "string option"
  pnr :: "string option"
  ticketNumber :: "string option"
  tickets :: "ticket_info list"
  isConjunctionTicket :: bool
  fareCalc :: fare_calc
  exchangedTickets :: "string option list option"

datatype tickets_result = OneTicket ticket_data | TicketList "ticket_data list"

text \<open>\<^verbatim>\<open>allCoupons\<close> (lines 587-608): the coupons of all tickets, flattened.\<close>

definition couponInfo :: "ticket \<Rightarrow> string \<times> coupon \<Rightarrow> coupon_info" where
  "couponInfo t kc =
     \<lparr>c_key = fst kc,
      c_ticketNumber = TicketNumber t,
      c_couponNumber = CouponNumber (snd kc),
      c_from = Origin (snd kc),
      c_to = Destination (snd kc),
      c_departure = DepartureTime (snd kc),
      c_status = Status (snd kc),
      c_bookingClass = BookingClass (snd kc),
      c_stopover = (StopoverCode (snd kc) = Some ''true'')\<rparr>"

definition allCoupons :: "ticket list \<Rightarrow> coupon_info list" where
  "allCoupons ticketsList = concat (map (\<lambda>t. map (couponInfo t) (Coupon t)) ticketsList)"

text \<open>\<^verbatim>\<open>Array.prototype.findIndex\<close>; \<open>None\<close> is the index \<^verbatim>\<open>-1\<close>.\<close>

fun findIndex :: "('a \<Rightarrow> bool) \<Rightarrow> 'a list \<Rightarrow> nat option" where
  "findIndex P [] = None"
| "findIndex P (x # xs) = (if P x then Some 0 else map_option Suc (findIndex P xs))"

text \<open>Reading an array at an index; \<open>None\<close> is \<^verbatim>\<open>undefined\<close>.\<close>

definition at :: "'a list \<Rightarrow> nat \<Rightarrow> 'a option" where
  "at xs i = (if i < length xs then Some (xs ! i) else None)"

text \<open>
  One coupon of a returned ticket (lines 619-654). The key is looked up in \<open>allCoupons\<close>;
  the coupon found is returned with the \<^verbatim>\<open>stopover\<close> of the coupon after it, or
  \<^verbatim>\<open>true\<close> when none comes after it. The key of a ticket's coupon is a key of
  \<open>allCoupons\<close>, so the index \<^verbatim>\<open>-1\<close> does not occur; the model has no coupon to return
  for it and gives \<open>None\<close>.
\<close>

definition ticketCoupon :: "coupon_info list \<Rightarrow> string \<Rightarrow> coupon_info option" where
  "ticketCoupon all couponKey =
     (case findIndex (\<lambda>ac. c_key ac = couponKey) all of
        None \<Rightarrow> None
      | Some allCouponsIndex \<Rightarrow>
          (case at all allCouponsIndex of
             None \<Rightarrow> None
           | Some coupon \<Rightarrow>
               Some (coupon\<lparr>c_stopover :=
                 (case at all (allCouponsIndex + 1) of
                    Some nextCoupon \<Rightarrow> c_stopover nextCoupon
                  | None \<Rightarrow> True)\<rparr>)))"

text \<open>All or nothing: the values of a list of options, \<open>None\<close> when one is missing.\<close>

fun allSome :: "'a option list \<Rightarrow> 'a list option" where
  "allSome [] = Some []"
| "allSome (x # xs) =
     (case x of None \<Rightarrow> None
      | Some v \<Rightarrow> (case allSome xs of None \<Rightarrow> None | Some vs \<Rightarrow> Some (v # vs)))"

definition ticketInfo :: "coupon_info list \<Rightarrow> ticket \<Rightarrow> ticket_info option" where
  "ticketInfo all t =
     (case allSome (map (ticketCoupon all) (map fst (Coupon t))) of
        None \<Rightarrow> None
      | Some coupons \<Rightarrow> Some \<lparr>t_ticketNumber = TicketNumber t, t_coupons = coupons\<rparr>)"

text \<open>
  Modelled from the spec: \<^verbatim>\<open>utils.firstInObj\<close> (the module \<^verbatim>\<open>utils\<close> is not among
  the sources), the value under the first key of an object, which is how the spec's
  ``first fare component'' and ``first pricing-info'' are read; \<^verbatim>\<open>undefined\<close> for an
  object without keys.
\<close>

definition firstInObj :: "('k \<times> 'v) list \<Rightarrow> 'v option" where
  "firstInObj obj = (case obj of [] \<Rightarrow> None | kv # _ \<Rightarrow> Some (snd kv))"

text \<open>
  \<^verbatim>\<open>getTicketFromEtr\<close> (lines 546-739). \<open>container\<close> is the value the source has in
  \<^verbatim>\<open>etr\<close> and throws with \<^verbatim>\<open>TicketInfoIncomplete\<close>.
\<close>

definition getTicketFromEtr ::
  "etr_node \<Rightarrow> etr \<Rightarrow> document \<Rightarrow> bool \<Rightarrow> document error + ticket_data" where
  "getTicketFromEtr container etr obj allowNoProviderLocatorCodeRetrieval =
     (if \<not> allowNoProviderLocatorCodeRetrieval \<and> \<not> truthy (ProviderLocatorCode etr)
      then Inl (AirRuntimeError TicketInfoIncomplete (EtrData container))
      else
        let airPricingInfo =
              (case AirPricingInfo etr of None \<Rightarrow> None | Some infos \<Rightarrow> firstInObj infos);
            ticketsList = map snd (Ticket etr);
            all = allCoupons ticketsList;
            exchanged = concat (map (\<lambda>t. case ExchangedTicketInfo t of None \<Rightarrow> [] | Some ns \<Rightarrow> ns)
                          ticketsList)
        in
          (case allSome (map (ticketInfo all) ticketsList) of
             None \<Rightarrow> Inl TypeError
           | Some tks \<Rightarrow>
               (case FareCalc etr of
                  None \<Rightarrow> Inl TypeError
                | Some etrFareCalc \<Rightarrow>
                    (case (if fareCalculationPattern etrFareCalc \<noteq> None then Some (Some etrFareCalc)
                           else airPricingInfo) of
                       None \<Rightarrow> Inl TypeError
                     | Some fareCalcSource \<Rightarrow>
                         (case tks of
                            [] \<Rightarrow> Inl TypeError
                          | firstTicket # _ \<Rightarrow>
                              (case (case fareCalcSource of
                                       None \<Rightarrow> None | Some str \<Rightarrow> parseFareCalculation str) of
                                 None \<Rightarrow> Inl TypeError
                               | Some fc \<Rightarrow>
                                   Inr \<lparr>uapi_ur_locator = UniversalRecordLocatorCode obj,
                                        uapi_reservation_locator = AirReservationLocatorCode etr,
                                        pnr = ProviderLocatorCode etr,
                                        ticketNumber = t_ticketNumber firstTicket,
                                        tickets = tks,
                                        isConjunctionTicket = (length tks > 1),
                                        fareCalc = fc,
                                        exchangedTickets =
                                          (if length exchanged > 0 then Some exchanged else None)\<rparr>))))))"

text \<open>The errors of a list of results: the first one thrown, or all the values.\<close>

fun allInr :: "('e + 'a) list \<Rightarrow> 'e + 'a list" where
  "allInr [] = Inr []"
| "allInr (x # xs) =
     (case x of Inl e \<Rightarrow> Inl e
      | Inr v \<Rightarrow> (case allInr xs of Inl e \<Rightarrow> Inl e | Inr vs \<Rightarrow> Inr (v # vs)))"

text \<open>
  \<^verbatim>\<open>airGetTicket\<close> (lines 741-775). A single ETR starts with a property that has no
  \<^verbatim>\<open>ProviderLocatorCode\<close> of its own, so \<^verbatim>\<open>multipleTickets\<close> is false for it.
\<close>

definition airGetTicket ::
  "(string option \<Rightarrow> string option) \<Rightarrow> (string \<Rightarrow> string) \<Rightarrow> document \<Rightarrow> bool \<Rightarrow> document error + tickets_result" where
  "airGetTicket getErrorPcc toUpperCase obj allowNoProviderLocatorCodeRetrieval =
     (case DocumentFailureInfo obj of
        Some failure \<Rightarrow>
          if fi_Code failure = Some ''3273'' then Inl (AirRuntimeError DuplicateTicketFound (Source obj))
          else Inl (processUAPIError getErrorPcc toUpperCase obj)
      | None \<Rightarrow>
          if list_ex (\<lambda>m. rm_Type m = Some ''Error'' \<and> rm_Code m \<noteq> Some (JString ''12009''))
               (getResponseMessages obj)
          then Inl (processUAPIError getErrorPcc toUpperCase obj)
          else
            (case ETR obj of
               None \<Rightarrow> Inl (processUAPIError getErrorPcc toUpperCase obj)
             | Some (SingleETR etr) \<Rightarrow>
                 map_sum id OneTicket
                   (getTicketFromEtr (SingleETR etr) etr obj allowNoProviderLocatorCodeRetrieval)
             | Some (MultipleETR []) \<Rightarrow> Inl TypeError
             | Some (MultipleETR (first # rest)) \<Rightarrow>
                 if truthy (ProviderLocatorCode (snd first)) then
                   map_sum id TicketList
                     (allInr (map (\<lambda>innerEtr. getTicketFromEtr (SingleETR innerEtr) innerEtr obj
                                      allowNoProviderLocatorCodeRetrieval)
                                (map snd (first # rest))))
                 else if \<not> allowNoProviderLocatorCodeRetrieval
                   then Inl (AirRuntimeError TicketInfoIncomplete (EtrData (MultipleETR (first # rest))))
                 else Inl TypeError))"

text \<open>\<^verbatim>\<open>airGetTickets\<close> (lines 811-821).\<close>

definition airGetTickets ::
  "(string option \<Rightarrow> string option) \<Rightarrow> (string \<Rightarrow> string) \<Rightarrow> document \<Rightarrow> document error + ticket_data list" where
  "airGetTickets getErrorPcc toUpperCase obj =
     (if responseHasNoTickets obj then Inr []
      else (case airGetTicket getErrorPcc toUpperCase obj False of
              Inl e \<Rightarrow> Inl e
            | Inr (TicketList ts) \<Rightarrow> Inr ts
            | Inr (OneTicket t) \<Rightarrow> Inr [t]))"

subsection \<open>Objects built by the parser\<close>

text \<open>
  An object the parser fills key by key is a list of key and value in the order the keys
  were first assigned; \<^verbatim>\<open>obj[k] = v\<close> is \<open>AList.update k v obj\<close> and \<^verbatim>\<open>obj[k]\<close> is
  \<open>map_of obj k\<close>. A property key that is \<^verbatim>\<open>undefined\<close> is the string
  \<^verbatim>\<open>'undefined'\<close>. \<^verbatim>\<open>Object.keys\<close> enumerates the keys that are array indices
  (canonical decimal numbers below \<open>2\<^sup>3\<^sup>2 - 1\<close>) first, in ascending numeric order,
  and then the other keys in the order they were assigned.
\<close>

definition propertyKey :: "string option \<Rightarrow> string" where
  "propertyKey k = (case k of None \<Rightarrow> ''undefined'' | Some s \<Rightarrow> s)"

definition digitValue :: "char \<Rightarrow> int" where
  "digitValue c = of_char c - 48"

definition digitsToInt :: "string \<Rightarrow> int" where
  "digitsToInt s = foldl (\<lambda>n c. 10 * n + digitValue c) 0 s"

definition isArrayIndex :: "string \<Rightarrow> bool" where
  "isArrayIndex s =
     (s \<noteq> [] \<and> list_all isDigit s \<and> (s = ''0'' \<or> take 1 s \<noteq> ''0'') \<and>
      digitsToInt s < 4294967295)"

definition objectEntries :: "(string \<times> 'v) list \<Rightarrow> (string \<times> 'v) list" where
  "objectEntries obj =
     sort_key (\<lambda>kv. digitsToInt (fst kv)) (filter (\<lambda>kv. isArrayIndex (fst kv)) obj) @
     filter (\<lambda>kv. \<not> isArrayIndex (fst kv)) obj"

text \<open>
  \<^verbatim>\<open>Array.prototype.sort\<close> with a comparison function whose result is a number or
  \<^verbatim>\<open>NaN\<close> (\<open>None\<close>, which the sort takes for zero). The sort is stable. For a
  comparison that orders the elements consistently every stable sort gives the same
  array, the one of this insertion sort; for other comparisons the order of the result is
  left open by the language, and the model fixes this one.
\<close>

fun insertBy :: "('a \<Rightarrow> 'a \<Rightarrow> int option) \<Rightarrow> 'a \<Rightarrow> 'a list \<Rightarrow> 'a list" where
  "insertBy cmp x [] = [x]"
| "insertBy cmp x (y # ys) =
     (if (case cmp x y of Some v \<Rightarrow> v \<le> 0 | None \<Rightarrow> True) then x # y # ys
      else y # insertBy cmp x ys)"

definition sortBy :: "('a \<Rightarrow> 'a \<Rightarrow> int option) \<Rightarrow> 'a list \<Rightarrow> 'a list" where
  "sortBy cmp xs = foldr (insertBy cmp) xs []"

subsection \<open>Price responses\<close>

text \<open>
  The raw document of a price response as the XML parser gives it to
  \<^verbatim>\<open>airPriceRspPricingSolutionXML\<close>: every child element is an array, the attributes of
  an element are under \<^verbatim>\<open>$\<close>. Of a passenger type the record keeps the attributes; of a
  pricing info the \<^verbatim>\<open>Key\<close> attribute, the passenger types and, as one value, all the
  rest; of a pricing solution the attributes \<^verbatim>\<open>Key\<close> and \<^verbatim>\<open>TotalPrice\<close>, the segment
  references, the segments and the pricing infos; a segment stands for itself. An
  itinerary is given by its \<^verbatim>\<open>air:AirSegment\<close>, a price result by its
  \<^verbatim>\<open>air:AirPricingSolution\<close>.
\<close>

record raw_passenger_type =
  pt_BookingTravelerRef :: "string option"
  pt_Code :: "string option"
  pt_Age :: "string option"

record raw_pricing_info =
  rpi_Key :: "string option"
  rpi_PassengerType :: "raw_passenger_type list option"
  rpi_rest :: string

record pricing_solution =
  sol_Key :: "string option"
  sol_TotalPrice :: string
  sol_AirSegmentRef :: "string list option"
  sol_AirSegment :: "string list option"
  sol_AirPricingInfo :: "raw_pricing_info list option"

record air_price_rsp =
  AirItinerary :: "string list option list option"
  AirPriceResult :: "pricing_solution list option list option"

record price_document =
  AirPriceRsp :: "air_price_rsp list option"

text \<open>
  What \<^verbatim>\<open>this.mergeLeafRecursive(obj, 'air:AirPriceRsp')['air:AirPriceRsp']\<close> gives: the
  method is not among the sources and is a parameter. Of its result the model keeps
  \<^verbatim>\<open>air:AirPricingSolution\<close> of \<^verbatim>\<open>air:AirPriceResult\<close>, an object of solutions, each
  given by its \<^verbatim>\<open>air:AirPricingInfo\<close>, an object of pricing infos, each given by its
  \<^verbatim>\<open>air:PassengerType\<close> as \<^verbatim>\<open>countHistogram\<close> takes it; and the itinerary, given by
  its \<^verbatim>\<open>air:AirSegment\<close>. An outer \<open>None\<close> is a node that is absent.
\<close>

record merged_price_rsp =
  m_AirPricingSolution :: "(string \<times> (string \<times> hist_arg) list option) list option"
  m_AirItinerary :: "string list option option"

record passenger =
  ageCategory :: string
  Age :: "string option"

text \<open>
  The value \<^verbatim>\<open>airPriceRspPricingSolutionXML\<close> returns: the attributes of the chosen
  solution, the solution whose four roots the XML builder (a library) turns into text,
  and the merged segments.
\<close>

record price_solution_xml =
  x_AirPricingSolution :: "string option \<times> string"
  x_roots :: pricing_solution
  x_AirSegment :: "string list option"

text \<open>
  \<^verbatim>\<open>airPriceRspPassengersPerReservation\<close> (lines 197-211): the histogram of the
  passenger types of each pricing info of the first solution. The loop of
  \<^verbatim>\<open>reduce\<close> is \<open>passengersPerReservation\<close>.
\<close>

fun passengersPerReservation ::
  "(string \<times> hist_arg) list \<Rightarrow> string list \<Rightarrow> (string \<times> (string \<rightharpoonup> count)) list \<Rightarrow>
   price_document error + (string \<times> (string \<rightharpoonup> count)) list" where
  "passengersPerReservation pricing [] acc = Inr acc"
| "passengersPerReservation pricing (right # keys) acc =
     (case map_of pricing right of
        None \<Rightarrow> Inl TypeError
      | Some passengerTypes \<Rightarrow>
          (case countHistogram passengerTypes of
             Inl e \<Rightarrow> Inl (AirParsingError e)
           | Inr h \<Rightarrow> passengersPerReservation pricing keys (AList.update right (fst h) acc)))"

definition airPriceRspPassengersPerReservation ::
  "(price_document \<Rightarrow> price_document error + merged_price_rsp) \<Rightarrow> price_document \<Rightarrow>
   price_document error + (string \<times> (string \<rightharpoonup> count)) list" where
  "airPriceRspPassengersPerReservation mergeLeafRecursive obj =
     (case mergeLeafRecursive obj of
        Inl e \<Rightarrow> Inl e
      | Inr data \<Rightarrow>
          (case m_AirPricingSolution data of
             None \<Rightarrow> Inl TypeError
           | Some prices \<Rightarrow>
               (case objectEntries prices of
                  [] \<Rightarrow> Inl TypeError
                | first # _ \<Rightarrow>
                    (case map_of prices (fst first) of
                       None \<Rightarrow> Inl TypeError
                     | Some None \<Rightarrow> Inl TypeError
                     | Some (Some pricing) \<Rightarrow>
                         passengersPerReservation pricing (map fst (objectEntries pricing)) []))))"

text \<open>
  The comparison of two solutions (line 352). \<^verbatim>\<open>parseFloat\<close> is a parameter: the
  number it parses, in a linear order, \<open>None\<close> when it is \<^verbatim>\<open>NaN\<close>. The sort uses only
  the sign of the difference.
\<close>

definition comparePrice ::
  "(string \<Rightarrow> 'n::linorder option) \<Rightarrow> pricing_solution \<Rightarrow> pricing_solution \<Rightarrow> int option" where
  "comparePrice parseFloat a b =
     (case parseFloat (drop 3 (sol_TotalPrice a)) of
        None \<Rightarrow> None
      | Some x \<Rightarrow>
          (case parseFloat (drop 3 (sol_TotalPrice b)) of
             None \<Rightarrow> None
           | Some y \<Rightarrow> Some (if x < y then - 1 else if x = y then 0 else 1)))"

text \<open>The decimal digits of a number, for \<^verbatim>\<open>'P_' + index\<close>.\<close>

function decimal :: "nat \<Rightarrow> string" where
  "decimal n =
     (if n < 10 then [''0123456789'' ! n] else decimal (n div 10) @ [''0123456789'' ! (n mod 10)])"
  by pat_completeness auto
termination
  by (relation "measure id") auto

text \<open>
  The loop over \<^verbatim>\<open>this.env.passengers\<close> (lines 370-391). A passenger takes a place in
  the first reservation that has one left for the age category, and the passenger type
  is pushed to the pricing info with the key of that reservation (\<open>n\<close> is the index
  of the passenger); \<open>None\<close> is the
  \<^verbatim>\<open>TypeError\<close> of pushing to a pricing info that was not found.
\<close>

definition hasPlace :: "string \<Rightarrow> (string \<rightharpoonup> count) option \<Rightarrow> bool" where
  "hasPlace category item =
     (case item of
        None \<Rightarrow> False
      | Some h \<Rightarrow> (case h category of Some (Count n) \<Rightarrow> 0 < n | _ \<Rightarrow> False))"

definition takePlace :: "string \<Rightarrow> (string \<rightharpoonup> count) \<Rightarrow> (string \<rightharpoonup> count)" where
  "takePlace category h =
     (case h category of Some (Count n) \<Rightarrow> h(category \<mapsto> Count (n - 1)) | _ \<Rightarrow> h)"

fun assignPassengers ::
  "nat \<Rightarrow> passenger list \<Rightarrow> (string \<times> (string \<rightharpoonup> count)) list \<Rightarrow> raw_pricing_info list \<Rightarrow>
   raw_pricing_info list option" where
  "assignPassengers n [] passengersPerReservations infos = Some infos"
| "assignPassengers n (passenger # rest) passengersPerReservations infos =
     (let reservationKey =
            find (\<lambda>key. hasPlace (ageCategory passenger) (map_of passengersPerReservations key))
              (map fst (objectEntries passengersPerReservations));
          reservations =
            (case reservationKey of
               None \<Rightarrow> passengersPerReservations
             | Some key \<Rightarrow>
                 (case map_of passengersPerReservations key of
                    None \<Rightarrow> passengersPerReservations
                  | Some item \<Rightarrow>
                      AList.update key (takePlace (ageCategory passenger) item)
                        passengersPerReservations))
      in case findIndex (\<lambda>info. rpi_Key info = reservationKey) infos of
           None \<Rightarrow> None
         | Some i \<Rightarrow>
             (case rpi_PassengerType (infos ! i) of
                None \<Rightarrow> None
              | Some types \<Rightarrow>
                  assignPassengers (n + 1) rest reservations
                    (infos
                       [i := (infos ! i)
                          \<lparr>rpi_PassengerType :=
                             Some (types @
                               [\<lparr>pt_BookingTravelerRef = Some (''P_'' @ decimal n),
                                 pt_Code = Some (ageCategory passenger),
                                 pt_Age = Age passenger\<rparr>])\<rparr>])))"

text \<open>
  The array \<^verbatim>\<open>obj['air:AirPriceRsp'][0]['air:AirPriceResult'][0]['air:AirPricingSolution']\<close>
  of a document, and the document in which that array holds other elements.
\<close>

definition pricingSolutionsOf :: "price_document \<Rightarrow> pricing_solution list option" where
  "pricingSolutionsOf obj =
     (case AirPriceRsp obj of
        Some (rsp # _) \<Rightarrow>
          (case AirPriceResult rsp of Some (priceResult # _) \<Rightarrow> priceResult | _ \<Rightarrow> None)
      | _ \<Rightarrow> None)"

definition withPricingSolutions :: "pricing_solution list \<Rightarrow> price_document \<Rightarrow> price_document" where
  "withPricingSolutions pricingSolutions obj =
     (case AirPriceRsp obj of
        Some (rsp # rsps) \<Rightarrow>
          (case AirPriceResult rsp of
             Some (priceResult # priceResults) \<Rightarrow>
               obj\<lparr>AirPriceRsp :=
                     Some (rsp\<lparr>AirPriceResult := Some (Some pricingSolutions # priceResults)\<rparr> # rsps)\<rparr>
           | _ \<Rightarrow> obj)
      | _ \<Rightarrow> obj)"

text \<open>
  \<^verbatim>\<open>segments\<close> of line 344: the outer \<open>None\<close> is the \<^verbatim>\<open>TypeError\<close> of reading through
  a node that is absent.
\<close>

definition segmentsOf :: "price_document \<Rightarrow> string list option option" where
  "segmentsOf obj =
     (case AirPriceRsp obj of
        Some (rsp # _) \<Rightarrow>
          (case AirItinerary rsp of Some (itinerary # _) \<Rightarrow> Some itinerary | _ \<Rightarrow> None)
      | _ \<Rightarrow> None)"

text \<open>
  \<^verbatim>\<open>airPriceRspPricingSolutionXML\<close> (lines 339-427). The result is what the call returns
  or throws, together with the input document \<^verbatim>\<open>obj\<close> as the call leaves it.
  \<^verbatim>\<open>objCopy\<close> is a deep copy, a value of its own: what is done to it, and to what
  \<^verbatim>\<open>mergeLeafRecursive\<close> makes of it, is not done to \<^verbatim>\<open>obj\<close>. The statements on
  \<^verbatim>\<open>pricingSolutions\<close> and \<^verbatim>\<open>pricingSolution\<close> work on the objects of \<^verbatim>\<open>obj\<close>
  itself: the sort of line 351 is in place, and lines 359, 361 and 393 delete and assign
  properties of the chosen solution. The pricing infos of line 366 are fresh objects with
  fresh arrays.
\<close>

definition airPriceRspPricingSolutionXML ::
  "(price_document \<Rightarrow> price_document error + merged_price_rsp) \<Rightarrow>
   (string \<Rightarrow> 'n::linorder option) \<Rightarrow> passenger list \<Rightarrow> price_document \<Rightarrow>
   (price_document error + price_solution_xml) \<times> price_document" where
  "airPriceRspPricingSolutionXML mergeLeafRecursive parseFloat passengers obj =
     (let objCopy = obj in
      case airPriceRspPassengersPerReservation mergeLeafRecursive objCopy of
        Inl e \<Rightarrow> (Inl e, obj)
      | Inr passengersPerReservations \<Rightarrow>
          (case segmentsOf obj of
             None \<Rightarrow> (Inl TypeError, obj)
           | Some segments \<Rightarrow>
               (case pricingSolutionsOf obj of
                  None \<Rightarrow> (Inl TypeError, obj)
                | Some pricingSolutions \<Rightarrow>
                    (case (if 1 < length pricingSolutions
                           then sortBy (comparePrice parseFloat) pricingSolutions
                           else pricingSolutions) of
                       [] \<Rightarrow> (Inl TypeError, obj)
                     | pricingSolution # others \<Rightarrow>
                         let withSegments =
                               pricingSolution\<lparr>sol_AirSegmentRef := None, sol_AirSegment := segments\<rparr>
                         in
                           (case (case sol_AirPricingInfo withSegments of
                                    None \<Rightarrow> None
                                  | Some infos \<Rightarrow>
                                      assignPassengers 0 passengers passengersPerReservations
                                        (map (\<lambda>info. info\<lparr>rpi_PassengerType := Some []\<rparr>) infos)) of
                              None \<Rightarrow> (Inl TypeError, withPricingSolutions (withSegments # others) obj)
                            | Some newInfos \<Rightarrow>
                                let final = withSegments\<lparr>sol_AirPricingInfo := Some newInfos\<rparr>;
                                    after = withPricingSolutions (final # others) obj
                                in
                                  (case mergeLeafRecursive objCopy of
                                     Inl e \<Rightarrow> (Inl e, after)
                                   | Inr data \<Rightarrow>
                                       (case m_AirItinerary data of
                                          None \<Rightarrow> (Inl TypeError, after)
                                        | Some mergedSegments \<Rightarrow>
                                            (Inr \<lparr>x_AirPricingSolution =
                                                    (sol_Key final, sol_TotalPrice final),
                                                  x_roots = final,
                                                  x_AirSegment = mergedSegments\<rparr>,
                                             after))))))))"



subsection \<open>Universal records\<close>

record fare_info =
  EffectiveDate :: "string option"
  TourCode :: "string option"
  Endorsement :: "string option list option"

text \<open>
  A pricing info of an air reservation: \<^verbatim>\<open>air:BookingInfo\<close> by the \<^verbatim>\<open>SegmentRef\<close> of
  its entries, \<^verbatim>\<open>air:TicketingModifiersRef\<close> by its keys.
\<close>

record pricing_info =
  AirPricingInfoGroup :: "string option"
  BookingInfo :: "string option list option"
  pi_BookingTravelerRef :: "string list option"
  FareInfo :: "(string \<times> fare_info) list option"
  TicketingModifiersRef :: "string list option"
  pi_FareCalc :: "string option"
  TotalPrice :: "string option"

record raw_ticket_info =
  Number :: "string option"
  ti_BookingTravelerRef :: "string option"
  AirPricingInfoRef :: "string option"

text \<open>
  An air reservation: \<^verbatim>\<open>air:TicketingModifiers\<close> by the \<^verbatim>\<open>PlatingCarrier\<close> of each
  entry, \<^verbatim>\<open>air:DocumentInfo\<close> by its \<^verbatim>\<open>air:TicketInfo\<close>.
\<close>

record air_reservation =
  ProviderReservationInfoRef :: "string option"
  LocatorCode :: "string option"
  BookingTravelerRef :: "string list option"
  TicketingModifiers :: "(string \<times> string option) list option"
  TicketInfo :: "raw_ticket_info list option"
  ar_AirPricingInfo :: "(string \<times> pricing_info) list option"

record provider_info =
  Key :: "string option"
  prov_LocatorCode :: "string option"
  OwningPCC :: "string option"

text \<open>A traveler stands for itself: \<^verbatim>\<open>format.buildPassenger\<close> is not among the sources.\<close>

type_synonym traveler = string

record universal_record =
  ur_LocatorCode :: "string option"
  BookingTraveler :: "(string \<times> traveler) list option"
  AirReservation :: "air_reservation list option"
  ProviderReservationInfo :: "(string \<times> provider_info) list option"

record ur_document =
  UniversalRecord :: "universal_record option"
  ur_ResponseMessage :: "response_message list option"
  AirSegmentSellFailureInfo :: bool

text \<open>The canonical booking, in the fields the model follows.\<close>

record booking_ticket =
  bt_number :: "string option"
  uapi_passenger_ref :: "string option"
  uapi_pricing_info_ref :: "string option"

record pricing_passenger =
  pp_uapi_passenger_ref :: string
  isTicketed :: bool
  pp_ticketNumber :: "string option"

record booking_pricing_info =
  bp_uapi_pricing_info_ref :: string
  bp_passengers :: "pricing_passenger list"
  uapi_pricing_info_group :: "string option"
  bp_totalPrice :: "string option"
  bp_fareCalc :: fare_calc

record fare_quote_common =
  uapi_segment_refs :: "string option list"
  effectiveDate :: "string option"
  endorsement :: "string option"
  tourCode :: "string option"
  platingCarrier :: "string option"

record fare_quote_group =
  pricingInfos :: "booking_pricing_info list"
  uapi_passenger_refs :: "string list"
  common :: "fare_quote_common option"

record fare_quote = fare_quote_group +
  index :: nat

record booking =
  b_pnr :: "string option"
  b_uapi_ur_locator :: "string option"
  b_uapi_reservation_locator :: "string option"
  fareQuotes :: "fare_quote list"
  b_passengers :: "traveler list"
  b_tickets :: "booking_ticket list"
  bookingPCC :: "string option"

subsection \<open>Extracting bookings\<close>

definition noValidFare :: "string option \<Rightarrow> bool" where
  "noValidFare t =
     (case t of None \<Rightarrow> False | Some s \<Rightarrow> regexTest ''NO VALID FARE FOR INPUT CRITERIA'' s)"

definition bookingStaleData :: "string option \<Rightarrow> bool" where
  "bookingStaleData t =
     (case t of None \<Rightarrow> False
      | Some s \<Rightarrow> regexTestI ''failed refresh'' s \<or> regexTestI ''data may be stale'' s)"

definition BOOKING_STALE_DATA_ERROR_CODE :: int where
  "BOOKING_STALE_DATA_ERROR_CODE = 1301"

text \<open>
  The loop over the response messages (lines 857-865): the error of the first message
  that has one.
\<close>

fun checkMessages ::
  "ur_document \<Rightarrow> response_message list \<Rightarrow> response_message list \<Rightarrow> ur_document error option" where
  "checkMessages obj messages [] = None"
| "checkMessages obj messages (m # ms) =
     (if noValidFare (rm_text m) then Some (AirRuntimeError NoValidFare (Source obj))
      else if bookingStaleData (rm_text m) \<or> rm_Code m = Some (JNumber BOOKING_STALE_DATA_ERROR_CODE)
        then Some (AirRuntimeError UniversalRecordDataCouldBeStale (Messages messages))
      else checkMessages obj messages ms)"

text \<open>\<^verbatim>\<open>tickets\<close> of a booking (lines 1024-1038), without the passenger names.\<close>

definition bookingTickets :: "air_reservation \<Rightarrow> booking_ticket list" where
  "bookingTickets booking =
     (case TicketInfo booking of
        None \<Rightarrow> []
      | Some infos \<Rightarrow>
          map (\<lambda>ticket.
                 \<lparr>bt_number = Number ticket,
                  uapi_passenger_ref = ti_BookingTravelerRef ticket,
                  uapi_pricing_info_ref =
                    (if truthy (AirPricingInfoRef ticket) then AirPricingInfoRef ticket else None)\<rparr>)
            infos)"

text \<open>\<^verbatim>\<open>values.join(' ')\<close>; an element that is \<^verbatim>\<open>undefined\<close> is joined as the empty string.\<close>

fun joinSpace :: "string option list \<Rightarrow> string" where
  "joinSpace [] = []"
| "joinSpace [v] = (case v of None \<Rightarrow> [] | Some s \<Rightarrow> s)"
| "joinSpace (v # w # vs) = (case v of None \<Rightarrow> [] | Some s \<Rightarrow> s) @ '' '' @ joinSpace (w # vs)"

text \<open>
  The body of the loop over \<^verbatim>\<open>booking['air:AirPricingInfo']\<close> (lines 1043-1143) for
  one key, in the parts that can fail and the two values it makes. Baggage, taxes and
  passenger counts are left out.

  \<open>modifiersOf\<close> is \<^verbatim>\<open>modifierKey && ticketingModifiers[modifierKey]\<close> by the
  \<^verbatim>\<open>PlatingCarrier\<close> of the modifiers found; the outer \<open>None\<close> is the \<^verbatim>\<open>TypeError\<close>
  of reading a key of an absent \<^verbatim>\<open>air:TicketingModifiers\<close>. \<open>firstFareInfoOf\<close> is
  \<^verbatim>\<open>utils.firstInObj(fareInfo)\<close> as lines 1094-1104 use it. Without
  \<^verbatim>\<open>air:FareInfo\<close> the first fare info is \<^verbatim>\<open>undefined\<close> and nothing is read from it,
  every use being guarded by \<^verbatim>\<open>fareInfo &&\<close>: that is \<open>Some None\<close>, and the tour code,
  the endorsement and the effective date are absent. The first fare info of an
  \<^verbatim>\<open>air:FareInfo\<close> without keys is \<^verbatim>\<open>undefined\<close> as well, and reading its
  \<^verbatim>\<open>TourCode\<close> is a \<^verbatim>\<open>TypeError\<close>: that is \<open>None\<close>. \<open>fareCalcOf\<close> is
  \<^verbatim>\<open>parseFareCalculation(pricingInfo['air:FareCalc'])\<close>.
  \<open>pricingInfoOf\<close> gives the pricing info returned and the value assigned to
  \<^verbatim>\<open>fareQuotesCommon[pricingInfo.AirPricingInfoGroup]\<close>.
\<close>

definition modifiersOf ::
  "(string \<times> string option) list option \<Rightarrow> pricing_info \<Rightarrow> string option option option" where
  "modifiersOf ticketingModifiers pricingInfo =
     (let modifierKey = (case TicketingModifiersRef pricingInfo of
                           None \<Rightarrow> None
                         | Some ks \<Rightarrow> (case ks of [] \<Rightarrow> None | k # _ \<Rightarrow> Some k))
      in if truthy modifierKey
         then (case ticketingModifiers of
                 None \<Rightarrow> None
               | Some tm \<Rightarrow> Some (map_of tm (propertyKey modifierKey)))
         else Some None)"

definition firstFareInfoOf :: "pricing_info \<Rightarrow> fare_info option option" where
  "firstFareInfoOf pricingInfo =
     (case FareInfo pricingInfo of
        None \<Rightarrow> Some None
      | Some fareInfo \<Rightarrow>
          (case firstInObj fareInfo of None \<Rightarrow> None | Some firstFareInfo \<Rightarrow> Some (Some firstFareInfo)))"

definition fareCalcOf :: "pricing_info \<Rightarrow> fare_calc option" where
  "fareCalcOf pricingInfo =
     (case pi_FareCalc pricingInfo of None \<Rightarrow> None | Some str \<Rightarrow> parseFareCalculation str)"

definition pricingInfoPassengers ::
  "booking_ticket list \<Rightarrow> string \<Rightarrow> pricing_info \<Rightarrow> pricing_passenger list" where
  "pricingInfoPassengers tks key pricingInfo =
     map (\<lambda>ref.
            let ticket = find (\<lambda>t. uapi_passenger_ref t = Some ref \<and>
                                    uapi_pricing_info_ref t = Some key) tks
            in \<lparr>pp_uapi_passenger_ref = ref,
                isTicketed = (ticket \<noteq> None),
                pp_ticketNumber = (case ticket of None \<Rightarrow> None | Some t \<Rightarrow> bt_number t)\<rparr>)
       (case pi_BookingTravelerRef pricingInfo of None \<Rightarrow> [] | Some rs \<Rightarrow> rs)"

definition pricingInfoOf ::
  "(string \<times> string option) list option \<Rightarrow> booking_ticket list \<Rightarrow> string \<times> pricing_info \<Rightarrow>
   ur_document error + (booking_pricing_info \<times> fare_quote_common)" where
  "pricingInfoOf ticketingModifiers tks entry =
     (case modifiersOf ticketingModifiers (snd entry) of
        None \<Rightarrow> Inl TypeError
      | Some modifiers \<Rightarrow>
          (case firstFareInfoOf (snd entry) of
             None \<Rightarrow> Inl TypeError
           | Some firstFareInfo \<Rightarrow>
               (case fareCalcOf (snd entry) of
                  None \<Rightarrow> Inl TypeError
                | Some fc \<Rightarrow>
                    Inr (\<lparr>bp_uapi_pricing_info_ref = fst entry,
                          bp_passengers = pricingInfoPassengers tks (fst entry) (snd entry),
                          uapi_pricing_info_group = AirPricingInfoGroup (snd entry),
                          bp_totalPrice = TotalPrice (snd entry),
                          bp_fareCalc = fc\<rparr>,
                         \<lparr>uapi_segment_refs =
                            (case BookingInfo (snd entry) of None \<Rightarrow> [] | Some bs \<Rightarrow> bs),
                          effectiveDate =
                            (case firstFareInfo of None \<Rightarrow> None | Some f \<Rightarrow> EffectiveDate f),
                          endorsement =
                            (case firstFareInfo of
                               None \<Rightarrow> None
                             | Some f \<Rightarrow>
                                 (case Endorsement f of
                                    None \<Rightarrow> None | Some es \<Rightarrow> Some (joinSpace es))),
                          tourCode =
                            (case firstFareInfo of
                               None \<Rightarrow> None
                             | Some f \<Rightarrow> if truthy (TourCode f) then TourCode f else None),
                          platingCarrier =
                            (case modifiers of
                               None \<Rightarrow> None
                             | Some carrier \<Rightarrow> if truthy carrier then carrier else None)\<rparr>))))"

text \<open>
  The loop itself: the pricing infos in the order of the keys, and \<^verbatim>\<open>fareQuotesCommon\<close>
  as the assignments leave it. The first error ends the loop.
\<close>

fun pricingInfosFrom ::
  "(string \<times> string option) list option \<Rightarrow> booking_ticket list \<Rightarrow>
   (string \<times> fare_quote_common) list \<Rightarrow> (string \<times> pricing_info) list \<Rightarrow>
   ur_document error + (booking_pricing_info list \<times> (string \<times> fare_quote_common) list)" where
  "pricingInfosFrom ticketingModifiers tks fareQuotesCommon [] = Inr ([], fareQuotesCommon)"
| "pricingInfosFrom ticketingModifiers tks fareQuotesCommon (entry # entries) =
     (case pricingInfoOf ticketingModifiers tks entry of
        Inl e \<Rightarrow> Inl e
      | Inr pc \<Rightarrow>
          (case pricingInfosFrom ticketingModifiers tks
                  (AList.update (propertyKey (AirPricingInfoGroup (snd entry))) (snd pc)
                     fareQuotesCommon)
                  entries of
             Inl e \<Rightarrow> Inl e
           | Inr rest \<Rightarrow> Inr (fst pc # fst rest, snd rest)))"

text \<open>\<^verbatim>\<open>fareQuotesGrouped\<close> (lines 1146-1149).\<close>

definition fareQuotesGrouped ::
  "booking_pricing_info list \<Rightarrow> (string \<times> booking_pricing_info list) list" where
  "fareQuotesGrouped infos =
     foldl (\<lambda>acc pricingInfo.
              AList.update (propertyKey (uapi_pricing_info_group pricingInfo))
                ((case map_of acc (propertyKey (uapi_pricing_info_group pricingInfo)) of
                    None \<Rightarrow> [] | Some g \<Rightarrow> g) @ [pricingInfo])
                acc)
       [] infos"

text \<open>
  \<^verbatim>\<open>moment(fq1.effectiveDate) - moment(fq2.effectiveDate)\<close>. The library \<^verbatim>\<open>moment\<close>
  is a parameter: the time stamp it parses from the date, \<open>None\<close> when the date is not
  valid (the difference is \<^verbatim>\<open>NaN\<close> then).
\<close>

definition fqEffectiveDate :: "'a fare_quote_group_scheme \<Rightarrow> string option" where
  "fqEffectiveDate fq = (case common fq of None \<Rightarrow> None | Some c \<Rightarrow> effectiveDate c)"

definition compareEffectiveDate ::
  "(string option \<Rightarrow> int option) \<Rightarrow> fare_quote_group \<Rightarrow> fare_quote_group \<Rightarrow> int option" where
  "compareEffectiveDate moment fq1 fq2 =
     (case moment (fqEffectiveDate fq1) of
        None \<Rightarrow> None
      | Some t1 \<Rightarrow> (case moment (fqEffectiveDate fq2) of None \<Rightarrow> None | Some t2 \<Rightarrow> Some (t1 - t2)))"

text \<open>\<^verbatim>\<open>fareQuotes\<close> (lines 1151-1169).\<close>

definition fareQuoteGroups ::
  "(string \<times> fare_quote_common) list \<Rightarrow> booking_pricing_info list \<Rightarrow> fare_quote_group list" where
  "fareQuoteGroups fareQuotesCommon infos =
     map (\<lambda>entry.
            \<lparr>pricingInfos = snd entry,
             uapi_passenger_refs =
               concat (map (\<lambda>fq. map pp_uapi_passenger_ref (bp_passengers fq)) (snd entry)),
             common = map_of fareQuotesCommon (fst entry)\<rparr>)
       (objectEntries (fareQuotesGrouped infos))"

definition withIndex :: "fare_quote_group list \<Rightarrow> fare_quote list" where
  "withIndex fqs =
     map (\<lambda>p. \<lparr>pricingInfos = pricingInfos (fst p),
               uapi_passenger_refs = uapi_passenger_refs (fst p),
               common = common (fst p),
               index = snd p + 1\<rparr>)
       (zip fqs [0 ..< length fqs])"

definition fareQuotesOf ::
  "(string option \<Rightarrow> int option) \<Rightarrow> (string \<times> fare_quote_common) list \<Rightarrow>
   booking_pricing_info list \<Rightarrow> fare_quote list" where
  "fareQuotesOf moment fareQuotesCommon infos =
     withIndex (sortBy (compareEffectiveDate moment) (fareQuoteGroups fareQuotesCommon infos))"

text \<open>
  The body of the loop over \<^verbatim>\<open>record['air:AirReservation']\<close> (lines 926-1193) for one
  air reservation. \<^verbatim>\<open>providerInfo.Key\<close> is read at line 931, before the test
  \<^verbatim>\<open>if (!providerInfo)\<close> of line 953. Remarks and split bookings, passive
  reservations, emails, segments and service segments are left out.
\<close>

definition bookingOf ::
  "(string option \<Rightarrow> int option) \<Rightarrow> universal_record \<Rightarrow> air_reservation \<Rightarrow>
   ur_document error + booking" where
  "bookingOf moment record booking =
     (case ProviderReservationInfo record of
        None \<Rightarrow> Inl TypeError
      | Some reservationInfo \<Rightarrow>
          let providerInfo = map_of reservationInfo (propertyKey (ProviderReservationInfoRef booking))
          in
            (case providerInfo of
               None \<Rightarrow> Inl TypeError
             | Some info \<Rightarrow>
                 if providerInfo = None
                 then Inl (AirParsingError ReservationProviderInfoMissing)
                 else
                   (case BookingTravelerRef booking of
                      None \<Rightarrow> Inl TypeError
                    | Some refs \<Rightarrow>
                        (case allInr
                                (map (\<lambda>travellerRef.
                                        case BookingTraveler record of
                                          None \<Rightarrow> Inl TypeError
                                        | Some travelers \<Rightarrow>
                                            (case map_of travelers travellerRef of
                                               None \<Rightarrow> Inl (AirRuntimeError TravelersListError NoPayload)
                                             | Some traveler \<Rightarrow> Inr traveler))
                                   refs) of
                           Inl e \<Rightarrow> Inl e
                         | Inr passengers \<Rightarrow>
                             (case pricingInfosFrom (TicketingModifiers booking) (bookingTickets booking) []
                                     (case ar_AirPricingInfo booking of None \<Rightarrow> [] | Some infos \<Rightarrow> infos) of
                                Inl e \<Rightarrow> Inl e
                              | Inr r \<Rightarrow>
                                  Inr \<lparr>b_pnr = prov_LocatorCode info,
                                       b_uapi_ur_locator = ur_LocatorCode record,
                                       b_uapi_reservation_locator = LocatorCode booking,
                                       fareQuotes = fareQuotesOf moment (snd r) (fst r),
                                       b_passengers = passengers,
                                       b_tickets = bookingTickets booking,
                                       bookingPCC = OwningPCC info\<rparr>)))))"

text \<open>\<^verbatim>\<open>extractBookings\<close> (lines 853-1194).\<close>

definition extractBookings ::
  "(string option \<Rightarrow> int option) \<Rightarrow> ur_document \<Rightarrow> ur_document error + booking list" where
  "extractBookings moment obj =
     (let messages = (case ur_ResponseMessage obj of None \<Rightarrow> [] | Some ms \<Rightarrow> ms) in
      case checkMessages obj messages messages of
        Some e \<Rightarrow> Inl e
      | None \<Rightarrow>
          if AirSegmentSellFailureInfo obj then Inl (AirRuntimeError SegmentBookingFailed (Source obj))
          else
            (case UniversalRecord obj of
               None \<Rightarrow> Inl TypeError
             | Some record \<Rightarrow>
                 let hasTravelers = (case BookingTraveler record of None \<Rightarrow> False | Some ts \<Rightarrow> ts \<noteq> []);
                     hasAirReservation = (case AirReservation record of None \<Rightarrow> False | Some rs \<Rightarrow> rs \<noteq> [])
                 in
                   if \<not> hasTravelers \<and> \<not> hasAirReservation
                   then Inl (AirParsingError ReservationsMissing)
                   else if \<not> hasAirReservation then
                     (case ProviderReservationInfo record of
                        None \<Rightarrow> Inl TypeError
                      | Some reservationInfo \<Rightarrow>
                          Inr (map (\<lambda>entry.
                                      \<lparr>b_pnr = prov_LocatorCode (snd entry),
                                       b_uapi_ur_locator = ur_LocatorCode record,
                                       b_uapi_reservation_locator = None,
                                       fareQuotes = [],
                                       b_passengers =
                                         (case BookingTraveler record of
                                            None \<Rightarrow> [] | Some ts \<Rightarrow> map snd ts),
                                       b_tickets = [],
                                       bookingPCC = OwningPCC (snd entry)\<rparr>)
                                 reservationInfo))
                   else
                     allInr (map (bookingOf moment record)
                               (case AirReservation record of None \<Rightarrow> [] | Some rs \<Rightarrow> rs))))"

subsection \<open>Notions for stating the order and grouping of fare quotes\<close>

text \<open>
  The key a pricing info is grouped by, of a returned pricing info and of an entry of
  \<^verbatim>\<open>air:AirPricingInfo\<close>; the key of a fare quote, which is that of its first pricing
  info; the entries of \<^verbatim>\<open>air:AirPricingInfo\<close> of an air reservation; the effective date
  of the first fare component of a pricing info; the provider info an air reservation
  refers to.
\<close>

definition pricingInfoKey :: "booking_pricing_info \<Rightarrow> string" where
  "pricingInfoKey p = propertyKey (uapi_pricing_info_group p)"

definition entryKey :: "string \<times> pricing_info \<Rightarrow> string" where
  "entryKey e = propertyKey (AirPricingInfoGroup (snd e))"

definition groupKey :: "'a fare_quote_group_scheme \<Rightarrow> string" where
  "groupKey fq = pricingInfoKey (hd (pricingInfos fq))"

definition entriesOf :: "air_reservation \<Rightarrow> (string \<times> pricing_info) list" where
  "entriesOf booking = (case ar_AirPricingInfo booking of None \<Rightarrow> [] | Some infos \<Rightarrow> infos)"

definition firstComponentDate :: "pricing_info \<Rightarrow> string option" where
  "firstComponentDate info =
     (case FareInfo info of
        None \<Rightarrow> None
      | Some fareInfo \<Rightarrow>
          (case firstInObj fareInfo of None \<Rightarrow> None | Some firstFareInfo \<Rightarrow> EffectiveDate firstFareInfo))"

definition providerInfoOf :: "universal_record \<Rightarrow> air_reservation \<Rightarrow> provider_info option" where
  "providerInfoOf record booking =
     (case ProviderReservationInfo record of
        None \<Rightarrow> None
      | Some reservationInfo \<Rightarrow>
          map_of reservationInfo (propertyKey (ProviderReservationInfoRef booking)))"

text \<open>
  A list of fare quotes is in ascending order of the parsed effective date: every date
  parses, and the dates do not decrease along the list.
\<close>

definition dateOf :: "(string option \<Rightarrow> int option) \<Rightarrow> 'a fare_quote_group_scheme \<Rightarrow> int option" where
  "dateOf moment fq = moment (fqEffectiveDate fq)"

definition ascending :: "(string option \<Rightarrow> int option) \<Rightarrow> 'a fare_quote_group_scheme list \<Rightarrow> bool" where
  "ascending moment fqs =
     sorted_wrt (\<lambda>a b. \<exists>t1 t2. dateOf moment a = Some t1 \<and> dateOf moment b = Some t2 \<and> t1 \<le> t2) fqs"

text \<open>
  The codes \<^verbatim>\<open>AirErrorHandler\<close> has a case for. A fault's structured code is unresolved
  when the \<^verbatim>\<open>try\<close> block fails or the code is none of these.
\<close>

definition recognizedCodes :: "string list" where
  "recognizedCodes =
     [''20'', ''345'', ''1512'', ''6207'', ''6119'', ''4454'', ''12009'', ''13003'', ''3003'',
      ''3000'', ''2602'', ''3037'']"

definition codeUnresolved :: "document \<Rightarrow> bool" where
  "codeUnresolved rsp =
     (case errorInfoOf rsp of
        None \<Rightarrow> True
      | Some errorInfo \<Rightarrow>
          (case ei_Code errorInfo of None \<Rightarrow> True | Some c \<Rightarrow> c \<notin> set recognizedCodes))"

subsection \<open>The ticketing machine\<close>

text \<open>
  Modelled from the spec: the ticketing machine of the workflow orchestrator (section
  4.3 of the specification). The module that implements it (\<^verbatim>\<open>Air.js\<close>) is not among
  the sources; its tests are (the \<^verbatim>\<open>ticket\<close> tests of the \<^verbatim>\<open>AirService\<close> test
  file), and where they speak the model follows them. The ticket-issue collaborator is a
  function from the number of the call (from 0) to its outcome: issued, or rejected with
  \<^verbatim>\<open>TicketingFoidRequired\<close>, with \<^verbatim>\<open>TicketingPNRBusy\<close>, or with another failure,
  given by its name. The state counts the calls to the collaborators (the fetch of the
  booking at entry, ticket issue, FOID, the re-fetches of the booking after entry) and
  the retries of each kind. Fetching the booking and applying FOID succeed.
\<close>

datatype ticket_failure = TicketingFoidRequired | TicketingPNRBusy | OtherFailure string

datatype ticket_outcome = Issued | Rejected ticket_failure

datatype machine_error = CouldNotRetrieveCurrency | TicketFailure ticket_failure

datatype machine_result = Done | Failed machine_error

record ticketing_state =
  currencyFetches :: nat
  ticketCalls :: nat
  foidCalls :: nat
  bookingRefetches :: nat
  foidRetries :: nat
  busyRetries :: nat

text \<open>
  The calls of \<^verbatim>\<open>getUniversalRecordByPNR\<close>, which is what the tests count: the fetch
  at entry and the re-fetches.
\<close>

definition bookingFetches :: "ticketing_state \<Rightarrow> nat" where
  "bookingFetches s = currencyFetches s + bookingRefetches s"

text \<open>
  Modelled from the spec: the currency at entry, ``from the first booking's first
  fare-quote's first pricing-info total price (a 3-letter prefix)''; \<open>None\<close> when it is
  absent or malformed.
\<close>

definition currencyOf :: "booking list \<Rightarrow> string option" where
  "currencyOf bookings =
     (case bookings of
        [] \<Rightarrow> None
      | b # _ \<Rightarrow>
          (case fareQuotes b of
             [] \<Rightarrow> None
           | fq # _ \<Rightarrow>
               (case pricingInfos fq of
                  [] \<Rightarrow> None
                | p # _ \<Rightarrow>
                    (case bp_totalPrice p of
                       None \<Rightarrow> None
                     | Some price \<Rightarrow>
                         if length (take 3 price) = 3 \<and> list_all isLetter (take 3 price)
                         then Some (take 3 price) else None))))"

text \<open>
  Modelled from the spec: the states Ticket, ApplyFoid and RefetchBooking. ``On
  \<^verbatim>\<open>TicketingFoidRequired\<close>, apply FOID (once) and re-issue. Any other failure
  propagates unchanged. At most one retry per failure kind per invocation.'' After FOID
  is applied the booking is fetched again (``ApplyFoid, RefetchBooking, Ticket''): the
  test \<^emph>\<open>should resolve foid and reticket\<close> expects two calls of
  \<^verbatim>\<open>getUniversalRecordByPNR\<close>, two of ticket issue and one of FOID. On
  \<^verbatim>\<open>TicketingPNRBusy\<close> ticket issue is called again; the sentence of the specification
  that the booking is fetched again for it is not followed, because the tests contradict
  it: \<^emph>\<open>should retry ticketing if PNR busy\<close> (a rejection with
  \<^verbatim>\<open>TicketingPNRBusy\<close>, then success) expects one call of
  \<^verbatim>\<open>getUniversalRecordByPNR\<close> and two of ticket issue, and
  \<^emph>\<open>should set FOID and retry ticketing if PNR busy\<close> expects two calls of
  \<^verbatim>\<open>getUniversalRecordByPNR\<close>, one of FOID and three of ticket issue.
\<close>

function ticketLoop ::
  "(nat \<Rightarrow> ticket_outcome) \<Rightarrow> ticketing_state \<Rightarrow> ticket_failure option \<times> ticketing_state" where
  "ticketLoop ticket s =
     (case ticket (ticketCalls s) of
        Issued \<Rightarrow> (None, s\<lparr>ticketCalls := ticketCalls s + 1\<rparr>)
      | Rejected failure \<Rightarrow>
          if failure = TicketingFoidRequired \<and> foidRetries s = 0 then
            ticketLoop ticket
              (s\<lparr>ticketCalls := ticketCalls s + 1, foidCalls := foidCalls s + 1,
                 bookingRefetches := bookingRefetches s + 1, foidRetries := 1\<rparr>)
          else if failure = TicketingPNRBusy \<and> busyRetries s = 0 then
            ticketLoop ticket (s\<lparr>ticketCalls := ticketCalls s + 1, busyRetries := 1\<rparr>)
          else (Some failure, s\<lparr>ticketCalls := ticketCalls s + 1\<rparr>))"
  by pat_completeness auto
termination
  by (relation "measure (\<lambda>(ticket, s). (if foidRetries s = 0 then 1 else 0) + (if busyRetries s = 0 then 1 else 0))")
     auto

text \<open>
  The state after the fetch at entry with the given numbers of ticket-issue calls, FOID
  calls, re-fetches, FOID retries and busy retries.
\<close>

definition machineState :: "nat \<Rightarrow> nat \<Rightarrow> nat \<Rightarrow> nat \<Rightarrow> nat \<Rightarrow> ticketing_state" where
  "machineState t f r fr br = \<lparr>currencyFetches = 1, ticketCalls = t, foidCalls = f, bookingRefetches = r,
      foidRetries = fr, busyRetries = br\<rparr>"

text \<open>
  Modelled from the spec: the machine from its entry (FetchCurrency, which ``fails with
  \<^verbatim>\<open>CouldNotRetrieveCurrency\<close>'') to Done or Failed.
\<close>

definition initialState :: ticketing_state where
  "initialState =
     \<lparr>currencyFetches = 1, ticketCalls = 0, foidCalls = 0, bookingRefetches = 0,
      foidRetries = 0, busyRetries = 0\<rparr>"

definition ticketMachine ::
  "booking list \<Rightarrow> (nat \<Rightarrow> ticket_outcome) \<Rightarrow> machine_result \<times> ticketing_state" where
  "ticketMachine bookings ticket =
     (case currencyOf bookings of
        None \<Rightarrow> (Failed CouldNotRetrieveCurrency, initialState)
      | Some currency \<Rightarrow>
          (case ticketLoop ticket initialState of
             (None, s) \<Rightarrow> (Done, s)
           | (Some failure, s) \<Rightarrow> (Failed (TicketFailure failure), s)))"

text \<open>
  Ticket-issue collaborators: the outcomes of the first calls as listed, every later call
  issues. One is busy, then asks for FOID, then issues.
\<close>

definition outcomes :: "ticket_outcome list \<Rightarrow> nat \<Rightarrow> ticket_outcome" where
  "outcomes os n = (if n < length os then os ! n else Issued)"

definition busyThenFoid :: "nat \<Rightarrow> ticket_outcome" where
  "busyThenFoid = outcomes [Rejected TicketingPNRBusy, Rejected TicketingFoidRequired]"

subsection \<open>Example documents\<close>

text \<open>
  \<^verbatim>\<open>toUpperCase\<close> on strings of ASCII characters, and a PCC extractor that takes the
  last word of a message that has the words \<^verbatim>\<open>PCC\<close> or \<^verbatim>\<open>with\<close> before it.
\<close>

definition asciiUpperCase :: "string \<Rightarrow> string" where
  "asciiUpperCase s = map canonicalize s"

definition lastWord :: "string \<Rightarrow> string" where
  "lastWord s = rev (takeWhile (\<lambda>c. \<not> isSpace c) (rev s))"

definition exampleErrorPcc :: "string option \<Rightarrow> string option" where
  "exampleErrorPcc message =
     (case message of
        None \<Rightarrow> None
      | Some s \<Rightarrow> if regexTestI ''AGREEMENT'' s \<and> lastWord s \<noteq> [] then Some (lastWord s) else None)"

definition emptyDocument :: document where
  "emptyDocument =
     \<lparr>faultcode = None, faultstring = None, fault_detail = None, ResponseMessage = None,
      DocumentFailureInfo = None, ETR = None, UniversalRecordLocatorCode = None\<rparr>"

text \<open>
  A fault whose document-failure block has the empty message, and one that has a
  response message only.
\<close>

definition emptyFailureDocument :: document where
  "emptyFailureDocument =
     emptyDocument\<lparr>DocumentFailureInfo := Some \<lparr>fi_Code = Some ''3000'', fi_Message = Some ''''\<rparr>\<rparr>"

definition exampleMessageDocument :: document where
  "exampleMessageDocument =
     emptyDocument
       \<lparr>ResponseMessage :=
          Some [\<lparr>rm_text = Some ''Record is accessed by another transaction'', rm_Type = Some ''Error'',
                 rm_Code = None\<rparr>]\<rparr>"

definition faultWith :: "string option \<Rightarrow> string \<Rightarrow> string option list option \<Rightarrow> document" where
  "faultWith code message segmentErrors =
     emptyDocument
       \<lparr>faultcode := Some ''Server.Business'',
        faultstring := Some message,
        fault_detail := Some \<lparr>ErrorInfo = Some \<lparr>ei_Code = code, ei_Description = None,
                                 ei_AirSegmentError = segmentErrors\<rparr>,
                               AvailabilityErrorInfo = None\<rparr>\<rparr>"

text \<open>
  For stating what the coupons of the returned tickets are: the coupons of one ticket as
  they stand in \<open>allCoupons\<close>, and the coupon at a position of \<open>allCoupons\<close> with the
  \<^verbatim>\<open>stopover\<close> of the position after it.
\<close>

definition segOf :: "ticket \<Rightarrow> coupon_info list" where
  "segOf t = map (couponInfo t) (Coupon t)"

definition withNextStopover :: "coupon_info list \<Rightarrow> nat \<Rightarrow> coupon_info" where
  "withNextStopover all i =
     (all ! i)\<lparr>c_stopover := (if i + 1 < length all then c_stopover (all ! (i + 1)) else True)\<rparr>"

text \<open>
  The ETRs of a ticket document and the tickets \<^verbatim>\<open>airGetTicket\<close> returns for it; the
  coupons of an ETR, over all its tickets in order, and the coupons of a returned
  ticket record, likewise.
\<close>

definition etrsOf :: "document \<Rightarrow> etr list" where
  "etrsOf obj =
     (case ETR obj of
        None \<Rightarrow> []
      | Some (SingleETR etr) \<Rightarrow> [etr]
      | Some (MultipleETR etrs) \<Rightarrow> map snd etrs)"

definition ticketsOf :: "tickets_result \<Rightarrow> ticket_data list" where
  "ticketsOf res = (case res of OneTicket t \<Rightarrow> [t] | TicketList ts \<Rightarrow> ts)"

definition rawCoupons :: "etr \<Rightarrow> (string \<times> coupon) list" where
  "rawCoupons etr = concat (map (\<lambda>kt. Coupon (snd kt)) (Ticket etr))"

definition returnedCoupons :: "ticket_data \<Rightarrow> coupon_info list" where
  "returnedCoupons td = concat (map t_coupons (tickets td))"

definition exampleCoupon :: "string \<Rightarrow> string \<Rightarrow> coupon" where
  "exampleCoupon n stop =
     \<lparr>CouponNumber = Some n, Origin = None, Destination = None, DepartureTime = None,
      Status = Some ''O'', BookingClass = None, StopoverCode = Some stop\<rparr>"

definition exampleEtr :: etr where
  "exampleEtr =
     \<lparr>ProviderLocatorCode = Some ''ABC123'', AirReservationLocatorCode = None,
      FareCalc = Some ''IEV PS NYC 10.00NUC10.00END ROE1.0'', AirPricingInfo = None,
      Ticket =
        [(''t1'', \<lparr>TicketNumber = Some ''0641234567890'',
                   Coupon = [(''k1'', exampleCoupon ''1'' ''true''),
                             (''k2'', exampleCoupon ''2'' ''false'')],
                   ExchangedTicketInfo = None\<rparr>),
         (''t2'', \<lparr>TicketNumber = Some ''0641234567891'',
                   Coupon = [(''k3'', exampleCoupon ''3'' ''true'')],
                   ExchangedTicketInfo = None\<rparr>)]\<rparr>"

definition exampleTicketDocument :: document where
  "exampleTicketDocument = emptyDocument\<lparr>ETR := Some (SingleETR exampleEtr)\<rparr>"

text \<open>
  A universal record with one air reservation that refers to the provider info \<open>ref\<close>
  and has three pricing infos, two of them in group 1; and a \<^verbatim>\<open>moment\<close> that knows the
  three dates (and takes an absent date for the current time).
\<close>

definition examplePricingInfo :: "string \<Rightarrow> string \<Rightarrow> pricing_info" where
  "examplePricingInfo g date =
     \<lparr>AirPricingInfoGroup = Some g, BookingInfo = Some [Some ''S1''],
      pi_BookingTravelerRef = Some [''T1''],
      FareInfo = Some [(''F1'', \<lparr>EffectiveDate = Some date, TourCode = None, Endorsement = None\<rparr>)],
      TicketingModifiersRef = None,
      pi_FareCalc = Some ''IEV PS NYC 10.00NUC10.00END ROE1.0'',
      TotalPrice = Some ''UAH10''\<rparr>"

definition exampleReservation :: "string \<Rightarrow> air_reservation" where
  "exampleReservation ref =
     \<lparr>ProviderReservationInfoRef = Some ref, LocatorCode = Some ''ABCDEF'',
      BookingTravelerRef = Some [''T1''], TicketingModifiers = None, TicketInfo = None,
      ar_AirPricingInfo =
        Some [(''P1'', examplePricingInfo ''1'' ''2020-01-05T00:00:00.000+00:00''),
              (''P2'', examplePricingInfo ''1'' ''2020-01-01T00:00:00.000+00:00''),
              (''P3'', examplePricingInfo ''2'' ''2020-01-03T00:00:00.000+00:00'')]\<rparr>"

definition exampleRecord :: "string \<Rightarrow> ur_document" where
  "exampleRecord ref =
     \<lparr>UniversalRecord =
        Some \<lparr>ur_LocatorCode = Some ''UR0001'', BookingTraveler = Some [(''T1'', ''DOE/JOHN'')],
              AirReservation = Some [exampleReservation ref],
              ProviderReservationInfo =
                Some [(''PRI1'', \<lparr>Key = Some ''PRI1'', prov_LocatorCode = Some ''PNR001'',
                                  OwningPCC = Some ''X1Z''\<rparr>)]\<rparr>,
      ur_ResponseMessage = None, AirSegmentSellFailureInfo = False\<rparr>"

definition exampleMoment :: "string option \<Rightarrow> int option" where
  "exampleMoment d =
     (case d of
        None \<Rightarrow> Some 1700000000000
      | Some s \<Rightarrow>
          map_of [(''2020-01-01T00:00:00.000+00:00'', 1577836800000),
                  (''2020-01-03T00:00:00.000+00:00'', 1578009600000),
                  (''2020-01-05T00:00:00.000+00:00'', 1578182400000)] s)"

text \<open>A fare-quote group that has nothing but an effective date.\<close>

definition quoteEffective :: "string \<Rightarrow> fare_quote_group" where
  "quoteEffective date =
     \<lparr>pricingInfos = [], uapi_passenger_refs = [],
      common = Some \<lparr>uapi_segment_refs = [], effectiveDate = Some date, endorsement = None,
                     tourCode = None, platingCarrier = None\<rparr>\<rparr>"






section \<open>Properties\<close>

subsection \<open>Histogram\<close>

lemma countRuns_sorted:
  fixes p :: "'a::linorder"
  assumes "sorted (p # ys)" and "a p = Some (Count n)"
  shows "countRuns a (Some p) ys c =
     (if c \<in> set ys then Some (Count (count_list ys c + (if c = p then n else 0))) else a c)"
  using assms
proof (induction ys arbitrary: a p n)
  case Nil
  then show ?case by simp
next
  case (Cons y ys)
  show ?case
  proof (cases "y = p")
    case True
    with Cons.prems have s: "sorted (p # ys)" by simp
    let ?a = "a(p \<mapsto> Count (n + 1))"
    have "countRuns ?a (Some p) ys c =
      (if c \<in> set ys then Some (Count (count_list ys c + (if c = p then n + 1 else 0))) else ?a c)"
      by (rule Cons.IH[OF s]) simp
    with True Cons.prems show ?thesis by auto
  next
    case False
    with Cons.prems have s: "sorted (y # ys)" and lt: "p < y" by auto
    let ?a = "a(y \<mapsto> Count 1)"
    have ih: "countRuns ?a (Some y) ys c =
      (if c \<in> set ys then Some (Count (count_list ys c + (if c = y then 1 else 0))) else ?a c)"
      by (rule Cons.IH[OF s]) simp
    have "p \<notin> set ys" using s lt by auto
    with ih False show ?thesis by auto
  qed
qed

lemma countRuns_sorted_start:
  fixes ys :: "'a::linorder list"
  assumes "sorted ys"
  shows "countRuns Map.empty None ys c =
     (if c \<in> set ys then Some (Count (count_list ys c)) else None)"
proof (cases ys)
  case Nil
  then show ?thesis by simp
next
  case (Cons y ys')
  have "countRuns [y \<mapsto> Count 1] (Some y) ys' c =
      (if c \<in> set ys' then Some (Count (count_list ys' c + (if c = y then 1 else 0)))
       else [y \<mapsto> Count 1] c)"
    by (rule countRuns_sorted) (use assms Cons in simp_all)
  with Cons show ?thesis by auto
qed

lemma count_list_insort: "count_list (insort x xs) c = count_list (x # xs) c"
  by (induction xs) auto

lemma count_list_sort: "count_list (sort xs) c = count_list xs c"
  by (induction xs) (simp_all add: count_list_insort)

lemma countRuns_sort:
  fixes xs :: "'a::linorder list"
  shows "countRuns Map.empty None (sort xs) =
     (\<lambda>c. if c \<in> set xs then Some (Count (count_list xs c)) else None)"
  by (rule ext) (simp add: countRuns_sorted_start count_list_sort)

lemma countHistogram_example_map:
  "(\<lambda>c. if c \<in> set [''A'', ''B'', ''A'', ''A'', ''B'']
        then Some (Count (count_list [''A'', ''B'', ''A'', ''A'', ''B''] c)) else None) =
   [''A'' \<mapsto> Count 3, ''B'' \<mapsto> Count 2]"
  by (rule ext) simp

text \<open>
  C2. \<^verbatim>\<open>countHistogram\<close> fails with \<^verbatim>\<open>HistogramTypeInvalid\<close> on an argument that is
  not an array. On an array of passenger-type codes, or of objects carrying a
  \<^verbatim>\<open>Code\<close>, it sorts the codes and counts the runs of equal neighbours: the result maps
  each code that occurs to the number of its occurrences and has no other key. The input
  \<^verbatim>\<open>[A, B, A, A, B]\<close> yields \<^verbatim>\<open>{A: 3, B: 2}\<close>.
\<close>

theorem countHistogram_counts:
  "countHistogram NotArray = Inl HistogramTypeInvalid \<and>
   map_sum id fst (countHistogram (CodeArray xs)) =
     Inr (\<lambda>c. if c \<in> set xs then Some (Count (count_list xs c)) else None) \<and>
   map_sum id fst (countHistogram (ObjectArray xs)) =
     Inr (\<lambda>c. if c \<in> set xs then Some (Count (count_list xs c)) else None) \<and>
   map_sum id fst (countHistogram (CodeArray xs)) =
     Inr (countRuns Map.empty None (sort xs)) \<and>
   map_sum id fst (countHistogram (CodeArray [''A'', ''B'', ''A'', ''A'', ''B''])) =
     Inr [''A'' \<mapsto> Count 3, ''B'' \<mapsto> Count 2] \<and>
   map_sum id fst (countHistogram (ObjectArray [''A'', ''B'', ''A'', ''A'', ''B''])) =
     Inr [''A'' \<mapsto> Count 3, ''B'' \<mapsto> Count 2]"
  unfolding countHistogram_def
  by (simp only: hist_arg.case map_sum.simps id_apply fst_conv countRuns_sort
      countHistogram_example_map simp_thms)

text \<open>
  What \<^verbatim>\<open>countHistogram\<close> does to its argument: an array of plain codes is sorted in
  place, so the caller's list \<^verbatim>\<open>['CNN', 'ADT']\<close> is \<^verbatim>\<open>['ADT', 'CNN']\<close> after the
  call; it holds the same codes as before and is unchanged exactly when it was sorted
  already. An array of objects is left as it was: the codes are first mapped into a
  fresh array.
\<close>

lemma countHistogram_sorts_argument:
  "map_sum id snd (countHistogram (CodeArray [''CNN'', ''ADT''])) =
     Inr (CodeArray [''ADT'', ''CNN''])"
  by (simp add: countHistogram_def)

lemma countHistogram_effect_on_argument:
  "map_sum id snd (countHistogram (ObjectArray xs)) = Inr (ObjectArray xs) \<and>
   map_sum id snd (countHistogram (CodeArray xs)) = Inr (CodeArray (sort xs)) \<and>
   sorted (sort xs) \<and>
   (\<forall>c. count_list (sort xs) c = count_list xs c) \<and>
   (CodeArray (sort xs) = CodeArray xs \<longleftrightarrow> sorted xs)"
proof -
  have "sort xs = xs \<longleftrightarrow> sorted xs"
    by (metis sorted_sort sorted_sort_id)
  then show ?thesis
    by (simp add: countHistogram_def count_list_sort)
qed

subsection \<open>Fare-calculation lines\<close>

lemma startsWith_iff: "startsWith p s \<longleftrightarrow> (\<exists>r. s = p @ r)"
proof
  assume "startsWith p s"
  then have "s = p @ drop (length p) s"
    unfolding startsWith_def by (metis append_take_drop_id)
  then show "\<exists>r. s = p @ r" ..
next
  assume "\<exists>r. s = p @ r"
  then show "startsWith p s" by (auto simp: startsWith_def)
qed

lemma matchEND_iff:
  "matchEND t \<longleftrightarrow> (\<exists>rest. t = ''END'' @ rest \<and> (rest = [] \<or> isSpace (hd rest)))"
proof
  assume m: "matchEND t"
  then obtain r where r: "t = ''END'' @ r" by (auto simp: matchEND_def startsWith_iff)
  with m have "r = [] \<or> isSpace (hd r)"
    by (auto simp: matchEND_def split: list.splits)
  with r show "\<exists>rest. t = ''END'' @ rest \<and> (rest = [] \<or> isSpace (hd rest))" by blast
next
  assume "\<exists>rest. t = ''END'' @ rest \<and> (rest = [] \<or> isSpace (hd rest))"
  then obtain r where r: "t = ''END'' @ r" "r = [] \<or> isSpace (hd r)" by blast
  have "startsWith ''END'' t" using r(1) startsWith_iff by blast
  with r show "matchEND t"
    by (auto simp: matchEND_def split: list.splits)
qed

lemma lastMatch_None_iff:
  "lastMatch n s = None \<longleftrightarrow> (\<forall>j. 1 \<le> j \<and> j \<le> n \<longrightarrow> \<not> matchEND (drop j s))"
proof (induction n)
  case 0
  then show ?case by simp
next
  case (Suc n)
  show ?case
  proof (cases "matchEND (drop (Suc n) s)")
    case True
    then show ?thesis by auto
  next
    case False
    have "(\<forall>j. 1 \<le> j \<and> j \<le> Suc n \<longrightarrow> \<not> matchEND (drop j s)) \<longleftrightarrow>
          (\<forall>j. 1 \<le> j \<and> j \<le> n \<longrightarrow> \<not> matchEND (drop j s))"
      using False by (metis le_Suc_eq)
    with False Suc show ?thesis by simp
  qed
qed

lemma lastMatch_Some:
  assumes "lastMatch n s = Some c"
  shows "\<exists>i. 1 \<le> i \<and> i \<le> n \<and> c = take i s \<and> matchEND (drop i s) \<and>
             (\<forall>j. i < j \<and> j \<le> n \<longrightarrow> \<not> matchEND (drop j s))"
  using assms
proof (induction n)
  case 0
  then show ?case by simp
next
  case (Suc n)
  show ?case
  proof (cases "matchEND (drop (Suc n) s)")
    case True
    with Suc.prems have "c = take (Suc n) s" by simp
    with True show ?thesis by (intro exI[of _ "Suc n"]) auto
  next
    case False
    with Suc.prems have "lastMatch n s = Some c" by simp
    from Suc.IH[OF this] obtain i where i: "1 \<le> i" "i \<le> n" "c = take i s" "matchEND (drop i s)"
      "\<forall>j. i < j \<and> j \<le> n \<longrightarrow> \<not> matchEND (drop j s)" by blast
    have "\<forall>j. i < j \<and> j \<le> Suc n \<longrightarrow> \<not> matchEND (drop j s)"
      using i(5) False by (metis le_Suc_eq)
    with i show ?thesis by (intro exI[of _ i]) auto
  qed
qed

lemma fareCalculationPattern_None_iff:
  "fareCalculationPattern str = None \<longleftrightarrow>
     \<not> (\<exists>content rest. content \<noteq> [] \<and> str = content @ ''END'' @ rest \<and>
           (rest = [] \<or> isSpace (hd rest)))"
proof
  assume n: "fareCalculationPattern str = None"
  show "\<not> (\<exists>content rest. content \<noteq> [] \<and> str = content @ ''END'' @ rest \<and>
           (rest = [] \<or> isSpace (hd rest)))"
  proof
    assume "\<exists>content rest. content \<noteq> [] \<and> str = content @ ''END'' @ rest \<and>
           (rest = [] \<or> isSpace (hd rest))"
    then obtain content rest where c: "content \<noteq> []" "str = content @ ''END'' @ rest"
      "rest = [] \<or> isSpace (hd rest)" by blast
    then have "matchEND (drop (length content) str)" by (auto simp: matchEND_iff)
    moreover have "1 \<le> length content" "length content \<le> length str"
      using c by (auto simp: Suc_le_eq)
    ultimately show False
      using n unfolding fareCalculationPattern_def lastMatch_None_iff by blast
  qed
next
  assume a: "\<not> (\<exists>content rest. content \<noteq> [] \<and> str = content @ ''END'' @ rest \<and>
           (rest = [] \<or> isSpace (hd rest)))"
  show "fareCalculationPattern str = None"
    unfolding fareCalculationPattern_def lastMatch_None_iff
  proof (intro allI impI)
    fix j assume j: "1 \<le> j \<and> j \<le> length str"
    show "\<not> matchEND (drop j str)"
    proof
      assume "matchEND (drop j str)"
      then obtain rest where r: "drop j str = ''END'' @ rest" "rest = [] \<or> isSpace (hd rest)"
        unfolding matchEND_iff by blast
      have "str = take j str @ ''END'' @ rest" using r(1) by (metis append_take_drop_id)
      moreover have "take j str \<noteq> []" using j by auto
      ultimately show False using a r(2) by blast
    qed
  qed
qed

lemma fareCalculationPattern_Some:
  assumes "fareCalculationPattern str = Some content"
  shows "content \<noteq> [] \<and> (\<exists>rest. str = content @ ''END'' @ rest \<and> (rest = [] \<or> isSpace (hd rest))) \<and>
         (\<forall>longer rest. length content < length longer \<and> str = longer @ ''END'' @ rest \<longrightarrow>
            rest \<noteq> [] \<and> \<not> isSpace (hd rest))"
proof -
  from lastMatch_Some[OF assms[unfolded fareCalculationPattern_def]]
  obtain i where i: "1 \<le> i" "i \<le> length str" "content = take i str" "matchEND (drop i str)"
    "\<forall>j. i < j \<and> j \<le> length str \<longrightarrow> \<not> matchEND (drop j str)" by blast
  from i(4) obtain rest where r: "drop i str = ''END'' @ rest" "rest = [] \<or> isSpace (hd rest)"
    unfolding matchEND_iff by blast
  have len: "length content = i" using i by simp
  have 1: "content \<noteq> []" using i by auto
  have 2: "str = content @ ''END'' @ rest" using r(1) i(3) by (metis append_take_drop_id)
  have 3: "rest' \<noteq> [] \<and> \<not> isSpace (hd rest')"
    if l: "length content < length longer" "str = longer @ ''END'' @ rest'" for longer rest'
  proof -
    have "\<not> matchEND (drop (length longer) str)"
      using i(5) l len by auto
    moreover have "drop (length longer) str = ''END'' @ rest'" using l(2) by simp
    ultimately show ?thesis unfolding matchEND_iff by auto
  qed
  from 1 2 3 r(2) show ?thesis by blast
qed

lemma matchSpacesParen_spaces:
  "\<forall>c\<in>set ws. isSpace c \<Longrightarrow> matchSpacesParen (ws @ CHR ''('' # post) = Some post"
  by (induction ws) (simp_all add: isSpace_def)

lemma matchSpacesParen_blocked:
  "CHR ''('' \<notin> set pre \<Longrightarrow> \<exists>c\<in>set pre. \<not> isSpace c \<Longrightarrow> matchSpacesParen (pre @ rest) = None"
  by (induction pre) auto

lemma matchSpacesParen_no_paren: "CHR ''('' \<notin> set s \<Longrightarrow> matchSpacesParen s = None"
  by (induction s) auto

lemma replaceSpacesParen_no_paren: "CHR ''('' \<notin> set s \<Longrightarrow> replaceSpacesParen s = s"
  by (induction s) (auto simp: matchSpacesParen_no_paren)

lemma replaceSpacesParen_decomp:
  assumes "CHR ''('' \<notin> set pre" and "pre = [] \<or> \<not> isSpace (last pre)"
    and "\<forall>c\<in>set ws. isSpace c"
  shows "replaceSpacesParen (pre @ ws @ CHR ''('' # post) = pre @ CHR ''.'' # post"
  using assms(1,2)
proof (induction pre)
  case Nil
  show ?case
  proof (cases ws)
    case Nil
    then show ?thesis by (simp add: isSpace_def)
  next
    case (Cons w ws')
    have "matchSpacesParen (ws @ CHR ''('' # post) = Some post"
      by (rule matchSpacesParen_spaces[OF assms(3)])
    with Cons show ?thesis by simp
  qed
next
  case (Cons p pre')
  have ns: "\<exists>c\<in>set (p # pre'). \<not> isSpace c"
    using Cons.prems(2) by (metis last_in_set list.distinct(1))
  have "matchSpacesParen ((p # pre') @ ws @ CHR ''('' # post) = None"
    by (rule matchSpacesParen_blocked[OF Cons.prems(1) ns])
  moreover have "pre' = [] \<or> \<not> isSpace (last pre')"
    using Cons.prems(2) by auto
  moreover have "CHR ''('' \<notin> set pre'" using Cons.prems(1) by simp
  ultimately show ?case using Cons.IH by simp
qed

lemma trimEnd_split:
  "\<exists>ws. s = trimEnd s @ ws \<and> (\<forall>c\<in>set ws. isSpace c) \<and>
        (trimEnd s = [] \<or> \<not> isSpace (last (trimEnd s)))"
proof -
  let ?r = "rev s"
  have "s = rev (takeWhile isSpace ?r @ dropWhile isSpace ?r)" by simp
  also have "\<dots> = rev (dropWhile isSpace ?r) @ rev (takeWhile isSpace ?r)"
    by (rule rev_append)
  finally have "s = rev (dropWhile isSpace ?r) @ rev (takeWhile isSpace ?r)" .
  moreover have "\<forall>c\<in>set (rev (takeWhile isSpace ?r)). isSpace c"
    by (auto dest: set_takeWhileD)
  moreover have "dropWhile isSpace ?r = [] \<or> \<not> isSpace (hd (dropWhile isSpace ?r))"
    using hd_dropWhile[of isSpace ?r] by blast
  then have "trimEnd s = [] \<or> \<not> isSpace (last (trimEnd s))"
    by (auto simp: trimEnd_def last_rev)
  ultimately show ?thesis unfolding trimEnd_def by blast
qed

lemma set_trimEnd: "set (trimEnd s) \<subseteq> set s"
  unfolding trimEnd_def by (metis set_dropWhileD set_rev subsetI)

lemma replaceSpacesParen_closed_form:
  "replaceSpacesParen c =
     (if CHR ''('' \<in> set c
      then trimEnd (takeWhile (\<lambda>x. x \<noteq> CHR ''('') c) @ ''.'' @ tl (dropWhile (\<lambda>x. x \<noteq> CHR ''('') c)
      else c)"
proof (cases "CHR ''('' \<in> set c")
  case False
  then show ?thesis by (simp add: replaceSpacesParen_no_paren)
next
  case True
  let ?b = "takeWhile (\<lambda>x. x \<noteq> CHR ''('') c"
  let ?a = "dropWhile (\<lambda>x. x \<noteq> CHR ''('') c"
  have "?a \<noteq> []" using True by (simp add: dropWhile_eq_Nil_conv)
  moreover have "hd ?a = CHR ''(''"
    using \<open>?a \<noteq> []\<close> hd_dropWhile[of "\<lambda>x. x \<noteq> CHR ''(''" c] by simp
  ultimately have a: "?a = CHR ''('' # tl ?a" by (metis list.collapse)
  obtain ws where ws: "?b = trimEnd ?b @ ws" "\<forall>c\<in>set ws. isSpace c"
    "trimEnd ?b = [] \<or> \<not> isSpace (last (trimEnd ?b))"
    using trimEnd_split by blast
  have np: "CHR ''('' \<notin> set (trimEnd ?b)"
    using set_trimEnd[of ?b] by (auto dest: set_takeWhileD)
  have "c = ?b @ ?a" by simp
  also have "?b = trimEnd ?b @ ws" by (rule ws(1))
  also have "?a = CHR ''('' # tl ?a" by (rule a)
  finally have "c = trimEnd ?b @ ws @ CHR ''('' # tl ?a" by simp
  then have "replaceSpacesParen c = replaceSpacesParen (trimEnd ?b @ ws @ CHR ''('' # tl ?a)"
    by (rule arg_cong)
  also have "\<dots> = trimEnd ?b @ CHR ''.'' # tl ?a"
    by (rule replaceSpacesParen_decomp[OF np ws(3) ws(2)])
  finally show ?thesis using True by simp
qed

lemma matchOrigin_Some:
  assumes "matchOrigin s = Some orig"
  shows "orig = take 3 s \<and> length orig = 3 \<and> (\<forall>c\<in>set orig. isLetter c)"
proof -
  from assms have "length (take 3 s) = 3 \<and> list_all isLetter (take 3 s) \<and> orig = take 3 s"
    unfolding matchOrigin_def by (metis option.distinct(1) option.inject)
  then show ?thesis by (simp add: list_all_iff)
qed

lemma matchDate_Some:
  assumes "matchDate s = Some rest"
  shows "\<exists>pre. s = pre @ rest"
proof -
  from assms have rest: "rest = dropWhile isSpace (drop 8 s)"
    unfolding matchDate_def by (metis option.distinct(1) option.inject)
  have "s = take 8 s @ drop 8 s" by simp
  also have "drop 8 s = takeWhile isSpace (drop 8 s) @ rest" unfolding rest by simp
  finally have "s = (take 8 s @ takeWhile isSpace (drop 8 s)) @ rest" by simp
  then show ?thesis ..
qed

lemma matchDateOrigin_Some:
  assumes "matchDateOrigin s = Some orig"
  shows "length orig = 3 \<and> (\<forall>c\<in>set orig. isLetter c) \<and> (\<exists>pre rest. s = pre @ orig @ rest)"
proof -
  from assms consider rest where "matchDate s = Some rest" "matchOrigin rest = Some orig"
    | "matchOrigin s = Some orig"
    unfolding matchDateOrigin_def orElse_def by (auto split: option.splits)
  then show ?thesis
  proof cases
    case 1
    from matchDate_Some[OF 1(1)] obtain pre where "s = pre @ rest" by blast
    moreover from matchOrigin_Some[OF 1(2)] have "rest = orig @ drop 3 rest"
      by (metis append_take_drop_id)
    ultimately have "s = pre @ orig @ drop 3 rest" by simp
    with matchOrigin_Some[OF 1(2)] show ?thesis by blast
  next
    case 2
    from matchOrigin_Some[OF 2] have "s = [] @ orig @ drop 3 s"
      by (metis append_Nil append_take_drop_id)
    with matchOrigin_Some[OF 2] show ?thesis by blast
  qed
qed

lemma firstOriginPattern_Some:
  assumes "firstOriginPattern s = Some orig"
  shows "length orig = 3 \<and> (\<forall>c\<in>set orig. isLetter c) \<and> (\<exists>pre rest. s = pre @ orig @ rest)"
proof -
  from assms consider a b rest where "s = a # b # rest" "matchDateOrigin rest = Some orig"
    | "matchDateOrigin s = Some orig"
    by (auto simp: firstOriginPattern_def orElse_def split: option.splits list.splits if_splits)
  then show ?thesis
  proof cases
    case 1
    from matchDateOrigin_Some[OF 1(2)] obtain pre r where "rest = pre @ orig @ r" by blast
    then have "s = ([a, b] @ pre) @ orig @ r" using 1(1) by simp
    with matchDateOrigin_Some[OF 1(2)] show ?thesis by blast
  next
    case 2
    then show ?thesis by (rule matchDateOrigin_Some)
  qed
qed

lemma firstOriginPattern_leading_letters:
  assumes "isLetter a" and "isLetter b" and "isLetter c"
  shows "firstOriginPattern (a # b # c # rest) = Some [a, b, c]"
proof -
  have "\<not> isDigit a" using assms(1) by (auto simp: isDigit_def isLetter_def less_eq_char_def)
  then have "matchDate (a # b # c # rest) = None"
    by (simp add: matchDate_def)
  moreover have "matchOrigin (a # b # c # rest) = Some [a, b, c]"
    using assms by (simp add: matchOrigin_def)
  ultimately have "matchDateOrigin (a # b # c # rest) = Some [a, b, c]"
    by (simp add: matchDateOrigin_def orElse_def)
  moreover have "b \<noteq> CHR ''-''" using assms(2) by (auto simp: isLetter_def)
  ultimately show ?thesis
    by (simp add: firstOriginPattern_def orElse_def)
qed

lemma matchRoeNumber_Some:
  assumes "matchRoeNumber s = Some r"
  shows "isNumber r \<and> (\<exists>post. s = r @ post)"
proof -
  define d1 where "d1 = takeWhile isDigit s"
  define r1 where "r1 = dropWhile isDigit s"
  define d2 where "d2 = takeWhile isDigit (drop 1 r1)"
  have s: "s = d1 @ r1" by (simp add: d1_def r1_def)
  have dd1: "\<forall>c\<in>set d1. isDigit c" unfolding d1_def by (auto dest: set_takeWhileD)
  have dd2: "\<forall>c\<in>set d2. isDigit c" unfolding d2_def by (auto dest: set_takeWhileD)
  have m: "matchRoeNumber s =
      (if d1 = [] then None
       else if take 1 r1 = ''.'' \<and> d2 \<noteq> [] then Some (d1 @ ''.'' @ d2) else Some d1)"
    unfolding matchRoeNumber_def Let_def d1_def r1_def d2_def ..
  have ne: "d1 \<noteq> []" using assms m by (cases "d1 = []") simp_all
  show ?thesis
  proof (cases "take 1 r1 = ''.'' \<and> d2 \<noteq> []")
    case True
    with m ne assms have r: "r = d1 @ ''.'' @ d2" by simp
    have "\<exists>e1 e2. r = e1 @ ''.'' @ e2 \<and> e1 \<noteq> [] \<and> e2 \<noteq> [] \<and> (\<forall>c\<in>set (e1 @ e2). isDigit c)"
      using r ne True dd1 dd2 by (intro exI[of _ d1] exI[of _ d2]) auto
    then have n: "isNumber r" unfolding isNumber_def by blast
    have "r1 = take 1 r1 @ drop 1 r1" by simp
    also have "take 1 r1 = ''.''" using True by simp
    also have "drop 1 r1 = d2 @ dropWhile isDigit (drop 1 r1)" unfolding d2_def by simp
    finally have "r1 = ''.'' @ d2 @ dropWhile isDigit (drop 1 r1)" .
    then have "s = r @ dropWhile isDigit (drop 1 r1)" using s r by simp
    with n show ?thesis by blast
  next
    case False
    with m ne assms have r: "r = d1" by auto
    have "isNumber r" unfolding isNumber_def using r ne dd1 by auto
    moreover have "s = r @ r1" using s r by simp
    ultimately show ?thesis by blast
  qed
qed

lemma roePattern_Some:
  assumes "roePattern s = Some r"
  shows "isNumber r \<and> (\<exists>pre post. s = pre @ ''ROE'' @ r @ post)"
  using assms
proof (induction s)
  case Nil
  then show ?case by simp
next
  case (Cons c cs)
  show ?case
  proof (cases "startsWith ''ROE'' (c # cs) \<and> matchRoeNumber (drop 3 (c # cs)) \<noteq> None")
    case True
    then obtain r' where r': "matchRoeNumber (drop 3 (c # cs)) = Some r'" by blast
    with True Cons.prems have "r' = r" by (simp add: orElse_def)
    from True obtain t where t: "c # cs = ''ROE'' @ t" unfolding startsWith_iff by blast
    have "drop 3 (''ROE'' @ t) = t" by simp
    then have "drop 3 (c # cs) = t" unfolding t .
    with r' \<open>r' = r\<close> have "matchRoeNumber t = Some r" by simp
    from matchRoeNumber_Some[OF this] obtain post where n: "isNumber r" and "t = r @ post" by blast
    with t have "c # cs = [] @ ''ROE'' @ r @ post" by simp
    with n show ?thesis by blast
  next
    case False
    with Cons.prems have "roePattern cs = Some r"
      by (auto simp: orElse_def split: if_splits option.splits)
    from Cons.IH[OF this] obtain pre post where n: "isNumber r" and "cs = pre @ ''ROE'' @ r @ post"
      by blast
    then have "c # cs = (c # pre) @ ''ROE'' @ r @ post" by simp
    with n show ?thesis by blast
  qed
qed

lemma roePattern_present:
  assumes "isDigit d"
  shows "roePattern (pre @ ''ROE'' @ d # post) \<noteq> None"
proof (induction pre)
  case Nil
  have "takeWhile isDigit (d # post) \<noteq> []" using assms by simp
  then have "matchRoeNumber (d # post) \<noteq> None"
    by (simp add: matchRoeNumber_def Let_def)
  then show ?case by (auto simp: startsWith_def orElse_def)
next
  case (Cons p pre)
  then show ?case by (auto simp: orElse_def split: option.splits)
qed

text \<open>
  C6, as stated, fails: only the first parenthetical separator becomes a period. In a
  line with two of them the second one is returned as it was.
\<close>

theorem parseFareCalculation_second_separator_kept:
  "map_option fareCalculation
     (parseFareCalculation ''IEV PS (X/FRA) PS (X/MUC) NYC 100.00NUC100.00END ROE1.0'') =
     Some ''IEV PS.X/FRA) PS (X/MUC) NYC 100.00NUC100.00'' \<and>
   CHR ''('' \<in> set ''IEV PS.X/FRA) PS (X/MUC) NYC 100.00NUC100.00''"
  by (simp add: parseFareCalculation_def fareCalculationPattern_def matchEND_def startsWith_def
      isSpace_def)

text \<open>
  C6, amended. \<^verbatim>\<open>parseFareCalculation\<close> fails (with a \<^verbatim>\<open>TypeError\<close>) exactly on the
  lines that are not some non-empty content, the marker \<^verbatim>\<open>END\<close>, and then the end of
  the line or a white-space character. On a line that matches, the content is the longest
  such one, and the \<^verbatim>\<open>fareCalculation\<close> returned is the content in which the first
  opening parenthesis, together with the white space just before it, is replaced by a
  period; what follows that parenthesis is returned as it is. \<^verbatim>\<open>firstOrigin\<close> is what
  \<^verbatim>\<open>firstOriginPattern\<close> finds on the whole line: when present it is three letters of
  the line, and it is present when the line starts with three letters. \<^verbatim>\<open>roe\<close> is what
  \<^verbatim>\<open>roePattern\<close> finds on the whole line: when present it is a decimal number that
  follows the letters \<^verbatim>\<open>ROE\<close> in the line, and it is present when \<^verbatim>\<open>ROE\<close> and a
  digit occur in the line.
\<close>

theorem parseFareCalculation_first_separator:
  "(parseFareCalculation str = None \<longleftrightarrow>
      \<not> (\<exists>content rest. content \<noteq> [] \<and> str = content @ ''END'' @ rest \<and>
            (rest = [] \<or> isSpace (hd rest)))) \<and>
   (\<forall>fc. parseFareCalculation str = Some fc \<longrightarrow>
      (\<exists>content rest.
          content \<noteq> [] \<and> str = content @ ''END'' @ rest \<and> (rest = [] \<or> isSpace (hd rest)) \<and>
          (\<forall>longer rest'. length content < length longer \<and> str = longer @ ''END'' @ rest' \<longrightarrow>
             rest' \<noteq> [] \<and> \<not> isSpace (hd rest')) \<and>
          fareCalculation fc =
            (if CHR ''('' \<in> set content
             then trimEnd (takeWhile (\<lambda>x. x \<noteq> CHR ''('') content) @ ''.'' @
                  tl (dropWhile (\<lambda>x. x \<noteq> CHR ''('') content)
             else content)) \<and>
      firstOrigin fc = firstOriginPattern str \<and>
      roe fc = roePattern str \<and>
      (\<forall>orig. firstOrigin fc = Some orig \<longrightarrow>
         length orig = 3 \<and> (\<forall>c\<in>set orig. isLetter c) \<and> (\<exists>pre rest. str = pre @ orig @ rest)) \<and>
      (\<forall>a b c rest. str = a # b # c # rest \<and> isLetter a \<and> isLetter b \<and> isLetter c \<longrightarrow>
         firstOrigin fc = Some [a, b, c]) \<and>
      (\<forall>r. roe fc = Some r \<longrightarrow> isNumber r \<and> (\<exists>pre post. str = pre @ ''ROE'' @ r @ post)) \<and>
      (\<forall>pre d post. str = pre @ ''ROE'' @ d # post \<and> isDigit d \<longrightarrow> roe fc \<noteq> None))"
proof (intro conjI allI impI)
  show "parseFareCalculation str = None \<longleftrightarrow>
      \<not> (\<exists>content rest. content \<noteq> [] \<and> str = content @ ''END'' @ rest \<and>
            (rest = [] \<or> isSpace (hd rest)))"
  proof -
    have "parseFareCalculation str = None \<longleftrightarrow> fareCalculationPattern str = None"
      by (simp add: parseFareCalculation_def split: option.splits)
    then show ?thesis by (simp only: fareCalculationPattern_None_iff)
  qed
next
  fix fc
  assume p: "parseFareCalculation str = Some fc"
  then obtain content where c: "fareCalculationPattern str = Some content"
    and fc: "fc = \<lparr>fareCalculation = replaceSpacesParen content,
                   firstOrigin = firstOriginPattern str, roe = roePattern str\<rparr>"
    by (auto simp: parseFareCalculation_def split: option.splits)
  from fareCalculationPattern_Some[OF c] obtain rest where r:
    "content \<noteq> []" "str = content @ ''END'' @ rest" "rest = [] \<or> isSpace (hd rest)"
    "\<forall>longer rest'. length content < length longer \<and> str = longer @ ''END'' @ rest' \<longrightarrow>
       rest' \<noteq> [] \<and> \<not> isSpace (hd rest')"
    by blast
  have f: "fareCalculation fc =
      (if CHR ''('' \<in> set content
       then trimEnd (takeWhile (\<lambda>x. x \<noteq> CHR ''('') content) @ ''.'' @
            tl (dropWhile (\<lambda>x. x \<noteq> CHR ''('') content)
       else content)"
    unfolding fc using replaceSpacesParen_closed_form[of content] by simp
  from r f show "\<exists>content rest.
      content \<noteq> [] \<and> str = content @ ''END'' @ rest \<and> (rest = [] \<or> isSpace (hd rest)) \<and>
      (\<forall>longer rest'. length content < length longer \<and> str = longer @ ''END'' @ rest' \<longrightarrow>
         rest' \<noteq> [] \<and> \<not> isSpace (hd rest')) \<and>
      fareCalculation fc =
        (if CHR ''('' \<in> set content
         then trimEnd (takeWhile (\<lambda>x. x \<noteq> CHR ''('') content) @ ''.'' @
              tl (dropWhile (\<lambda>x. x \<noteq> CHR ''('') content)
         else content)"
    by blast
  show o: "firstOrigin fc = firstOriginPattern str" by (simp add: fc)
  show e: "roe fc = roePattern str" by (simp add: fc)
  {
    fix orig assume "firstOrigin fc = Some orig"
    then have fo: "firstOriginPattern str = Some orig" using o by simp
    from firstOriginPattern_Some[OF fo]
    show "length orig = 3" and "\<forall>c\<in>set orig. isLetter c" and "\<exists>pre rest. str = pre @ orig @ rest"
      by blast+
  }
  {
    fix a b c rest
    assume "str = a # b # c # rest \<and> isLetter a \<and> isLetter b \<and> isLetter c"
    then show "firstOrigin fc = Some [a, b, c]"
      using firstOriginPattern_leading_letters[of a b c rest] o by simp
  }
  {
    fix r assume "roe fc = Some r"
    then have ro: "roePattern str = Some r" using e by simp
    from roePattern_Some[OF ro]
    show "isNumber r" and "\<exists>pre post. str = pre @ ''ROE'' @ r @ post" by blast+
  }
  {
    fix pre d post
    assume "str = pre @ ''ROE'' @ d # post \<and> isDigit d"
    then show "roe fc \<noteq> None"
      using roePattern_present[of d pre post] e by simp
  }
qed

theorem parseFareCalculation_first_separator_witness:
  "parseFareCalculation ''IEV PS NYC 10.00 (X)NUC10.00END ROE1.5'' =
     Some \<lparr>fareCalculation = ''IEV PS NYC 10.00.X)NUC10.00'', firstOrigin = Some ''IEV'',
            roe = Some ''1.5''\<rparr> \<and>
   isNumber ''1.5'' \<and>
   parseFareCalculation ''IEV PS NYC 10.00NUC10.00ENDS'' = None"
proof -
  have v: "parseFareCalculation ''IEV PS NYC 10.00 (X)NUC10.00END ROE1.5'' =
     Some \<lparr>fareCalculation = ''IEV PS NYC 10.00.X)NUC10.00'', firstOrigin = Some ''IEV'',
            roe = Some ''1.5''\<rparr>"
    by (simp add: parseFareCalculation_def fareCalculationPattern_def matchEND_def startsWith_def
        isSpace_def firstOriginPattern_def matchDateOrigin_def matchDate_def matchOrigin_def
        orElse_def isDigit_def isLetter_def canonicalize_def matchRoeNumber_def Let_def)
  have n: "fareCalculationPattern ''IEV PS NYC 10.00NUC10.00ENDS'' = None"
    by (simp add: fareCalculationPattern_def matchEND_def startsWith_def isSpace_def)
  have "isNumber ''1.5''"
    using parseFareCalculation_first_separator[of "''IEV PS NYC 10.00 (X)NUC10.00END ROE1.5''"] v
    by simp
  moreover have "parseFareCalculation ''IEV PS NYC 10.00NUC10.00ENDS'' = None"
    using parseFareCalculation_first_separator[of "''IEV PS NYC 10.00NUC10.00ENDS''"] n
    by (simp add: parseFareCalculation_def)
  ultimately show ?thesis using v by simp
qed


subsection \<open>The error classifier\<close>

lemma codeUnresolved_fallback:
  assumes "codeUnresolved rsp"
  shows "AirErrorHandler getErrorPcc toUpperCase rsp = processUAPIError getErrorPcc toUpperCase rsp"
proof (cases "errorInfoOf rsp")
  case None
  then show ?thesis by (simp add: AirErrorHandler_def)
next
  case (Some errorInfo)
  with assms have "ei_Code errorInfo = None \<or> (\<exists>c. ei_Code errorInfo = Some c \<and> c \<notin> set recognizedCodes)"
    by (auto simp: codeUnresolved_def split: option.splits)
  then show ?thesis
    using Some by (auto simp: AirErrorHandler_def recognizedCodes_def Let_def)
qed

text \<open>
  C3, as stated, fails. A fault with no structured code and no fault string whose
  document-failure block has the empty text as its message is one the claim gives a
  vendor-service error carrying the text; \<^verbatim>\<open>processUAPIError\<close> tests
  \<^verbatim>\<open>!uapiErrorMessage\<close> (line 463), which holds of the empty string as of \<^verbatim>\<open>null\<close>,
  and throws the \<^verbatim>\<open>UnhandledError\<close>.
\<close>

theorem AirErrorHandler_empty_message_unhandled:
  "codeUnresolved emptyFailureDocument \<and>
   DocumentFailureInfo emptyFailureDocument =
     Some \<lparr>fi_Code = Some ''3000'', fi_Message = Some ''''\<rparr> \<and>
   AirErrorHandler exampleErrorPcc asciiUpperCase emptyFailureDocument =
     UnhandledError (AirRuntimeError Generic (Source emptyFailureDocument))"
  by (simp add: codeUnresolved_def errorInfoOf_def emptyFailureDocument_def emptyDocument_def
      AirErrorHandler_def processUAPIError_def getUAPIErrorMessage_def getResponseMessages_def
      truthy_def)

text \<open>
  C3, amended. When the structured code of a fault is absent or none of the recognized
  ones, \<^verbatim>\<open>AirErrorHandler\<close> classifies by the text of the resolved message \<open>m\<close>: the
  fault string when it is not empty; else the text of the first response message when
  there is one; else the message of the document-failure block (for the last two,
  \<^verbatim>\<open>UAPI Service resulted in an error\<close> when the text is undefined). When \<open>m\<close> is not
  empty the patterns are tried in this order: the no-agency-agreement pattern gives
  \<^verbatim>\<open>NoAgreement\<close> with the PCC extracted from \<open>m\<close>; else the unable-to-retrieve pattern
  gives \<^verbatim>\<open>UnableToRetrieve\<close>; else the host-error-during-ticket-retrieve pattern gives
  \<^verbatim>\<open>UnableToRetrieveTicket\<close>; else the accessed-by-another-transaction pattern gives
  \<^verbatim>\<open>AccessedByAnotherTransaction\<close>; else a \<^verbatim>\<open>UAPIServiceError\<close> is thrown, which like
  the three before it carries the document with \<open>m\<close> in upper case as its fault string.
  When nothing resolves (no fault string, no response message and no document-failure
  block) or what resolves is the empty text, an \<^verbatim>\<open>UnhandledError\<close> around a plain
  \<^verbatim>\<open>AirRuntimeError\<close> is thrown. The two cases cover every document.
\<close>

theorem AirErrorHandler_free_text_priority:
  assumes "codeUnresolved rsp"
  shows "(\<forall>m. m \<noteq> [] \<and>
              (faultstring rsp = Some m \<or>
               \<not> truthy (faultstring rsp) \<and>
                 (\<exists>r rs. ResponseMessage rsp = Some (r # rs) \<and>
                    m = (case rm_text r of None \<Rightarrow> fallbackMessage | Some t \<Rightarrow> t)) \<or>
               \<not> truthy (faultstring rsp) \<and>
                 (ResponseMessage rsp = None \<or> ResponseMessage rsp = Some []) \<and>
                 (\<exists>info. DocumentFailureInfo rsp = Some info \<and>
                    m = (case fi_Message info of None \<Rightarrow> fallbackMessage | Some t \<Rightarrow> t))) \<longrightarrow>
            AirErrorHandler getErrorPcc toUpperCase rsp =
              (if noAgreementPattern m
                 then AirRuntimeError NoAgreement (Pcc (getErrorPcc (Some m)))
               else if unableToRetreivePattern m
                 then AirRuntimeError UnableToRetrieve
                        (Source (rsp\<lparr>faultstring := Some (toUpperCase m)\<rparr>))
               else if ticketRetrieveErrorPattern m
                 then AirRuntimeError UnableToRetrieveTicket
                        (Source (rsp\<lparr>faultstring := Some (toUpperCase m)\<rparr>))
               else if accessedByAnotherTransactionPattern m
                 then AirRuntimeError AccessedByAnotherTransaction
                        (Source (rsp\<lparr>faultstring := Some (toUpperCase m)\<rparr>))
               else UAPIServiceError (Source (rsp\<lparr>faultstring := Some (toUpperCase m)\<rparr>)))) \<and>
         (\<not> truthy (faultstring rsp) \<and>
            ((\<exists>r rs. ResponseMessage rsp = Some (r # rs) \<and> rm_text r = Some []) \<or>
             (ResponseMessage rsp = None \<or> ResponseMessage rsp = Some []) \<and>
               (DocumentFailureInfo rsp = None \<or>
                (\<exists>info. DocumentFailureInfo rsp = Some info \<and> fi_Message info = Some []))) \<longrightarrow>
            AirErrorHandler getErrorPcc toUpperCase rsp =
              UnhandledError (AirRuntimeError Generic (Source rsp)))"
proof (intro conjI allI impI)
  fix m
  assume a: "m \<noteq> [] \<and>
      (faultstring rsp = Some m \<or>
       \<not> truthy (faultstring rsp) \<and>
         (\<exists>r rs. ResponseMessage rsp = Some (r # rs) \<and>
            m = (case rm_text r of None \<Rightarrow> fallbackMessage | Some t \<Rightarrow> t)) \<or>
       \<not> truthy (faultstring rsp) \<and>
         (ResponseMessage rsp = None \<or> ResponseMessage rsp = Some []) \<and>
         (\<exists>info. DocumentFailureInfo rsp = Some info \<and>
            m = (case fi_Message info of None \<Rightarrow> fallbackMessage | Some t \<Rightarrow> t)))"
  then have "getUAPIErrorMessage rsp = Some m"
    by (auto simp: getUAPIErrorMessage_def getResponseMessages_def truthy_def
        split: option.splits list.splits)
  with a show "AirErrorHandler getErrorPcc toUpperCase rsp =
      (if noAgreementPattern m
         then AirRuntimeError NoAgreement (Pcc (getErrorPcc (Some m)))
       else if unableToRetreivePattern m
         then AirRuntimeError UnableToRetrieve
                (Source (rsp\<lparr>faultstring := Some (toUpperCase m)\<rparr>))
       else if ticketRetrieveErrorPattern m
         then AirRuntimeError UnableToRetrieveTicket
                (Source (rsp\<lparr>faultstring := Some (toUpperCase m)\<rparr>))
       else if accessedByAnotherTransactionPattern m
         then AirRuntimeError AccessedByAnotherTransaction
                (Source (rsp\<lparr>faultstring := Some (toUpperCase m)\<rparr>))
       else UAPIServiceError (Source (rsp\<lparr>faultstring := Some (toUpperCase m)\<rparr>)))"
    by (simp add: codeUnresolved_fallback[OF assms] processUAPIError_def Let_def)
next
  assume "\<not> truthy (faultstring rsp) \<and>
      ((\<exists>r rs. ResponseMessage rsp = Some (r # rs) \<and> rm_text r = Some []) \<or>
       (ResponseMessage rsp = None \<or> ResponseMessage rsp = Some []) \<and>
         (DocumentFailureInfo rsp = None \<or>
          (\<exists>info. DocumentFailureInfo rsp = Some info \<and> fi_Message info = Some [])))"
  then have "getUAPIErrorMessage rsp = None \<or> getUAPIErrorMessage rsp = Some []"
    by (auto simp: getUAPIErrorMessage_def getResponseMessages_def truthy_def
        split: option.splits list.splits)
  then show "AirErrorHandler getErrorPcc toUpperCase rsp =
      UnhandledError (AirRuntimeError Generic (Source rsp))"
    by (auto simp: codeUnresolved_fallback[OF assms] processUAPIError_def)
qed

text \<open>
  A fault without \<^verbatim>\<open>detail\<close> whose fault string matches the first two patterns is a
  \<^verbatim>\<open>NoAgreement\<close> with the PCC of the message; a response message that matches the last
  pattern only is an \<^verbatim>\<open>AccessedByAnotherTransaction\<close>; the empty document is an
  \<^verbatim>\<open>UnhandledError\<close>.
\<close>

theorem AirErrorHandler_free_text_priority_witness:
  "AirErrorHandler exampleErrorPcc asciiUpperCase
     (emptyDocument\<lparr>faultstring := Some ''Unable to retrieve: no agency agreement with X1Z''\<rparr>) =
     AirRuntimeError NoAgreement (Pcc (Some ''X1Z'')) \<and>
   AirErrorHandler exampleErrorPcc asciiUpperCase exampleMessageDocument =
     AirRuntimeError AccessedByAnotherTransaction
       (Source (exampleMessageDocument
                  \<lparr>faultstring := Some ''RECORD IS ACCESSED BY ANOTHER TRANSACTION''\<rparr>)) \<and>
   AirErrorHandler exampleErrorPcc asciiUpperCase emptyDocument =
     UnhandledError (AirRuntimeError Generic (Source emptyDocument))"
proof -
  let ?m1 = "''Unable to retrieve: no agency agreement with X1Z''"
  let ?m2 = "''Record is accessed by another transaction''"
  let ?d = "emptyDocument\<lparr>faultstring := Some ?m1\<rparr>"
  have u1: "codeUnresolved ?d"
    by (simp add: codeUnresolved_def errorInfoOf_def emptyDocument_def)
  have u2: "codeUnresolved exampleMessageDocument"
    by (simp add: codeUnresolved_def errorInfoOf_def emptyDocument_def exampleMessageDocument_def)
  have u3: "codeUnresolved emptyDocument"
    by (simp add: codeUnresolved_def errorInfoOf_def emptyDocument_def)
  have p1: "noAgreementPattern ?m1"
    by (simp add: noAgreementPattern_def regexTestI_def canonicalize_def startsWith_def)
  have pcc: "exampleErrorPcc (Some ?m1) = Some ''X1Z''"
    by (simp add: exampleErrorPcc_def lastWord_def isSpace_def regexTestI_def canonicalize_def
        startsWith_def)
  have p2: "\<not> noAgreementPattern ?m2 \<and> \<not> unableToRetreivePattern ?m2 \<and>
      \<not> ticketRetrieveErrorPattern ?m2 \<and> accessedByAnotherTransactionPattern ?m2"
    by (simp add: noAgreementPattern_def unableToRetreivePattern_def
        ticketRetrieveErrorPattern_def accessedByAnotherTransactionPattern_def regexTestI_def
        canonicalize_def startsWith_def)
  have up: "asciiUpperCase ?m2 = ''RECORD IS ACCESSED BY ANOTHER TRANSACTION''"
    by (simp add: asciiUpperCase_def canonicalize_def)
  have f2: "\<not> truthy (faultstring exampleMessageDocument) \<and>
      (\<exists>r rs. ResponseMessage exampleMessageDocument = Some (r # rs) \<and>
         ?m2 = (case rm_text r of None \<Rightarrow> fallbackMessage | Some t \<Rightarrow> t))"
    by (simp add: exampleMessageDocument_def emptyDocument_def truthy_def)
  have f3: "\<not> truthy (faultstring emptyDocument) \<and> ResponseMessage emptyDocument = None \<and>
      DocumentFailureInfo emptyDocument = None"
    by (simp add: emptyDocument_def truthy_def)
  have 1: "AirErrorHandler exampleErrorPcc asciiUpperCase ?d =
      AirRuntimeError NoAgreement (Pcc (Some ''X1Z''))"
    using AirErrorHandler_free_text_priority[OF u1, of exampleErrorPcc asciiUpperCase,
        THEN conjunct1, rule_format, of ?m1] p1 pcc
    by simp
  have 2: "AirErrorHandler exampleErrorPcc asciiUpperCase exampleMessageDocument =
      AirRuntimeError AccessedByAnotherTransaction
        (Source (exampleMessageDocument
                   \<lparr>faultstring := Some ''RECORD IS ACCESSED BY ANOTHER TRANSACTION''\<rparr>))"
    using AirErrorHandler_free_text_priority[OF u2, of exampleErrorPcc asciiUpperCase,
        THEN conjunct1, rule_format, of ?m2] p2 up f2
    by simp
  have 3: "AirErrorHandler exampleErrorPcc asciiUpperCase emptyDocument =
      UnhandledError (AirRuntimeError Generic (Source emptyDocument))"
    using AirErrorHandler_free_text_priority[OF u3, of exampleErrorPcc asciiUpperCase,
        THEN conjunct2] f3
    by simp
  from 1 2 3 show ?thesis by simp
qed

text \<open>
  C4. With the structured code \<^verbatim>\<open>3000\<close>, \<^verbatim>\<open>AirErrorHandler\<close> throws
  \<^verbatim>\<open>TicketInfoIncomplete\<close> exactly when the fault string is the expected phrase;
  otherwise \<^verbatim>\<open>SegmentWaitlisted\<close> exactly when the messages of the air-segment errors
  contain the waitlisted-segment phrase; otherwise \<^verbatim>\<open>SegmentBookingFailed\<close>. Each
  error carries the fault document.
\<close>

theorem AirErrorHandler_code_3000:
  assumes "errorInfoOf rsp = Some errorInfo" and "ei_Code errorInfo = Some ''3000''"
  shows "(AirErrorHandler getErrorPcc toUpperCase rsp = AirRuntimeError TicketInfoIncomplete (Source rsp)
            \<longleftrightarrow> faultstring rsp = Some ticketInfoIncompletePhrase) \<and>
         (AirErrorHandler getErrorPcc toUpperCase rsp = AirRuntimeError SegmentWaitlisted (Source rsp)
            \<longleftrightarrow> faultstring rsp \<noteq> Some ticketInfoIncompletePhrase \<and>
                Some waitlistedPhrase \<in>
                  set (case ei_AirSegmentError errorInfo of Some es \<Rightarrow> es | None \<Rightarrow> [])) \<and>
         (AirErrorHandler getErrorPcc toUpperCase rsp = AirRuntimeError SegmentBookingFailed (Source rsp)
            \<longleftrightarrow> faultstring rsp \<noteq> Some ticketInfoIncompletePhrase \<and>
                Some waitlistedPhrase \<notin>
                  set (case ei_AirSegmentError errorInfo of Some es \<Rightarrow> es | None \<Rightarrow> []))"
  using assms by (simp add: AirErrorHandler_def Let_def)

theorem AirErrorHandler_code_3000_witness:
  "AirErrorHandler (\<lambda>_. None) asciiUpperCase (faultWith (Some ''3000'') ticketInfoIncompletePhrase None) =
     AirRuntimeError TicketInfoIncomplete
       (Source (faultWith (Some ''3000'') ticketInfoIncompletePhrase None)) \<and>
   AirErrorHandler (\<lambda>_. None) asciiUpperCase
     (faultWith (Some ''3000'') ''Booking failed'' (Some [None, Some waitlistedPhrase])) =
     AirRuntimeError SegmentWaitlisted
       (Source (faultWith (Some ''3000'') ''Booking failed'' (Some [None, Some waitlistedPhrase]))) \<and>
   AirErrorHandler (\<lambda>_. None) asciiUpperCase (faultWith (Some ''3000'') ''Booking failed'' None) =
     AirRuntimeError SegmentBookingFailed
       (Source (faultWith (Some ''3000'') ''Booking failed'' None))"
proof -
  let ?ei = "\<lambda>es. \<lparr>ei_Code = Some ''3000'', ei_Description = None, ei_AirSegmentError = es\<rparr>"
  have e: "errorInfoOf (faultWith (Some ''3000'') msg es) = Some (?ei es)" for msg es
    by (simp add: errorInfoOf_def faultWith_def emptyDocument_def)
  have f: "faultstring (faultWith (Some ''3000'') msg es) = Some msg" for msg es
    by (simp add: faultWith_def emptyDocument_def)
  have n: "''Booking failed'' \<noteq> ticketInfoIncompletePhrase"
    by (simp add: ticketInfoIncompletePhrase_def)
  show ?thesis
    using AirErrorHandler_code_3000[where getErrorPcc = "\<lambda>_. None" and toUpperCase = asciiUpperCase,
        OF e[of ticketInfoIncompletePhrase None]]
      AirErrorHandler_code_3000[where getErrorPcc = "\<lambda>_. None" and toUpperCase = asciiUpperCase,
        OF e[of "''Booking failed''" "Some [None, Some waitlistedPhrase]"]]
      AirErrorHandler_code_3000[where getErrorPcc = "\<lambda>_. None" and toUpperCase = asciiUpperCase,
        OF e[of "''Booking failed''" None]]
    by (simp add: f n)
qed

text \<open>
  C5. A ticket-retrieval response that is a fault (it has a fault code), whose
  structured code is \<^verbatim>\<open>3000\<close> and whose fault string matches \<^verbatim>\<open>has no tickets\<close>, is
  returned by \<^verbatim>\<open>airGetTicketsErrorHandler\<close> and not thrown, and \<^verbatim>\<open>airGetTickets\<close>
  returns the empty list for it.
\<close>

theorem has_no_tickets_is_not_an_error:
  assumes "errorInfoOf rsp = Some errorInfo" and "ei_Code errorInfo = Some ''3000''"
    and "faultcode rsp \<noteq> None"
    and "faultstring rsp = Some message" and "regexTest ''has no tickets'' message"
  shows "airGetTicketsErrorHandler getErrorPcc toUpperCase rsp = Inr rsp \<and>
         airGetTickets getErrorPcc toUpperCase rsp = Inr []"
  using assms
  by (simp add: airGetTicketsErrorHandler_def airGetTickets_def responseHasNoTickets_def)

theorem has_no_tickets_is_not_an_error_witness:
  "airGetTicketsErrorHandler (\<lambda>_. None) asciiUpperCase
     (faultWith (Some ''3000'') ''Record locator ABC123 has no tickets'' None) =
     Inr (faultWith (Some ''3000'') ''Record locator ABC123 has no tickets'' None) \<and>
   airGetTickets (\<lambda>_. None) asciiUpperCase
     (faultWith (Some ''3000'') ''Record locator ABC123 has no tickets'' None) = Inr []"
proof -
  let ?rsp = "faultWith (Some ''3000'') ''Record locator ABC123 has no tickets'' None"
  have e: "errorInfoOf ?rsp =
      Some \<lparr>ei_Code = Some ''3000'', ei_Description = None, ei_AirSegmentError = None\<rparr>"
    by (simp add: errorInfoOf_def faultWith_def emptyDocument_def)
  have c: "faultcode ?rsp \<noteq> None"
    by (simp add: faultWith_def emptyDocument_def)
  have f: "faultstring ?rsp = Some ''Record locator ABC123 has no tickets''"
    by (simp add: faultWith_def emptyDocument_def)
  have r: "regexTest ''has no tickets'' ''Record locator ABC123 has no tickets''"
    by (simp add: startsWith_def)
  show ?thesis
    using has_no_tickets_is_not_an_error[where getErrorPcc = "\<lambda>_. None" and
        toUpperCase = asciiUpperCase, OF e _ c f r]
    by simp
qed

subsection \<open>Coupons of a ticket\<close>

lemma findIndex_distinct:
  assumes "distinct (map f xs)" and "i < length xs"
  shows "findIndex (\<lambda>x. f x = f (xs ! i)) xs = Some i"
  using assms
proof (induction xs arbitrary: i)
  case Nil
  then show ?case by simp
next
  case (Cons x xs)
  show ?case
  proof (cases i)
    case 0
    then show ?thesis by simp
  next
    case (Suc j)
    with Cons.prems have j: "j < length xs" and d: "distinct (map f xs)" by simp_all
    have "f (xs ! j) \<in> f ` set xs" using j by simp
    with Cons.prems(1) have "f x \<noteq> f (xs ! j)" by auto
    with Suc Cons.IH[OF d j] show ?thesis by simp
  qed
qed


lemma ticketCoupon_distinct:
  assumes "distinct (map c_key all)" and "i < length all"
  shows "ticketCoupon all (c_key (all ! i)) = Some (withNextStopover all i)"
  using findIndex_distinct[OF assms, of ]
  by (simp add: ticketCoupon_def at_def withNextStopover_def assms(2))

lemma allSome_map_Some: "allSome (map (\<lambda>i. Some (g i)) is) = Some (map g is)"
  by (induction "is") simp_all


lemma c_key_couponInfo: "c_key (couponInfo t kc) = fst kc"
  by (simp add: couponInfo_def)

lemma ticketCoupon_segment:
  assumes d: "distinct (map c_key all)" and all: "all = pre @ segOf t @ post"
  shows "map (ticketCoupon all) (map fst (Coupon t)) =
         map (\<lambda>i. Some (withNextStopover all i)) [length pre ..< length pre + length (Coupon t)]"
proof (rule nth_equalityI)
  show "length (map (ticketCoupon all) (map fst (Coupon t))) =
        length (map (\<lambda>i. Some (withNextStopover all i)) [length pre ..< length pre + length (Coupon t)])"
    by simp
next
  fix j assume "j < length (map (ticketCoupon all) (map fst (Coupon t)))"
  then have j: "j < length (Coupon t)" by simp
  have len: "length pre + j < length all" using j all by (simp add: segOf_def)
  have "all ! (length pre + j) = segOf t ! j"
    using j all by (simp add: nth_append segOf_def)
  then have k: "c_key (all ! (length pre + j)) = fst (Coupon t ! j)"
    using j by (simp add: segOf_def c_key_couponInfo)
  have "ticketCoupon all (fst (Coupon t ! j)) = Some (withNextStopover all (length pre + j))"
    using ticketCoupon_distinct[OF d len] k by simp
  then show "map (ticketCoupon all) (map fst (Coupon t)) ! j =
        map (\<lambda>i. Some (withNextStopover all i)) [length pre ..< length pre + length (Coupon t)] ! j"
    using j by simp
qed

lemma ticketInfo_segment:
  assumes "distinct (map c_key all)" and "all = pre @ segOf t @ post"
  shows "ticketInfo all t =
         Some \<lparr>t_ticketNumber = TicketNumber t,
               t_coupons = map (withNextStopover all) [length pre ..< length pre + length (Coupon t)]\<rparr>"
  unfolding ticketInfo_def ticketCoupon_segment[OF assms] allSome_map_Some by simp

lemma ticketInfos_segments:
  assumes "distinct (map c_key all)" and "all = pre @ concat (map segOf ts) @ post"
  shows "\<exists>tks. allSome (map (ticketInfo all) ts) = Some tks \<and>
           concat (map t_coupons tks) =
             map (withNextStopover all) [length pre ..< length pre + length (concat (map segOf ts))] \<and>
           map t_ticketNumber tks = map TicketNumber ts \<and>
           map (\<lambda>tk. length (t_coupons tk)) tks = map (\<lambda>t. length (Coupon t)) ts"
  using assms(2)
proof (induction ts arbitrary: pre)
  case Nil
  then show ?case by simp
next
  case (Cons t ts)
  let ?l1 = "length (Coupon t)" and ?l2 = "length (concat (map segOf ts))"
  have a1: "all = pre @ segOf t @ (concat (map segOf ts) @ post)" using Cons.prems by simp
  have a2: "all = (pre @ segOf t) @ concat (map segOf ts) @ post" using Cons.prems by simp
  from Cons.IH[OF a2] obtain tks where tks:
    "allSome (map (ticketInfo all) ts) = Some tks"
    "concat (map t_coupons tks) =
       map (withNextStopover all) [length (pre @ segOf t) ..< length (pre @ segOf t) + ?l2]"
    "map t_ticketNumber tks = map TicketNumber ts"
    "map (\<lambda>tk. length (t_coupons tk)) tks = map (\<lambda>t. length (Coupon t)) ts"
    by blast
  let ?tk = "\<lparr>t_ticketNumber = TicketNumber t,
              t_coupons = map (withNextStopover all) [length pre ..< length pre + ?l1]\<rparr>"
  have h: "ticketInfo all t = Some ?tk"
    by (rule ticketInfo_segment[OF assms(1) a1])
  have ls: "length (segOf t) = ?l1" by (simp add: segOf_def)
  have r: "[length pre ..< length pre + (?l1 + ?l2)] =
      [length pre ..< length pre + ?l1] @ [length pre + ?l1 ..< length pre + ?l1 + ?l2]"
    by (metis add.assoc le_add1 upt_add_eq_append)
  have "allSome (map (ticketInfo all) (t # ts)) = Some (?tk # tks)"
    using h tks(1) by simp
  moreover have "concat (map t_coupons (?tk # tks)) =
      map (withNextStopover all) [length pre ..< length pre + length (concat (map segOf (t # ts)))]"
    using tks(2) ls r by simp
  moreover have "map t_ticketNumber (?tk # tks) = map TicketNumber (t # ts)"
    using tks(3) by simp
  moreover have "map (\<lambda>tk. length (t_coupons tk)) (?tk # tks) = map (\<lambda>t. length (Coupon t)) (t # ts)"
    using tks(4) by simp
  ultimately show ?case by blast
qed

lemma allCoupons_segOf: "allCoupons ts = concat (map segOf ts)"
  by (simp add: allCoupons_def segOf_def[abs_def])

lemma tickets_of_distinct_keys:
  assumes "distinct (map c_key (allCoupons ts))"
  shows "\<exists>tks. allSome (map (ticketInfo (allCoupons ts)) ts) = Some tks \<and>
           concat (map t_coupons tks) =
             map (withNextStopover (allCoupons ts)) [0 ..< length (allCoupons ts)] \<and>
           map t_ticketNumber tks = map TicketNumber ts \<and>
           map (\<lambda>tk. length (t_coupons tk)) tks = map (\<lambda>t. length (Coupon t)) ts"
  using ticketInfos_segments[OF assms, of "[]" ts "[]"]
  by (simp add: allCoupons_segOf)

lemma allCoupons_raw:
  "list_all2 (\<lambda>ac kc. c_key ac = fst kc \<and> c_stopover ac = (StopoverCode (snd kc) = Some ''true''))
     (allCoupons ts) (concat (map Coupon ts))"
proof (induction ts)
  case Nil
  then show ?case by (simp add: allCoupons_def)
next
  case (Cons t ts)
  have "list_all2 (\<lambda>ac kc. c_key ac = fst kc \<and> c_stopover ac = (StopoverCode (snd kc) = Some ''true''))
      (map (couponInfo t) (Coupon t)) (Coupon t)"
    by (simp add: list_all2_conv_all_nth couponInfo_def)
  with Cons show ?case
    by (simp add: allCoupons_def list_all2_appendI)
qed

lemma getTicketFromEtr_tickets:
  assumes "getTicketFromEtr container etr obj allow = Inr td"
  shows "allSome (map (ticketInfo (allCoupons (map snd (Ticket etr)))) (map snd (Ticket etr))) =
         Some (tickets td)"
proof -
  let ?r = "allSome (map (ticketInfo (allCoupons (map snd (Ticket etr)))) (map snd (Ticket etr)))"
  show ?thesis
  proof (cases ?r)
    case None
    with assms show ?thesis
      by (simp add: getTicketFromEtr_def Let_def split: if_splits)
  next
    case (Some tks)
    with assms have "tickets td = tks"
      by (auto simp: getTicketFromEtr_def Let_def split: if_splits option.splits list.splits)
    with Some show ?thesis by simp
  qed
qed

lemma coupon_stopover_is_next_coupons:
  assumes "getTicketFromEtr container etr obj allow = Inr td"
    and "distinct (map fst (concat (map (\<lambda>kt. Coupon (snd kt)) (Ticket etr))))"
  shows "length (concat (map t_coupons (tickets td))) =
           length (concat (map (\<lambda>kt. Coupon (snd kt)) (Ticket etr))) \<and>
         (\<forall>i. i < length (concat (map (\<lambda>kt. Coupon (snd kt)) (Ticket etr))) \<longrightarrow>
            c_key (concat (map t_coupons (tickets td)) ! i) =
              fst (concat (map (\<lambda>kt. Coupon (snd kt)) (Ticket etr)) ! i) \<and>
            c_stopover (concat (map t_coupons (tickets td)) ! i) =
              (if i + 1 < length (concat (map (\<lambda>kt. Coupon (snd kt)) (Ticket etr)))
               then StopoverCode (snd (concat (map (\<lambda>kt. Coupon (snd kt)) (Ticket etr)) ! (i + 1)))
                    = Some ''true''
               else True)) \<and>
         (concat (map t_coupons (tickets td)) \<noteq> [] \<longrightarrow>
            c_stopover (last (concat (map t_coupons (tickets td))))) \<and>
         map (\<lambda>tk. length (t_coupons tk)) (tickets td) =
           map (\<lambda>kt. length (Coupon (snd kt))) (Ticket etr)"
proof -
  let ?ts = "map snd (Ticket etr)"
  let ?raw = "concat (map Coupon ?ts)"
  let ?all = "allCoupons ?ts"
  let ?R = "concat (map t_coupons (tickets td))"
  have raw: "concat (map (\<lambda>kt. Coupon (snd kt)) (Ticket etr)) = ?raw"
    by (simp add: comp_def)
  have rel: "list_all2 (\<lambda>ac kc. c_key ac = fst kc \<and>
      c_stopover ac = (StopoverCode (snd kc) = Some ''true'')) ?all ?raw"
    by (rule allCoupons_raw)
  have len: "length ?all = length ?raw" using rel by (rule list_all2_lengthD)
  have nth: "c_key (?all ! j) = fst (?raw ! j) \<and>
      c_stopover (?all ! j) = (StopoverCode (snd (?raw ! j)) = Some ''true'')"
    if "j < length ?raw" for j
    using list_all2_nthD[OF rel, of j] that len by simp
  have "map c_key ?all = map fst ?raw"
    using len nth by (intro nth_equalityI) simp_all
  with assms(2) raw have d: "distinct (map c_key ?all)" by simp
  from tickets_of_distinct_keys[OF d] getTicketFromEtr_tickets[OF assms(1)]
  have R: "?R = map (withNextStopover ?all) [0 ..< length ?all]"
    and L: "map (\<lambda>tk. length (t_coupons tk)) (tickets td) = map (\<lambda>t. length (Coupon t)) ?ts"
    by auto
  have lenR: "length ?R = length ?raw" using R len by simp
  have at: "c_key (?R ! i) = fst (?raw ! i) \<and>
      c_stopover (?R ! i) =
        (if i + 1 < length ?raw then StopoverCode (snd (?raw ! (i + 1))) = Some ''true'' else True)"
    if i: "i < length ?raw" for i
  proof -
    have "?R ! i = withNextStopover ?all i" using R i len by simp
    then show ?thesis using nth[OF i] nth[of "i + 1"] len
      by (simp add: withNextStopover_def)
  qed
  have lastR: "c_stopover (last ?R)" if "?R \<noteq> []"
  proof -
    have pos: "0 < length ?raw"
      unfolding lenR[symmetric] using that length_greater_0_conv[of ?R] by blast
    have "last ?R = ?R ! (length ?raw - 1)"
      using last_conv_nth[OF that] unfolding lenR .
    moreover have "c_stopover (?R ! (length ?raw - 1))"
      using at[of "length ?raw - 1"] pos by (simp del: length_concat)
    ultimately show ?thesis by (simp only:)
  qed
  show ?thesis
    unfolding raw using lenR at lastR L by (simp add: comp_def)
qed

subsection \<open>Fare quotes of a booking\<close>

lemma set_insertBy: "set (insertBy cmp x ys) = insert x (set ys)"
  by (induction ys) auto

lemma set_sortBy: "set (sortBy cmp xs) = set xs"
  by (induction xs) (simp_all add: sortBy_def set_insertBy)



lemma distinct_map_insertBy:
  "distinct (map f (insertBy cmp x ys)) \<longleftrightarrow> f x \<notin> f ` set ys \<and> distinct (map f ys)"
  by (induction ys) (auto simp: set_insertBy)

lemma distinct_map_sortBy: "distinct (map f (sortBy cmp xs)) \<longleftrightarrow> distinct (map f xs)"
proof (induction xs)
  case Nil
  then show ?case by (simp add: sortBy_def)
next
  case (Cons x xs)
  have "sortBy cmp (x # xs) = insertBy cmp x (sortBy cmp xs)" by (simp add: sortBy_def)
  then show ?case using Cons by (simp add: distinct_map_insertBy set_sortBy)
qed

lemma insertBy_ascending:
  assumes "ascending moment ys" and "\<forall>y\<in>set (x # ys). dateOf moment y \<noteq> None"
  shows "ascending moment (insertBy (compareEffectiveDate moment) x ys)"
  using assms
proof (induction ys)
  case Nil
  then show ?case by (simp add: ascending_def)
next
  case (Cons y ys)
  from Cons.prems(2) obtain tx ty where tx: "dateOf moment x = Some tx" and ty: "dateOf moment y = Some ty"
    by auto
  have c: "compareEffectiveDate moment x y = Some (tx - ty)"
    using tx ty by (simp add: compareEffectiveDate_def dateOf_def)
  show ?case
  proof (cases "tx \<le> ty")
    case True
    have "\<exists>t1 t2. dateOf moment x = Some t1 \<and> dateOf moment z = Some t2 \<and> t1 \<le> t2"
      if "z \<in> set (y # ys)" for z
    proof (cases "z = y")
      case True
      with tx ty \<open>tx \<le> ty\<close> show ?thesis by simp
    next
      case False
      with that have "z \<in> set ys" by simp
      with Cons.prems(1) obtain t1 t2 where "dateOf moment y = Some t1" "dateOf moment z = Some t2" "t1 \<le> t2"
        by (auto simp: ascending_def)
      with tx ty True show ?thesis by auto
    qed
    with Cons.prems(1) True c show ?thesis by (auto simp: ascending_def)
  next
    case False
    have a: "ascending moment ys" using Cons.prems(1) by (simp add: ascending_def)
    have v: "\<forall>z\<in>set (x # ys). dateOf moment z \<noteq> None" using Cons.prems(2) by simp
    have ih: "ascending moment (insertBy (compareEffectiveDate moment) x ys)"
      by (rule Cons.IH[OF a v])
    have "\<exists>t1 t2. dateOf moment y = Some t1 \<and> dateOf moment z = Some t2 \<and> t1 \<le> t2"
      if "z \<in> set (insertBy (compareEffectiveDate moment) x ys)" for z
    proof (cases "z = x")
      case True
      with tx ty False show ?thesis by simp
    next
      case False
      with that have "z \<in> set ys" by (simp add: set_insertBy)
      with Cons.prems(1) show ?thesis by (auto simp: ascending_def)
    qed
    with ih False c show ?thesis by (auto simp: ascending_def)
  qed
qed

lemma sortBy_ascending:
  assumes "\<forall>y\<in>set xs. dateOf moment y \<noteq> None"
  shows "ascending moment (sortBy (compareEffectiveDate moment) xs)"
  using assms
proof (induction xs)
  case Nil
  then show ?case by (simp add: sortBy_def ascending_def)
next
  case (Cons x xs)
  have s: "sortBy (compareEffectiveDate moment) (x # xs) =
      insertBy (compareEffectiveDate moment) x (sortBy (compareEffectiveDate moment) xs)"
    by (simp add: sortBy_def)
  have "ascending moment (sortBy (compareEffectiveDate moment) xs)"
    using Cons by simp
  moreover have "\<forall>y\<in>set (x # sortBy (compareEffectiveDate moment) xs). dateOf moment y \<noteq> None"
    using Cons.prems by (simp add: set_sortBy)
  ultimately show ?case unfolding s by (rule insertBy_ascending)
qed

lemma length_withIndex: "length (withIndex fqs) = length fqs"
  by (simp add: withIndex_def)

lemma nth_withIndex:
  assumes "i < length fqs"
  shows "withIndex fqs ! i =
     \<lparr>pricingInfos = pricingInfos (fqs ! i), uapi_passenger_refs = uapi_passenger_refs (fqs ! i),
      common = common (fqs ! i), index = i + 1\<rparr>"
  using assms by (simp add: withIndex_def)

lemma truncate_withIndex: "map fare_quote_group.truncate (withIndex fqs) = fqs"
  by (rule nth_equalityI) (simp_all add: length_withIndex nth_withIndex fare_quote_group.truncate_def)

lemma index_withIndex: "map index (withIndex fqs) = map Suc [0 ..< length fqs]"
  by (rule nth_equalityI) (simp_all add: length_withIndex nth_withIndex del: upt_Suc)

lemma fqEffectiveDate_truncate: "fqEffectiveDate (fare_quote_group.truncate fq) = fqEffectiveDate fq"
  by (simp add: fqEffectiveDate_def fare_quote_group.truncate_def)

lemma ascending_truncate:
  "ascending moment (map fare_quote_group.truncate fqs) = ascending moment fqs"
  by (simp add: ascending_def sorted_wrt_map dateOf_def fqEffectiveDate_truncate)

lemma fareQuotesOf_index:
  "map index (fareQuotesOf moment c infos) = map Suc [0 ..< length (fareQuotesOf moment c infos)]"
  by (simp add: fareQuotesOf_def index_withIndex length_withIndex)

lemma fareQuotesOf_ascending:
  assumes "\<forall>fq\<in>set (fareQuotesOf moment c infos). dateOf moment fq \<noteq> None"
  shows "ascending moment (fareQuotesOf moment c infos)"
proof -
  let ?s = "sortBy (compareEffectiveDate moment) (fareQuoteGroups c infos)"
  have t: "map fare_quote_group.truncate (fareQuotesOf moment c infos) = ?s"
    by (simp add: fareQuotesOf_def truncate_withIndex)
  have "\<forall>g\<in>set ?s. dateOf moment g \<noteq> None"
  proof
    fix g assume "g \<in> set ?s"
    then obtain fq where "fq \<in> set (fareQuotesOf moment c infos)" "g = fare_quote_group.truncate fq"
      unfolding t[symmetric] by auto
    with assms show "dateOf moment g \<noteq> None"
      by (simp add: dateOf_def fqEffectiveDate_truncate)
  qed
  then have "\<forall>g\<in>set (fareQuoteGroups c infos). dateOf moment g \<noteq> None"
    by (simp add: set_sortBy)
  then have "ascending moment ?s" by (rule sortBy_ascending)
  then show ?thesis unfolding t[symmetric] ascending_truncate .
qed

lemma foldl_group_map_of:
  "map_of (foldl (\<lambda>acc p. AList.update (f p) ((case map_of acc (f p) of None \<Rightarrow> [] | Some g \<Rightarrow> g) @ [p]) acc)
            acc xs) k =
     (if k \<in> f ` set xs
      then Some ((case map_of acc k of None \<Rightarrow> [] | Some g \<Rightarrow> g) @ filter (\<lambda>p. f p = k) xs)
      else map_of acc k)"
proof (induction xs arbitrary: acc)
  case Nil
  then show ?case by simp
next
  case (Cons x xs)
  let ?acc = "AList.update (f x) ((case map_of acc (f x) of None \<Rightarrow> [] | Some g \<Rightarrow> g) @ [x]) acc"
  have m: "map_of ?acc k =
      (if k = f x then Some ((case map_of acc k of None \<Rightarrow> [] | Some g \<Rightarrow> g) @ [x]) else map_of acc k)"
    by (simp add: update_conv')
  have e: "filter (\<lambda>p. f p = k) xs = []" if "k \<notin> f ` set xs"
    using that by (auto simp: filter_empty_conv)
  show ?case
    unfolding foldl_Cons Cons.IH[of ?acc] m using e by auto
qed

lemma foldl_group_distinct:
  "distinct (map fst acc) \<Longrightarrow>
   distinct (map fst (foldl (\<lambda>acc p. AList.update (f p) (h acc p) acc) acc xs))"
  by (induction xs arbitrary: acc) (simp_all add: distinct_update)

lemma fareQuotesGrouped_map_of:
  "map_of (fareQuotesGrouped infos) k =
     (if k \<in> pricingInfoKey ` set infos then Some (filter (\<lambda>p. pricingInfoKey p = k) infos) else None)"
  unfolding fareQuotesGrouped_def pricingInfoKey_def[symmetric]
  using foldl_group_map_of[of pricingInfoKey "[]" infos k] by simp

lemma fareQuotesGrouped_distinct: "distinct (map fst (fareQuotesGrouped infos))"
  unfolding fareQuotesGrouped_def by (rule foldl_group_distinct) simp

lemma fareQuotesGrouped_entry:
  "(k, g) \<in> set (fareQuotesGrouped infos) \<longleftrightarrow>
     k \<in> pricingInfoKey ` set infos \<and> g = filter (\<lambda>p. pricingInfoKey p = k) infos"
proof -
  have "(k, g) \<in> set (fareQuotesGrouped infos) \<longleftrightarrow> map_of (fareQuotesGrouped infos) k = Some g"
    using fareQuotesGrouped_distinct by (simp add: map_of_eq_Some_iff)
  then show ?thesis unfolding fareQuotesGrouped_map_of by auto
qed

lemma set_objectEntries: "set (objectEntries obj) = set obj"
  by (auto simp: objectEntries_def)

lemma distinct_objectEntries:
  assumes "distinct (map fst obj)"
  shows "distinct (map fst (objectEntries obj))"
proof -
  from assms have d: "distinct obj" and i: "inj_on fst (set obj)"
    by (simp_all add: distinct_map)
  have "distinct (objectEntries obj)"
    using d by (auto simp: objectEntries_def)
  with i show ?thesis by (simp add: distinct_map set_objectEntries)
qed

lemma filter_key_nonempty:
  assumes "k \<in> pricingInfoKey ` set infos"
  shows "filter (\<lambda>p. pricingInfoKey p = k) infos \<noteq> []"
    and "pricingInfoKey (hd (filter (\<lambda>p. pricingInfoKey p = k) infos)) = k"
proof -
  show ne: "filter (\<lambda>p. pricingInfoKey p = k) infos \<noteq> []"
    using assms by (auto simp: filter_empty_conv)
  have "hd (filter (\<lambda>p. pricingInfoKey p = k) infos) \<in> set (filter (\<lambda>p. pricingInfoKey p = k) infos)"
    using ne by (rule hd_in_set)
  then show "pricingInfoKey (hd (filter (\<lambda>p. pricingInfoKey p = k) infos)) = k" by simp
qed

lemma fareQuoteGroups_member:
  assumes "g \<in> set (fareQuoteGroups c infos)"
  shows "groupKey g \<in> pricingInfoKey ` set infos \<and>
         pricingInfos g = filter (\<lambda>p. pricingInfoKey p = groupKey g) infos \<and>
         pricingInfos g \<noteq> [] \<and>
         common g = map_of c (groupKey g)"
proof -
  from assms obtain k gs where e: "(k, gs) \<in> set (fareQuotesGrouped infos)"
    and g: "pricingInfos g = gs" "common g = map_of c k"
    by (auto simp: fareQuoteGroups_def set_objectEntries)
  from e have k: "k \<in> pricingInfoKey ` set infos" and gs: "gs = filter (\<lambda>p. pricingInfoKey p = k) infos"
    by (simp_all add: fareQuotesGrouped_entry)
  have "groupKey g = k"
    unfolding groupKey_def g(1) gs by (rule filter_key_nonempty(2)[OF k])
  with k gs g filter_key_nonempty(1)[OF k] show ?thesis by simp
qed

lemma fareQuoteGroups_keys:
  "map groupKey (fareQuoteGroups c infos) = map fst (objectEntries (fareQuotesGrouped infos))"
proof -
  have "groupKey \<lparr>pricingInfos = snd e,
          uapi_passenger_refs = concat (map (\<lambda>fq. map pp_uapi_passenger_ref (bp_passengers fq)) (snd e)),
          common = map_of c (fst e)\<rparr> = fst e"
    if "e \<in> set (objectEntries (fareQuotesGrouped infos))" for e
  proof -
    obtain k gs where kg: "e = (k, gs)" by (cases e)
    with that have "(k, gs) \<in> set (fareQuotesGrouped infos)"
      by (simp add: set_objectEntries)
    then have "k \<in> pricingInfoKey ` set infos \<and> gs = filter (\<lambda>p. pricingInfoKey p = k) infos"
      by (simp only: fareQuotesGrouped_entry)
    with kg have k: "fst e \<in> pricingInfoKey ` set infos"
      and gs: "snd e = filter (\<lambda>p. pricingInfoKey p = fst e) infos"
      by simp_all
    show ?thesis
      unfolding groupKey_def using filter_key_nonempty(2)[OF k] gs by simp
  qed
  then show ?thesis by (simp add: fareQuoteGroups_def)
qed

lemma fareQuoteGroups_distinct: "distinct (map groupKey (fareQuoteGroups c infos))"
  unfolding fareQuoteGroups_keys
  by (rule distinct_objectEntries) (rule fareQuotesGrouped_distinct)

lemma fareQuoteGroups_cover:
  assumes "k \<in> pricingInfoKey ` set infos"
  shows "k \<in> groupKey ` set (fareQuoteGroups c infos)"
proof -
  have "(k, filter (\<lambda>p. pricingInfoKey p = k) infos) \<in> set (fareQuotesGrouped infos)"
    using assms by (simp add: fareQuotesGrouped_entry)
  then have "k \<in> fst ` set (objectEntries (fareQuotesGrouped infos))"
    unfolding set_objectEntries by force
  then have "k \<in> set (map groupKey (fareQuoteGroups c infos))"
    unfolding fareQuoteGroups_keys by simp
  then show ?thesis by simp
qed

lemma truncate_fields:
  "pricingInfos (fare_quote_group.truncate fq) = pricingInfos fq"
  "common (fare_quote_group.truncate fq) = common fq"
  "groupKey (fare_quote_group.truncate fq) = groupKey fq"
  by (simp_all add: fare_quote_group.truncate_def groupKey_def)

lemma fareQuotesOf_truncate:
  "map fare_quote_group.truncate (fareQuotesOf moment c infos) =
   sortBy (compareEffectiveDate moment) (fareQuoteGroups c infos)"
  by (simp add: fareQuotesOf_def truncate_withIndex)

lemma fareQuotesOf_member:
  assumes "fq \<in> set (fareQuotesOf moment c infos)"
  shows "groupKey fq \<in> pricingInfoKey ` set infos \<and>
         pricingInfos fq = filter (\<lambda>p. pricingInfoKey p = groupKey fq) infos \<and>
         pricingInfos fq \<noteq> [] \<and>
         common fq = map_of c (groupKey fq)"
proof -
  have "fare_quote_group.truncate fq \<in> set (map fare_quote_group.truncate (fareQuotesOf moment c infos))"
    using assms by simp
  then have "fare_quote_group.truncate fq \<in> set (fareQuoteGroups c infos)"
    unfolding fareQuotesOf_truncate set_sortBy .
  from fareQuoteGroups_member[OF this] show ?thesis unfolding truncate_fields .
qed

lemma fareQuotesOf_distinct: "distinct (map groupKey (fareQuotesOf moment c infos))"
proof -
  have "map groupKey (fareQuotesOf moment c infos) =
        map groupKey (map fare_quote_group.truncate (fareQuotesOf moment c infos))"
    by (simp add: truncate_fields comp_def)
  then show ?thesis
    unfolding fareQuotesOf_truncate by (simp add: distinct_map_sortBy fareQuoteGroups_distinct)
qed

lemma fareQuotesOf_cover:
  assumes "k \<in> pricingInfoKey ` set infos"
  shows "k \<in> groupKey ` set (fareQuotesOf moment c infos)"
proof -
  have "groupKey ` set (fareQuotesOf moment c infos) =
        groupKey ` set (map fare_quote_group.truncate (fareQuotesOf moment c infos))"
    by (simp add: image_image truncate_fields)
  also have "\<dots> = groupKey ` set (fareQuoteGroups c infos)"
    unfolding fareQuotesOf_truncate set_sortBy ..
  finally show ?thesis using fareQuoteGroups_cover[OF assms] by simp
qed

lemma pricingInfoOf_Inr:
  assumes "pricingInfoOf tm tks e = Inr pc"
  shows "bp_uapi_pricing_info_ref (fst pc) = fst e \<and>
         uapi_pricing_info_group (fst pc) = AirPricingInfoGroup (snd e) \<and>
         effectiveDate (snd pc) = firstComponentDate (snd e)"
  using assms
  by (auto simp: pricingInfoOf_def firstComponentDate_def firstFareInfoOf_def split: option.splits)

lemma pricingInfoOf_Inl:
  assumes "pricingInfoOf tm tks e = Inl err"
  shows "err = TypeError"
  using assms
  by (auto simp: pricingInfoOf_def split: option.splits)

lemma pricingInfosFrom_Inl:
  "pricingInfosFrom tm tks c0 es = Inl err \<Longrightarrow> err = TypeError"
proof (induction es arbitrary: c0)
  case Nil
  then show ?case by simp
next
  case (Cons e es)
  then show ?case
    by (auto split: sum.splits dest: pricingInfoOf_Inl)
qed

lemma pricingInfosFrom_aligned:
  "pricingInfosFrom tm tks c0 es = Inr r \<Longrightarrow>
     map bp_uapi_pricing_info_ref (fst r) = map fst es \<and>
     map pricingInfoKey (fst r) = map entryKey es"
proof (induction es arbitrary: c0 r)
  case Nil
  then show ?case by auto
next
  case (Cons e es)
  from Cons.prems obtain pc rest where pc: "pricingInfoOf tm tks e = Inr pc"
    and rest: "pricingInfosFrom tm tks (AList.update (propertyKey (AirPricingInfoGroup (snd e))) (snd pc) c0) es
                 = Inr rest"
    and r: "r = (fst pc # fst rest, snd rest)"
    by (auto split: sum.splits)
  from Cons.IH[OF rest] pricingInfoOf_Inr[OF pc] r show ?case
    by (simp add: pricingInfoKey_def entryKey_def)
qed

lemma pricingInfosFrom_common:
  "pricingInfosFrom tm tks c0 es = Inr r \<Longrightarrow>
     (if k \<in> entryKey ` set es
      then \<exists>c. map_of (snd r) k = Some c \<and>
             effectiveDate c = firstComponentDate (snd (last (filter (\<lambda>e. entryKey e = k) es)))
      else map_of (snd r) k = map_of c0 k)"
proof (induction es arbitrary: c0 r)
  case Nil
  then show ?case by auto
next
  case (Cons e es)
  let ?c1 = "\<lambda>pc. AList.update (propertyKey (AirPricingInfoGroup (snd e))) (snd pc) c0"
  from Cons.prems obtain pc rest where pc: "pricingInfoOf tm tks e = Inr pc"
    and rest: "pricingInfosFrom tm tks (?c1 pc) es = Inr rest"
    and r: "r = (fst pc # fst rest, snd rest)"
    by (auto split: sum.splits)
  note ih = Cons.IH[OF rest]
  have m: "map_of (?c1 pc) k = (if k = entryKey e then Some (snd pc) else map_of c0 k)"
    by (simp add: update_conv' entryKey_def)
  show ?case
  proof (cases "k \<in> entryKey ` set es")
    case True
    then have ne: "filter (\<lambda>e. entryKey e = k) es \<noteq> []" by (auto simp: filter_empty_conv)
    then have "last (filter (\<lambda>e. entryKey e = k) (e # es)) = last (filter (\<lambda>e. entryKey e = k) es)"
      by simp
    with ih True r show ?thesis by simp
  next
    case False
    then have e: "filter (\<lambda>e. entryKey e = k) es = []" by (auto simp: filter_empty_conv)
    from ih False have s: "map_of (snd rest) k = map_of (?c1 pc) k" by simp
    show ?thesis
    proof (cases "k = entryKey e")
      case True
      with s m r e pricingInfoOf_Inr[OF pc] show ?thesis by simp
    next
      case False
      with s m r \<open>k \<notin> entryKey ` set es\<close> show ?thesis by simp
    qed
  qed
qed

lemma filter_aligned:
  assumes "map f xs = map g ys" and "map h xs = map h' ys"
  shows "map h (filter (\<lambda>x. f x = k) xs) = map h' (filter (\<lambda>y. g y = k) ys)"
  using assms
proof (induction xs arbitrary: ys)
  case Nil
  then show ?case by simp
next
  case (Cons x xs)
  then obtain y ys' where ys: "ys = y # ys'" by (cases ys) auto
  with Cons.prems have "f x = g y" "h x = h' y" "map f xs = map g ys'" "map h xs = map h' ys'"
    by simp_all
  with Cons.IH[of ys'] ys show ?case by simp
qed

lemma allInr_map:
  "allInr (map f xs) = Inr vs \<Longrightarrow> map f xs = map Inr vs"
proof (induction xs arbitrary: vs)
  case Nil
  then show ?case by simp
next
  case (Cons x xs)
  then show ?case by (auto split: sum.splits)
qed

lemma allInr_member:
  assumes "allInr (map f xs) = Inr vs" and "v \<in> set vs"
  shows "\<exists>x\<in>set xs. f x = Inr v"
proof -
  from assms(2) have "Inr v \<in> set (map Inr vs)" by simp
  then have "Inr v \<in> set (map f xs)" unfolding allInr_map[OF assms(1)] .
  then show ?thesis by auto
qed

lemma allInr_Inl: "allInr xs = Inl e \<Longrightarrow> Inl e \<in> set xs"
  by (induction xs) (auto split: sum.splits)

lemma bookingOf_no_provider_info:
  assumes "providerInfoOf record booking = None"
  shows "bookingOf moment record booking = Inl TypeError"
  using assms by (simp add: bookingOf_def providerInfoOf_def Let_def split: option.splits)

lemma bookingOf_Inl:
  assumes "bookingOf moment record booking = Inl e"
  shows "e = TypeError \<or> e = AirRuntimeError TravelersListError NoPayload"
proof (cases "providerInfoOf record booking")
  case None
  with assms show ?thesis by (simp add: bookingOf_no_provider_info)
next
  case (Some info)
  then obtain ri where ri: "ProviderReservationInfo record = Some ri"
    "map_of ri (propertyKey (ProviderReservationInfoRef booking)) = Some info"
    by (auto simp: providerInfoOf_def split: option.splits)
  show ?thesis
  proof (cases "BookingTravelerRef booking")
    case None
    with assms ri show ?thesis by (simp add: bookingOf_def)
  next
    case (Some refs)
    let ?ps = "map (\<lambda>travellerRef.
                  case BookingTraveler record of
                    None \<Rightarrow> (Inl TypeError :: ur_document error + traveler)
                  | Some travelers \<Rightarrow>
                      (case map_of travelers travellerRef of
                         None \<Rightarrow> Inl (AirRuntimeError TravelersListError NoPayload)
                       | Some traveler \<Rightarrow> Inr traveler)) refs"
    show ?thesis
    proof (cases "allInr ?ps")
      case (Inl e')
      with assms ri Some have "e = e'" by (simp add: bookingOf_def)
      moreover from allInr_Inl[OF Inl] have "e' = TypeError \<or> e' = AirRuntimeError TravelersListError NoPayload"
        by (auto split: option.splits)
      ultimately show ?thesis by simp
    next
      case (Inr passengers)
      with assms ri Some obtain e' where
        "pricingInfosFrom (TicketingModifiers booking) (bookingTickets booking) []
           (case ar_AirPricingInfo booking of None \<Rightarrow> [] | Some infos \<Rightarrow> infos) = Inl e'" "e = e'"
        by (auto simp: bookingOf_def split: sum.splits)
      then show ?thesis using pricingInfosFrom_Inl by blast
    qed
  qed
qed

lemma bookingOf_Inr:
  assumes "bookingOf moment record booking = Inr b"
  shows "\<exists>r. pricingInfosFrom (TicketingModifiers booking) (bookingTickets booking) [] (entriesOf booking) = Inr r \<and>
             fareQuotes b = fareQuotesOf moment (snd r) (fst r) \<and>
             b_uapi_reservation_locator b = LocatorCode booking"
proof -
  have "providerInfoOf record booking \<noteq> None"
    using assms bookingOf_no_provider_info[of "record" booking moment] by auto
  then obtain info where "providerInfoOf record booking = Some info" by blast
  then obtain ri where ri: "ProviderReservationInfo record = Some ri"
    "map_of ri (propertyKey (ProviderReservationInfoRef booking)) = Some info"
    by (auto simp: providerInfoOf_def split: option.splits)
  from assms ri obtain refs where refs: "BookingTravelerRef booking = Some refs"
    by (cases "BookingTravelerRef booking") (simp_all add: bookingOf_def)
  from assms ri refs show ?thesis
    by (auto simp: bookingOf_def entriesOf_def split: sum.splits)
qed

lemma allInr_nth:
  assumes "allInr (map f xs) = Inr vs"
  shows "length vs = length xs \<and> (\<forall>i<length vs. f (xs ! i) = Inr (vs ! i))"
proof -
  from allInr_map[OF assms] have m: "map f xs = map Inr vs" .
  then have l: "length vs = length xs" by (metis length_map)
  moreover have "f (xs ! i) = Inr (vs ! i)" if "i < length vs" for i
  proof -
    have "f (xs ! i) = map f xs ! i" using that l by simp
    also have "\<dots> = map Inr vs ! i" unfolding m ..
    also have "\<dots> = Inr (vs ! i)" using that by simp
    finally show ?thesis .
  qed
  ultimately show ?thesis by blast
qed

lemma extractBookings_Inr:
  assumes "extractBookings moment obj = Inr bs"
  shows "\<exists>record. UniversalRecord obj = Some record \<and>
           (if (case AirReservation record of None \<Rightarrow> [] | Some rs \<Rightarrow> rs) = []
            then \<forall>b\<in>set bs. fareQuotes b = []
            else allInr (map (bookingOf moment record)
                           (case AirReservation record of None \<Rightarrow> [] | Some rs \<Rightarrow> rs)) = Inr bs)"
proof -
  from assms obtain ur where ur: "UniversalRecord obj = Some ur"
    by (cases "UniversalRecord obj") (auto simp: extractBookings_def Let_def split: option.splits if_splits)
  show ?thesis
  proof (cases "(case AirReservation ur of None \<Rightarrow> [] | Some rs \<Rightarrow> rs) = []")
    case True
    then have "\<not> (case AirReservation ur of None \<Rightarrow> False | Some rs \<Rightarrow> rs \<noteq> [])"
      by (auto split: option.splits)
    with assms ur True show ?thesis
      by (auto simp: extractBookings_def Let_def split: option.splits if_splits)
  next
    case False
    then have "case AirReservation ur of None \<Rightarrow> False | Some rs \<Rightarrow> rs \<noteq> []"
      by (auto split: option.splits)
    with assms ur False show ?thesis
      by (auto simp: extractBookings_def Let_def split: option.splits if_splits)
  qed
qed

lemma extractBookings_Inl:
  assumes "extractBookings moment obj = Inl e"
  shows "e \<noteq> AirParsingError ReservationProviderInfoMissing"
proof
  assume e: "e = AirParsingError ReservationProviderInfoMissing"
  have cm: "checkMessages obj ms ms' \<noteq> Some (AirParsingError ReservationProviderInfoMissing)" for ms ms'
    by (induction ms') auto
  from assms e cm obtain ur where ur: "UniversalRecord obj = Some ur"
    by (cases "UniversalRecord obj") (auto simp: extractBookings_def Let_def split: option.splits if_splits)
  from assms e cm ur obtain reservations where
    "allInr (map (bookingOf moment ur) reservations) = Inl (AirParsingError ReservationProviderInfoMissing)"
    by (auto simp: extractBookings_def Let_def split: option.splits if_splits)
  from allInr_Inl[OF this] obtain booking where
    "bookingOf moment ur booking = Inl (AirParsingError ReservationProviderInfoMissing)"
    by auto
  from bookingOf_Inl[OF this] show False by simp
qed

lemma bookingOf_fareQuotes:
  assumes bo: "bookingOf moment ur booking = Inr b"
  shows "b_uapi_reservation_locator b = LocatorCode booking \<and>
         map index (fareQuotes b) = map Suc [0 ..< length (fareQuotes b)] \<and>
         distinct (map groupKey (fareQuotes b)) \<and>
         (\<forall>fq\<in>set (fareQuotes b).
            pricingInfos fq \<noteq> [] \<and>
            (\<forall>p\<in>set (pricingInfos fq). pricingInfoKey p = groupKey fq) \<and>
            map bp_uapi_pricing_info_ref (pricingInfos fq) =
              map fst (filter (\<lambda>e. entryKey e = groupKey fq) (entriesOf booking)) \<and>
            fqEffectiveDate fq =
              firstComponentDate
                (snd (last (filter (\<lambda>e. entryKey e = groupKey fq) (entriesOf booking))))) \<and>
         (\<forall>e\<in>set (entriesOf booking). entryKey e \<in> groupKey ` set (fareQuotes b)) \<and>
         ((\<forall>fq\<in>set (fareQuotes b). moment (fqEffectiveDate fq) \<noteq> None) \<longrightarrow>
            ascending moment (fareQuotes b))"
proof -
  from bookingOf_Inr[OF bo] obtain r where
    r: "pricingInfosFrom (TicketingModifiers booking) (bookingTickets booking) [] (entriesOf booking) = Inr r"
    and fq: "fareQuotes b = fareQuotesOf moment (snd r) (fst r)"
    and loc: "b_uapi_reservation_locator b = LocatorCode booking"
    by blast
  let ?es = "entriesOf booking"
  note al = pricingInfosFrom_aligned[OF r]
  have keys: "pricingInfoKey ` set (fst r) = entryKey ` set ?es"
  proof -
    have "set (map pricingInfoKey (fst r)) = set (map entryKey ?es)" using al by simp
    then show ?thesis by simp
  qed
  have i: "map index (fareQuotes b) = map Suc [0 ..< length (fareQuotes b)]"
    unfolding fq by (rule fareQuotesOf_index)
  have a: "ascending moment (fareQuotes b)"
    if "\<forall>fq\<in>set (fareQuotes b). moment (fqEffectiveDate fq) \<noteq> None"
    unfolding fq by (rule fareQuotesOf_ascending) (use that fq in \<open>simp add: dateOf_def\<close>)
  have d: "distinct (map groupKey (fareQuotes b))"
    unfolding fq by (rule fareQuotesOf_distinct)
  have m: "pricingInfos q \<noteq> [] \<and>
      (\<forall>p\<in>set (pricingInfos q). pricingInfoKey p = groupKey q) \<and>
      map bp_uapi_pricing_info_ref (pricingInfos q) =
        map fst (filter (\<lambda>e. entryKey e = groupKey q) ?es) \<and>
      fqEffectiveDate q =
        firstComponentDate (snd (last (filter (\<lambda>e. entryKey e = groupKey q) ?es)))"
    if q: "q \<in> set (fareQuotes b)" for q
  proof -
    from q have q': "q \<in> set (fareQuotesOf moment (snd r) (fst r))" unfolding fq .
    note mem = fareQuotesOf_member[OF q']
    from mem have k: "groupKey q \<in> entryKey ` set ?es" unfolding keys by blast
    from mem have p: "pricingInfos q = filter (\<lambda>p. pricingInfoKey p = groupKey q) (fst r)" by blast
    have 1: "pricingInfos q \<noteq> []" using mem by blast
    have 2: "\<forall>p\<in>set (pricingInfos q). pricingInfoKey p = groupKey q"
      unfolding p by simp
    have 3: "map bp_uapi_pricing_info_ref (pricingInfos q) =
        map fst (filter (\<lambda>e. entryKey e = groupKey q) ?es)"
      unfolding p using al by (intro filter_aligned) simp_all
    from pricingInfosFrom_common[OF r, of "groupKey q"] k obtain c where
      c: "map_of (snd r) (groupKey q) = Some c"
         "effectiveDate c =
            firstComponentDate (snd (last (filter (\<lambda>e. entryKey e = groupKey q) ?es)))"
      by auto
    from mem c(1) have "common q = Some c" by simp
    then have 4: "fqEffectiveDate q =
        firstComponentDate (snd (last (filter (\<lambda>e. entryKey e = groupKey q) ?es)))"
      using c(2) by (simp add: fqEffectiveDate_def)
    from 1 2 3 4 show ?thesis by blast
  qed
  have cov: "entryKey e \<in> groupKey ` set (fareQuotes b)" if "e \<in> set ?es" for e
  proof -
    from that have "entryKey e \<in> pricingInfoKey ` set (fst r)" unfolding keys by simp
    then show ?thesis unfolding fq by (rule fareQuotesOf_cover)
  qed
  from loc i d m cov a show ?thesis by blast
qed

text \<open>
  A pricing info without \<^verbatim>\<open>air:FareInfo\<close> is normalized: its group gets no effective
  date, endorsement or tour code.
\<close>

lemma pricingInfoOf_without_fare_info:
  assumes "FareInfo (snd e) = None" and "modifiersOf tm (snd e) = Some m"
    and "fareCalcOf (snd e) = Some fc"
  shows "\<exists>p c. pricingInfoOf tm tks e = Inr (p, c) \<and> effectiveDate c = None \<and>
           endorsement c = None \<and> tourCode c = None"
  using assms by (simp add: pricingInfoOf_def firstFareInfoOf_def)

text \<open>
  A date that \<^verbatim>\<open>moment\<close> does not parse makes the comparison \<^verbatim>\<open>NaN\<close>, which the sort
  takes for zero: here the quote effective on 1 January stays behind the one effective
  on 5 January. The order of the fare quotes is therefore stated for dates that parse.
\<close>

lemma sortBy_unparsed_date:
  "map fqEffectiveDate
     (sortBy (compareEffectiveDate exampleMoment)
        [quoteEffective ''2020-01-05T00:00:00.000+00:00'', quoteEffective ''soon'',
         quoteEffective ''2020-01-01T00:00:00.000+00:00'']) =
     [Some ''2020-01-05T00:00:00.000+00:00'', Some ''soon'', Some ''2020-01-01T00:00:00.000+00:00''] \<and>
   exampleMoment (Some ''soon'') = None"
  by code_simp

text \<open>
  C1, as stated, fails. Group 1 has the pricing infos P1 (first fare component effective
  on 5 January) and P2 (1 January), group 2 has P3 (3 January). The fare quote of group 1
  is returned first, with index 1, although the first fare component of the group is
  effective later than the one of group 2: the date the code sorts by is P2's.
\<close>

theorem fareQuotes_order_ignores_first_pricing_info:
  "map_sum id
     (map (\<lambda>b. map (\<lambda>fq. (map bp_uapi_pricing_info_ref (pricingInfos fq), index fq)) (fareQuotes b)))
     (extractBookings exampleMoment (exampleRecord ''PRI1'')) =
     Inr [[([''P1'', ''P2''], 1), ([''P3''], 2)]] \<and>
   map (\<lambda>e. (fst e, AirPricingInfoGroup (snd e), exampleMoment (firstComponentDate (snd e))))
     (entriesOf (exampleReservation ''PRI1'')) =
     [(''P1'', Some ''1'', Some 1578182400000),
      (''P2'', Some ''1'', Some 1577836800000),
      (''P3'', Some ''2'', Some 1578009600000)] \<and>
   \<not> (1578182400000 \<le> (1578009600000 :: int))"
  by code_simp

text \<open>
  C1, amended. \<^verbatim>\<open>extractBookings\<close> returns one booking for each air reservation of the
  record, in their order (and bookings without fare quotes when the record has no air
  reservation). For each of them: the fare quotes carry the indices 1, 2, ... in their
  order; their group keys are distinct; every fare quote holds exactly the pricing infos
  of the reservation with its group key, in their order, and there is at least one; every
  pricing info of the reservation is in a fare quote; the effective date of a fare quote
  is the one of the first fare component of the last pricing info of its group (every
  pricing info overwrites \<^verbatim>\<open>fareQuotesCommon\<close> of its group); and when \<^verbatim>\<open>moment\<close>
  parses the effective dates of all the fare quotes, they are in ascending order of the
  parsed date.
\<close>

theorem fareQuotes_grouped_sorted_indexed:
  assumes "extractBookings moment obj = Inr bs"
  shows "\<exists>record reservations.
           UniversalRecord obj = Some record \<and>
           reservations = (case AirReservation record of None \<Rightarrow> [] | Some rs \<Rightarrow> rs) \<and>
           (if reservations = [] then \<forall>b\<in>set bs. fareQuotes b = []
            else length bs = length reservations \<and>
              (\<forall>i<length bs.
                 b_uapi_reservation_locator (bs ! i) = LocatorCode (reservations ! i) \<and>
                 map index (fareQuotes (bs ! i)) = map Suc [0 ..< length (fareQuotes (bs ! i))] \<and>
                 distinct (map groupKey (fareQuotes (bs ! i))) \<and>
                 (\<forall>fq\<in>set (fareQuotes (bs ! i)).
                    pricingInfos fq \<noteq> [] \<and>
                    (\<forall>p\<in>set (pricingInfos fq). pricingInfoKey p = groupKey fq) \<and>
                    map bp_uapi_pricing_info_ref (pricingInfos fq) =
                      map fst (filter (\<lambda>e. entryKey e = groupKey fq) (entriesOf (reservations ! i))) \<and>
                    fqEffectiveDate fq =
                      firstComponentDate
                        (snd (last (filter (\<lambda>e. entryKey e = groupKey fq)
                                      (entriesOf (reservations ! i)))))) \<and>
                 (\<forall>e\<in>set (entriesOf (reservations ! i)).
                    entryKey e \<in> groupKey ` set (fareQuotes (bs ! i))) \<and>
                 ((\<forall>fq\<in>set (fareQuotes (bs ! i)). moment (fqEffectiveDate fq) \<noteq> None) \<longrightarrow>
                    ascending moment (fareQuotes (bs ! i)))))"
proof -
  from extractBookings_Inr[OF assms] obtain ur where
    ur: "UniversalRecord obj = Some ur"
    and c: "if (case AirReservation ur of None \<Rightarrow> [] | Some rs \<Rightarrow> rs) = []
            then \<forall>b\<in>set bs. fareQuotes b = []
            else allInr (map (bookingOf moment ur)
                           (case AirReservation ur of None \<Rightarrow> [] | Some rs \<Rightarrow> rs)) = Inr bs"
    by blast
  let ?rs = "case AirReservation ur of None \<Rightarrow> [] | Some rs \<Rightarrow> rs"
  show ?thesis
  proof (cases "?rs = []")
    case True
    with c ur show ?thesis by auto
  next
    case False
    with c have a: "allInr (map (bookingOf moment ur) ?rs) = Inr bs" by simp
    note n = allInr_nth[OF a]
    have "bookingOf moment ur (?rs ! i) = Inr (bs ! i)" if "i < length bs" for i
      using n that by blast
    from bookingOf_fareQuotes[OF this] n ur False show ?thesis
      by (intro exI[of _ ur] exI[of _ ?rs]) simp
  qed
qed

text \<open>
  On the same record the two fare quotes have the indices 1 and 2 and the dates
  1 January and 3 January.
\<close>

theorem fareQuotes_grouped_sorted_indexed_witness:
  "map index (fareQuotes (hd (projr (extractBookings exampleMoment (exampleRecord ''PRI1''))))) = [1, 2] \<and>
   ascending exampleMoment
     (fareQuotes (hd (projr (extractBookings exampleMoment (exampleRecord ''PRI1''))))) \<and>
   map fqEffectiveDate
     (fareQuotes (hd (projr (extractBookings exampleMoment (exampleRecord ''PRI1''))))) =
     [Some ''2020-01-01T00:00:00.000+00:00'', Some ''2020-01-03T00:00:00.000+00:00'']"
proof -
  let ?r = "extractBookings exampleMoment (exampleRecord ''PRI1'')"
  let ?b = "hd (projr ?r)"
  have "\<not> isl ?r" by code_simp
  then have e: "?r = Inr (projr ?r)" by simp
  have l: "length (projr ?r) = 1" by code_simp
  then have b: "projr ?r ! 0 = ?b" by (cases "projr ?r") simp_all
  have dates: "map fqEffectiveDate (fareQuotes ?b) =
      [Some ''2020-01-01T00:00:00.000+00:00'', Some ''2020-01-03T00:00:00.000+00:00'']"
    by code_simp
  have v: "\<forall>fq\<in>set (fareQuotes ?b). exampleMoment (fqEffectiveDate fq) \<noteq> None"
  proof
    fix fq assume "fq \<in> set (fareQuotes ?b)"
    then have "fqEffectiveDate fq \<in> set (map fqEffectiveDate (fareQuotes ?b))" by simp
    then have "fqEffectiveDate fq = Some ''2020-01-01T00:00:00.000+00:00'' \<or>
        fqEffectiveDate fq = Some ''2020-01-03T00:00:00.000+00:00''"
      unfolding dates by simp
    then show "exampleMoment (fqEffectiveDate fq) \<noteq> None"
      by (auto simp: exampleMoment_def)
  qed
  have len: "length (fareQuotes ?b) = 2"
    using arg_cong[OF dates, of length] by simp
  from fareQuotes_grouped_sorted_indexed[OF e] obtain ur rs where
    ur: "UniversalRecord (exampleRecord ''PRI1'') = Some ur"
    and rs: "rs = (case AirReservation ur of None \<Rightarrow> [] | Some rs \<Rightarrow> rs)"
    and c: "if rs = [] then \<forall>b\<in>set (projr ?r). fareQuotes b = []
            else length (projr ?r) = length rs \<and>
              (\<forall>i<length (projr ?r).
                 b_uapi_reservation_locator (projr ?r ! i) = LocatorCode (rs ! i) \<and>
                 map index (fareQuotes (projr ?r ! i)) = map Suc [0 ..< length (fareQuotes (projr ?r ! i))] \<and>
                 distinct (map groupKey (fareQuotes (projr ?r ! i))) \<and>
                 (\<forall>fq\<in>set (fareQuotes (projr ?r ! i)).
                    pricingInfos fq \<noteq> [] \<and>
                    (\<forall>p\<in>set (pricingInfos fq). pricingInfoKey p = groupKey fq) \<and>
                    map bp_uapi_pricing_info_ref (pricingInfos fq) =
                      map fst (filter (\<lambda>e. entryKey e = groupKey fq) (entriesOf (rs ! i))) \<and>
                    fqEffectiveDate fq =
                      firstComponentDate
                        (snd (last (filter (\<lambda>e. entryKey e = groupKey fq) (entriesOf (rs ! i)))))) \<and>
                 (\<forall>e\<in>set (entriesOf (rs ! i)).
                    entryKey e \<in> groupKey ` set (fareQuotes (projr ?r ! i))) \<and>
                 ((\<forall>fq\<in>set (fareQuotes (projr ?r ! i)). exampleMoment (fqEffectiveDate fq) \<noteq> None) \<longrightarrow>
                    ascending exampleMoment (fareQuotes (projr ?r ! i))))"
    by blast
  from ur rs have "rs = [exampleReservation ''PRI1'']"
    by (auto simp: exampleRecord_def)
  then have ne: "rs \<noteq> []" by simp
  have z: "0 < length (projr ?r)" using l by simp
  from c[unfolded if_not_P[OF ne]] z have
    "map index (fareQuotes (projr ?r ! 0)) = map Suc [0 ..< length (fareQuotes (projr ?r ! 0))] \<and>
     ((\<forall>fq\<in>set (fareQuotes (projr ?r ! 0)). exampleMoment (fqEffectiveDate fq) \<noteq> None) \<longrightarrow>
        ascending exampleMoment (fareQuotes (projr ?r ! 0)))"
    by blast
  then have t: "map index (fareQuotes ?b) = map Suc [0 ..< length (fareQuotes ?b)]"
      "ascending exampleMoment (fareQuotes ?b)"
    unfolding b using v by blast+
  from t(1) have i: "map index (fareQuotes ?b) = [1, 2]"
    unfolding len by (simp add: upt_rec)
  from i t(2) dates show ?thesis by blast
qed

text \<open>
  C8. An air reservation that refers to a provider info the record does not have makes
  \<^verbatim>\<open>extractBookings\<close> fail with the \<^verbatim>\<open>TypeError\<close> of reading \<^verbatim>\<open>providerInfo.Key\<close>
  (line 931), not with \<^verbatim>\<open>ReservationProviderInfoMissing\<close>: the test of line 953 comes
  too late, and no input at all makes \<^verbatim>\<open>extractBookings\<close> throw that error.
\<close>

theorem extractBookings_missing_provider_info:
  "extractBookings moment (exampleRecord ''PRI2'') = Inl TypeError \<and>
   (\<forall>obj. extractBookings moment obj \<noteq> Inl (AirParsingError ReservationProviderInfoMissing))"
proof
  show "extractBookings moment (exampleRecord ''PRI2'') = Inl TypeError"
    by (simp add: extractBookings_def exampleRecord_def exampleReservation_def bookingOf_def
        propertyKey_def)
  show "\<forall>obj. extractBookings moment obj \<noteq> Inl (AirParsingError ReservationProviderInfoMissing)"
    using extractBookings_Inl by blast
qed

subsection \<open>The ticketing machine\<close>

declare ticketLoop.simps [simp del]

lemma ticketLoop_step:
  "ticketLoop ticket (machineState t f r fr br) =
     (case ticket t of
        Issued \<Rightarrow> (None, machineState (t + 1) f r fr br)
      | Rejected failure \<Rightarrow>
          if failure = TicketingFoidRequired \<and> fr = 0 then ticketLoop ticket (machineState (t + 1) (f + 1) (r + 1) 1 br)
          else if failure = TicketingPNRBusy \<and> br = 0 then ticketLoop ticket (machineState (t + 1) f r fr 1)
          else (Some failure, machineState (t + 1) f r fr br))"
  by (subst ticketLoop.simps) (simp add: machineState_def split: ticket_outcome.splits)

lemma initialState_machineState: "initialState = machineState 0 0 0 0 0"
  by (simp add: initialState_def machineState_def)

lemma ticketLoop_closed_form:
  "ticketLoop ticket initialState =
     (case ticket 0 of
        Issued \<Rightarrow> (None, machineState 1 0 0 0 0)
      | Rejected f0 \<Rightarrow>
          if f0 = TicketingFoidRequired then
            (case ticket 1 of
               Issued \<Rightarrow> (None, machineState 2 1 1 1 0)
             | Rejected f1 \<Rightarrow>
                 if f1 = TicketingPNRBusy then
                   (case ticket 2 of
                      Issued \<Rightarrow> (None, machineState 3 1 1 1 1)
                    | Rejected f2 \<Rightarrow> (Some f2, machineState 3 1 1 1 1))
                 else (Some f1, machineState 2 1 1 1 0))
          else if f0 = TicketingPNRBusy then
            (case ticket 1 of
               Issued \<Rightarrow> (None, machineState 2 0 0 0 1)
             | Rejected f1 \<Rightarrow>
                 if f1 = TicketingFoidRequired then
                   (case ticket 2 of
                      Issued \<Rightarrow> (None, machineState 3 1 1 1 1)
                    | Rejected f2 \<Rightarrow> (Some f2, machineState 3 1 1 1 1))
                 else (Some f1, machineState 2 0 0 0 1))
          else (Some f0, machineState 1 0 0 0 0))"
  unfolding initialState_machineState
  by (simp add: ticketLoop_step eval_nat_numeral split: ticket_outcome.splits)

lemma upt_2: "[0 ..< 2] = [0, 1]" by (simp add: upt_rec)

text \<open>
  C9, as stated, fails on the count of the re-fetches. When ticket issue is rejected with
  \<^verbatim>\<open>TicketingPNRBusy\<close>, then with \<^verbatim>\<open>TicketingFoidRequired\<close>, and then succeeds, the
  booking is fetched twice in all: at entry, and once again for the FOID rejection. It is
  re-fetched once, not twice; a rejection with \<^verbatim>\<open>TicketingPNRBusy\<close> is retried without
  a fetch, as the run with that rejection alone shows.
\<close>

theorem ticketMachine_busy_without_refetch:
  "ticketMachine (projr (extractBookings exampleMoment (exampleRecord ''PRI1''))) busyThenFoid =
     (Done, \<lparr>currencyFetches = 1, ticketCalls = 3, foidCalls = 1, bookingRefetches = 1,
             foidRetries = 1, busyRetries = 1\<rparr>) \<and>
   ticketMachine (projr (extractBookings exampleMoment (exampleRecord ''PRI1'')))
     (outcomes [Rejected TicketingPNRBusy]) =
     (Done, \<lparr>currencyFetches = 1, ticketCalls = 2, foidCalls = 0, bookingRefetches = 0,
             foidRetries = 0, busyRetries = 1\<rparr>) \<and>
   busyThenFoid 0 = Rejected TicketingPNRBusy \<and> busyThenFoid 1 = Rejected TicketingFoidRequired \<and>
   busyThenFoid 2 = Issued"
  by code_simp

text \<open>
  C9, amended. Once the currency is resolved: when ticket issue is rejected with
  \<^verbatim>\<open>TicketingPNRBusy\<close> and with \<^verbatim>\<open>TicketingFoidRequired\<close>, in either order, and then
  succeeds, the machine ends in Done after three calls of ticket issue, one application
  of FOID and two fetches of the booking in all (the one at entry and one re-fetch). In
  every run there are one to three calls of ticket issue; the calls before the last were
  rejected with one of the two retryable kinds, each kind at most once; the outcome of
  the last call is the outcome of the run: Done when it issued, and otherwise its
  failure, unchanged, which is of another kind or of a kind that was retried before;
  FOID is applied, and the booking fetched again, once for each retried
  \<^verbatim>\<open>TicketingFoidRequired\<close>.
\<close>

theorem ticketMachine_retries:
  assumes "currencyOf bookings = Some currency" and "ticketMachine bookings ticket = (r, s)"
  shows "((ticket 0 = Rejected TicketingPNRBusy \<and> ticket 1 = Rejected TicketingFoidRequired \<or>
           ticket 0 = Rejected TicketingFoidRequired \<and> ticket 1 = Rejected TicketingPNRBusy) \<and>
          ticket 2 = Issued \<longrightarrow>
            r = Done \<and> ticketCalls s = 3 \<and> foidCalls s = 1 \<and> bookingFetches s = 2 \<and>
            bookingRefetches s = 1) \<and>
         1 \<le> ticketCalls s \<and> ticketCalls s \<le> 3 \<and>
         set (map ticket [0 ..< ticketCalls s - 1]) \<subseteq>
           {Rejected TicketingFoidRequired, Rejected TicketingPNRBusy} \<and>
         distinct (map ticket [0 ..< ticketCalls s - 1]) \<and>
         (r = Done \<longleftrightarrow> ticket (ticketCalls s - 1) = Issued) \<and>
         (\<forall>failure. ticket (ticketCalls s - 1) = Rejected failure \<longrightarrow>
            r = Failed (TicketFailure failure) \<and>
            (failure = TicketingFoidRequired \<or> failure = TicketingPNRBusy \<longrightarrow>
               Rejected failure \<in> set (map ticket [0 ..< ticketCalls s - 1]))) \<and>
         foidCalls s = count_list (map ticket [0 ..< ticketCalls s - 1]) (Rejected TicketingFoidRequired) \<and>
         bookingRefetches s = foidCalls s \<and>
         currencyFetches s = 1"
proof -
  obtain f where l: "ticketLoop ticket initialState = (f, s)"
    and r: "r = (case f of None \<Rightarrow> Done | Some failure \<Rightarrow> Failed (TicketFailure failure))"
    using assms by (auto simp: ticketMachine_def split: prod.splits option.splits)
  note cf = ticketLoop_closed_form[of ticket]
  consider
      (one) "ticket 0 \<noteq> Rejected TicketingFoidRequired" "ticket 0 \<noteq> Rejected TicketingPNRBusy"
    | (foid) "ticket 0 = Rejected TicketingFoidRequired" "ticket 1 \<noteq> Rejected TicketingPNRBusy"
    | (busy) "ticket 0 = Rejected TicketingPNRBusy" "ticket 1 \<noteq> Rejected TicketingFoidRequired"
    | (foid_busy) "ticket 0 = Rejected TicketingFoidRequired" "ticket 1 = Rejected TicketingPNRBusy"
    | (busy_foid) "ticket 0 = Rejected TicketingPNRBusy" "ticket 1 = Rejected TicketingFoidRequired"
    by blast
  then show ?thesis
  proof cases
    case one
    with cf l have s: "s = machineState 1 0 0 0 0"
      and f: "f = (case ticket 0 of Issued \<Rightarrow> None | Rejected f0 \<Rightarrow> Some f0)"
      by (auto split: ticket_outcome.splits if_splits)
    from one s f r show ?thesis
      by (auto simp: machineState_def bookingFetches_def split: ticket_outcome.splits)
  next
    case foid
    with cf l have s: "s = machineState 2 1 1 1 0"
      and f: "f = (case ticket 1 of Issued \<Rightarrow> None | Rejected f1 \<Rightarrow> Some f1)"
      by (auto split: ticket_outcome.splits if_splits)
    from foid s f r show ?thesis
      by (auto simp: machineState_def bookingFetches_def eval_nat_numeral split: ticket_outcome.splits)
  next
    case busy
    with cf l have s: "s = machineState 2 0 0 0 1"
      and f: "f = (case ticket 1 of Issued \<Rightarrow> None | Rejected f1 \<Rightarrow> Some f1)"
      by (auto split: ticket_outcome.splits if_splits)
    from busy s f r show ?thesis
      by (auto simp: machineState_def bookingFetches_def eval_nat_numeral split: ticket_outcome.splits)
  next
    case foid_busy
    with cf l have s: "s = machineState 3 1 1 1 1"
      and f: "f = (case ticket 2 of Issued \<Rightarrow> None | Rejected f2 \<Rightarrow> Some f2)"
      by (auto split: ticket_outcome.splits if_splits)
    have t: "ticketCalls s - 1 = 2" using s by (simp add: machineState_def)
    from foid_busy s f r show ?thesis
      unfolding t upt_2
      by (auto simp: machineState_def bookingFetches_def split: ticket_outcome.splits)
  next
    case busy_foid
    with cf l have s: "s = machineState 3 1 1 1 1"
      and f: "f = (case ticket 2 of Issued \<Rightarrow> None | Rejected f2 \<Rightarrow> Some f2)"
      by (auto split: ticket_outcome.splits if_splits)
    have t: "ticketCalls s - 1 = 2" using s by (simp add: machineState_def)
    from busy_foid s f r show ?thesis
      unfolding t upt_2
      by (auto simp: machineState_def bookingFetches_def split: ticket_outcome.splits)
  qed
qed

theorem ticketMachine_retries_witness:
  "fst (ticketMachine (projr (extractBookings exampleMoment (exampleRecord ''PRI1''))) busyThenFoid) = Done \<and>
   ticketCalls (snd (ticketMachine (projr (extractBookings exampleMoment (exampleRecord ''PRI1''))) busyThenFoid)) = 3 \<and>
   bookingFetches (snd (ticketMachine (projr (extractBookings exampleMoment (exampleRecord ''PRI1''))) busyThenFoid)) = 2 \<and>
   foidCalls (snd (ticketMachine (projr (extractBookings exampleMoment (exampleRecord ''PRI1''))) busyThenFoid)) = 1"
proof -
  let ?bs = "projr (extractBookings exampleMoment (exampleRecord ''PRI1''))"
  have c: "currencyOf ?bs = Some ''UAH''" by code_simp
  have m: "ticketMachine ?bs busyThenFoid =
      (fst (ticketMachine ?bs busyThenFoid), snd (ticketMachine ?bs busyThenFoid))"
    by simp
  have t: "busyThenFoid 0 = Rejected TicketingPNRBusy \<and>
      busyThenFoid 1 = Rejected TicketingFoidRequired \<and> busyThenFoid 2 = Issued"
    by (simp add: busyThenFoid_def outcomes_def)
  from ticketMachine_retries[OF c m] t show ?thesis by blast
qed

subsection \<open>Coupons of the tickets \<^verbatim>\<open>airGetTicket\<close> returns\<close>

lemma airGetTicket_Inr:
  assumes "airGetTicket getErrorPcc toUpperCase obj allow = Inr res" and "td \<in> set (ticketsOf res)"
  shows "\<exists>etr\<in>set (etrsOf obj). \<exists>container. getTicketFromEtr container etr obj allow = Inr td"
proof -
  from assms(1) have f: "DocumentFailureInfo obj = None"
    by (cases "DocumentFailureInfo obj") (auto simp: airGetTicket_def split: if_splits)
  from assms(1) f have m: "\<not> list_ex (\<lambda>m. rm_Type m = Some ''Error'' \<and> rm_Code m \<noteq> Some (JString ''12009''))
               (getResponseMessages obj)"
    by (auto simp: airGetTicket_def split: if_splits)
  from assms(1) f m obtain node where node: "ETR obj = Some node"
    by (cases "ETR obj") (auto simp: airGetTicket_def)
  show ?thesis
  proof (cases node)
    case (SingleETR etr)
    with assms f m node have "getTicketFromEtr (SingleETR etr) etr obj allow = Inr td"
      by (cases "getTicketFromEtr (SingleETR etr) etr obj allow")
         (auto simp: airGetTicket_def ticketsOf_def)
    with node SingleETR show ?thesis by (auto simp: etrsOf_def)
  next
    case (MultipleETR etrs)
    with assms(1) f m node obtain first rest where etrs: "etrs = first # rest"
      by (cases etrs) (auto simp: airGetTicket_def)
    with assms(1) f m node MultipleETR have t: "truthy (ProviderLocatorCode (snd first))"
      by (auto simp: airGetTicket_def split: if_splits)
    let ?rs = "allInr (map (\<lambda>innerEtr. getTicketFromEtr (SingleETR innerEtr) innerEtr obj allow)
                 (map snd etrs))"
    from assms(1) f m node MultipleETR etrs t have "map_sum id TicketList ?rs = Inr res"
      by (simp add: airGetTicket_def)
    then obtain ts where ts: "?rs = Inr ts" "res = TicketList ts"
      by (cases ?rs) auto
    with assms(2) have "td \<in> set ts" by (simp add: ticketsOf_def)
    from allInr_member[OF ts(1) this] obtain etr where
      "etr \<in> set (map snd etrs)" "getTicketFromEtr (SingleETR etr) etr obj allow = Inr td"
      by blast
    with node MultipleETR show ?thesis by (auto simp: etrsOf_def)
  qed
qed

text \<open>
  C10. Let the coupon keys of the tickets of each ETR be distinct, as keys are. For every
  ticket record \<^verbatim>\<open>airGetTicket\<close> returns there is an ETR of the document such that the
  coupons of the record, over all its tickets in order, are the coupons of the ETR in
  the order of \<open>allCoupons\<close>, ticket by ticket with as many coupons as the ticket has; the
  \<^verbatim>\<open>stopover\<close> of the coupon at a position is not derived from its own
  \<^verbatim>\<open>StopoverCode\<close> but is \<^verbatim>\<open>StopoverCode === 'true'\<close> of the coupon at the next
  position, and for the last coupon it is \<^verbatim>\<open>true\<close>.
\<close>

theorem airGetTicket_stopover_is_next_coupons:
  assumes "airGetTicket getErrorPcc toUpperCase obj allow = Inr res" and "td \<in> set (ticketsOf res)"
    and "\<forall>etr\<in>set (etrsOf obj). distinct (map fst (rawCoupons etr))"
  shows "\<exists>etr\<in>set (etrsOf obj).
           length (returnedCoupons td) = length (rawCoupons etr) \<and>
           (\<forall>i. i < length (rawCoupons etr) \<longrightarrow>
              c_key (returnedCoupons td ! i) = fst (rawCoupons etr ! i) \<and>
              c_stopover (returnedCoupons td ! i) =
                (if i + 1 < length (rawCoupons etr)
                 then StopoverCode (snd (rawCoupons etr ! (i + 1))) = Some ''true''
                 else True)) \<and>
           (returnedCoupons td \<noteq> [] \<longrightarrow> c_stopover (last (returnedCoupons td))) \<and>
           map (\<lambda>tk. length (t_coupons tk)) (tickets td) =
             map (\<lambda>kt. length (Coupon (snd kt))) (Ticket etr)"
proof -
  from airGetTicket_Inr[OF assms(1,2)] obtain etr container where
    etr: "etr \<in> set (etrsOf obj)" and g: "getTicketFromEtr container etr obj allow = Inr td"
    by blast
  from assms(3) etr have d: "distinct (map fst (concat (map (\<lambda>kt. Coupon (snd kt)) (Ticket etr))))"
    by (simp add: rawCoupons_def)
  from coupon_stopover_is_next_coupons[OF g d] etr show ?thesis
    unfolding rawCoupons_def returnedCoupons_def by blast
qed

text \<open>
  Two tickets with the stopover codes \<^verbatim>\<open>true\<close>, \<^verbatim>\<open>false\<close> and \<^verbatim>\<open>true\<close> are returned
  with the flags false, true and true.
\<close>

theorem airGetTicket_stopover_is_next_coupons_witness:
  "map (\<lambda>c. (c_key c, c_stopover c))
     (returnedCoupons (hd (ticketsOf (projr (airGetTicket (\<lambda>_. None) asciiUpperCase exampleTicketDocument False))))) =
     [(''k1'', False), (''k2'', True), (''k3'', True)] \<and>
   map (\<lambda>kc. (fst kc, StopoverCode (snd kc))) (rawCoupons exampleEtr) =
     [(''k1'', Some ''true''), (''k2'', Some ''false''), (''k3'', Some ''true'')]"
proof -
  let ?r = "airGetTicket (\<lambda>_. None) asciiUpperCase exampleTicketDocument False"
  let ?td = "hd (ticketsOf (projr ?r))"
  have "\<not> isl ?r" by code_simp
  then have e: "?r = Inr (projr ?r)" by simp
  have "length (ticketsOf (projr ?r)) = 1" by code_simp
  then have td: "?td \<in> set (ticketsOf (projr ?r))"
    by (cases "ticketsOf (projr ?r)") simp_all
  have es: "etrsOf exampleTicketDocument = [exampleEtr]"
    by (simp add: etrsOf_def exampleTicketDocument_def)
  have raw: "rawCoupons exampleEtr =
      [(''k1'', exampleCoupon ''1'' ''true''), (''k2'', exampleCoupon ''2'' ''false''),
       (''k3'', exampleCoupon ''3'' ''true'')]"
    by (simp add: rawCoupons_def exampleEtr_def)
  have d: "\<forall>etr\<in>set (etrsOf exampleTicketDocument). distinct (map fst (rawCoupons etr))"
    unfolding es by (simp add: raw)
  from airGetTicket_stopover_is_next_coupons[OF e td d] obtain etr where
    mem: "etr \<in> set (etrsOf exampleTicketDocument)"
    and len': "length (returnedCoupons ?td) = length (rawCoupons etr)"
    and at': "\<forall>i. i < length (rawCoupons etr) \<longrightarrow>
      c_key (returnedCoupons ?td ! i) = fst (rawCoupons etr ! i) \<and>
      c_stopover (returnedCoupons ?td ! i) =
        (if i + 1 < length (rawCoupons etr)
         then StopoverCode (snd (rawCoupons etr ! (i + 1))) = Some ''true''
         else True)"
    by blast
  from mem have etr: "etr = exampleEtr" unfolding es by simp
  have l3: "length (rawCoupons exampleEtr) = 3" by (simp add: raw)
  have len: "length (returnedCoupons ?td) = 3" using len' unfolding etr l3 .
  have at: "c_key (returnedCoupons ?td ! i) = fst (rawCoupons exampleEtr ! i) \<and>
      c_stopover (returnedCoupons ?td ! i) =
        (if i + 1 < 3 then StopoverCode (snd (rawCoupons exampleEtr ! (i + 1))) = Some ''true''
         else True)"
    if "i < 3" for i
    using at' that unfolding etr l3 by blast
  have 0: "c_key (returnedCoupons ?td ! 0) = ''k1'' \<and> c_stopover (returnedCoupons ?td ! 0) = False"
    using at[of 0] by (simp add: raw exampleCoupon_def)
  have 1: "c_key (returnedCoupons ?td ! 1) = ''k2'' \<and> c_stopover (returnedCoupons ?td ! 1) = True"
    using at[of 1] by (simp add: raw exampleCoupon_def)
  have 2: "c_key (returnedCoupons ?td ! 2) = ''k3'' \<and> c_stopover (returnedCoupons ?td ! 2) = True"
    using at[of 2] by (simp add: raw exampleCoupon_def)
  have "map (\<lambda>c. (c_key c, c_stopover c)) (returnedCoupons ?td) =
      [(''k1'', False), (''k2'', True), (''k3'', True)]"
  proof (rule nth_equalityI)
    show "length (map (\<lambda>c. (c_key c, c_stopover c)) (returnedCoupons ?td)) =
        length [(''k1'', False), (''k2'', True), (''k3'', True)]"
      using len by simp
  next
    fix i assume "i < length (map (\<lambda>c. (c_key c, c_stopover c)) (returnedCoupons ?td))"
    then have "i < 3" using len by simp
    then consider "i = 0" | "i = 1" | "i = 2" by linarith
    then show "map (\<lambda>c. (c_key c, c_stopover c)) (returnedCoupons ?td) ! i =
        [(''k1'', False), (''k2'', True), (''k3'', True)] ! i"
      using 0 1 2 len by cases simp_all
  qed
  moreover have "map (\<lambda>kc. (fst kc, StopoverCode (snd kc))) (rawCoupons exampleEtr) =
     [(''k1'', Some ''true''), (''k2'', Some ''false''), (''k3'', Some ''true'')]"
    by (simp add: raw exampleCoupon_def)
  ultimately show ?thesis by blast
qed

subsection \<open>Side effects of normalization\<close>




lemma segmentsOf_with: "segmentsOf (withPricingSolutions new obj) = segmentsOf obj"
  by (auto simp: segmentsOf_def withPricingSolutions_def split: option.splits list.splits)

lemma withPricingSolutions_same:
  assumes "pricingSolutionsOf obj = Some old"
  shows "withPricingSolutions old obj = obj"
  using assms
  by (auto simp: pricingSolutionsOf_def withPricingSolutions_def split: option.splits list.splits)




lemma airPriceRspPricingSolutionXML_unchanged:
  assumes "(\<exists>e. airPriceRspPassengersPerReservation mergeLeafRecursive obj = Inl e) \<or>
           segmentsOf obj = None \<or> pricingSolutionsOf obj = None \<or> pricingSolutionsOf obj = Some []"
  shows "isl (fst (airPriceRspPricingSolutionXML mergeLeafRecursive parseFloat passengers obj)) \<and>
         snd (airPriceRspPricingSolutionXML mergeLeafRecursive parseFloat passengers obj) = obj"
  using assms
  by (auto simp: airPriceRspPricingSolutionXML_def Let_def split: sum.splits option.splits)




end
